theory Spec2Isabelle
  imports Main "HOL-Library.Char_ord" "HOL-Library.List_Lexorder"
begin

section \<open>Strings as Go sees them\<close>

text \<open>
  A Go string is a byte sequence; here it is a \<^typ>\<open>string\<close>, one \<^typ>\<open>char\<close> per byte.
  \<open>strings.TrimSpace\<close> and \<open>strings.Fields\<close> cut at the runes for which
  \<open>unicode.IsSpace\<close> holds.  \<open>space_runes\<close> lists the UTF-8 encodings of these runes:
  tab, LF, VT, FF, CR, space, U+0085, U+00A0, U+1680, U+2000 to U+200A, U+2028, U+2029,
  U+202F, U+205F and U+3000.
\<close>

definition space_runes :: "string list" where
  "space_runes =
    [[CHR 0x09], [CHR 0x0A], [CHR 0x0B], [CHR 0x0C], [CHR 0x0D], [CHR 0x20],
     [CHR 0xC2, CHR 0x85], [CHR 0xC2, CHR 0xA0], [CHR 0xE1, CHR 0x9A, CHR 0x80],
     [CHR 0xE2, CHR 0x80, CHR 0x80], [CHR 0xE2, CHR 0x80, CHR 0x81],
     [CHR 0xE2, CHR 0x80, CHR 0x82], [CHR 0xE2, CHR 0x80, CHR 0x83],
     [CHR 0xE2, CHR 0x80, CHR 0x84], [CHR 0xE2, CHR 0x80, CHR 0x85],
     [CHR 0xE2, CHR 0x80, CHR 0x86], [CHR 0xE2, CHR 0x80, CHR 0x87],
     [CHR 0xE2, CHR 0x80, CHR 0x88], [CHR 0xE2, CHR 0x80, CHR 0x89],
     [CHR 0xE2, CHR 0x80, CHR 0x8A], [CHR 0xE2, CHR 0x80, CHR 0xA8],
     [CHR 0xE2, CHR 0x80, CHR 0xA9], [CHR 0xE2, CHR 0x80, CHR 0xAF],
     [CHR 0xE2, CHR 0x81, CHR 0x9F], [CHR 0xE3, CHR 0x80, CHR 0x80]]"

text \<open>The number of bytes of the space rune a string starts with, 0 when it starts with none.\<close>

definition space_width :: "string \<Rightarrow> nat" where
  "space_width s =
    (case find (\<lambda>r. take (length r) s = r) space_runes of
       Some r \<Rightarrow> length r
     | None \<Rightarrow> 0)"

text \<open>The same at the end of a string (\<open>s\<close> is given reversed).\<close>

definition space_width_rev :: "string \<Rightarrow> nat" where
  "space_width_rev s =
    (case find (\<lambda>r. take (length r) s = rev r) space_runes of
       Some r \<Rightarrow> length r
     | None \<Rightarrow> 0)"

fun trim_left :: "string \<Rightarrow> string" where
  "trim_left [] = []"
| "trim_left (c # cs) =
    (if space_width (c # cs) = 0 then c # cs
     else trim_left (drop (space_width (c # cs) - 1) cs))"

fun trim_left_rev :: "string \<Rightarrow> string" where
  "trim_left_rev [] = []"
| "trim_left_rev (c # cs) =
    (if space_width_rev (c # cs) = 0 then c # cs
     else trim_left_rev (drop (space_width_rev (c # cs) - 1) cs))"

text \<open>\<open>strings.TrimSpace\<close>: leading space runes go first, then trailing ones.\<close>

definition TrimSpace :: "string \<Rightarrow> string" where
  "TrimSpace s = rev (trim_left_rev (rev (trim_left s)))"

text \<open>
  \<open>strings.Fields\<close>: the maximal runs of bytes between space runes, none of them empty.
  \<open>fields_acc cur s\<close> carries the field being read, reversed.
\<close>

fun fields_acc :: "string \<Rightarrow> string \<Rightarrow> string list" where
  "fields_acc cur [] = (if cur = [] then [] else [rev cur])"
| "fields_acc cur (c # cs) =
    (if space_width (c # cs) = 0 then fields_acc (c # cur) cs
     else (if cur = [] then [] else [rev cur])
          @ fields_acc [] (drop (space_width (c # cs) - 1) cs))"

definition Fields :: "string \<Rightarrow> string list" where
  "Fields s = fields_acc [] s"

text \<open>Splitting at a separator byte, as \<open>strings.Split\<close> does for a one-byte separator.\<close>

fun split_acc :: "char \<Rightarrow> string \<Rightarrow> string \<Rightarrow> string list" where
  "split_acc sep cur [] = [rev cur]"
| "split_acc sep cur (c # cs) =
    (if c = sep then rev cur # split_acc sep [] cs else split_acc sep (c # cur) cs)"

definition split_on :: "char \<Rightarrow> string \<Rightarrow> string list" where
  "split_on sep s = split_acc sep [] s"

text \<open>
  The tokens of a \<open>bufio.Scanner\<close> with the default split function \<open>ScanLines\<close>: the text
  between line feeds, one trailing carriage return dropped from each, and no token for an
  empty remainder after the last line feed.  The scanner stops (\<open>Scan\<close> answers false) at the
  first line that does not fit its buffer of \<open>MaxScanTokenSize\<close> = 65536 bytes.
\<close>

definition drop_cr :: "string \<Rightarrow> string" where
  "drop_cr l = (if l \<noteq> [] \<and> last l = CHR 0x0D then butlast l else l)"

definition scan_lines :: "string \<Rightarrow> string list" where
  "scan_lines s =
    (let raw = split_on (CHR 0x0A) s;
         toks = (if raw \<noteq> [] \<and> last raw = [] then butlast raw else raw)
     in map drop_cr (takeWhile (\<lambda>l. length l < 65536) toks))"

section \<open>Lexical paths\<close>

text \<open>
  \<open>filepath.Clean\<close> on the components of a slash-separated path: empty components and
  \<open>.\<close> go, \<open>..\<close> removes the component before it, and \<open>..\<close> at the root of a rooted path
  goes.  The accumulator holds the components kept so far, last one first.
\<close>

fun clean_comps :: "bool \<Rightarrow> string list \<Rightarrow> string list \<Rightarrow> string list" where
  "clean_comps rooted acc [] = rev acc"
| "clean_comps rooted acc (c # cs) =
    (if c = [] \<or> c = ''.'' then clean_comps rooted acc cs
     else if c = ''..'' then
       (case acc of
          [] \<Rightarrow> if rooted then clean_comps rooted [] cs else clean_comps rooted [''..''] cs
        | a # as \<Rightarrow> if a = ''..'' then clean_comps rooted (''..'' # a # as) cs
                    else clean_comps rooted as cs)
     else clean_comps rooted (c # acc) cs)"

fun intercalate :: "string \<Rightarrow> string list \<Rightarrow> string" where
  "intercalate sep [] = []"
| "intercalate sep [x] = x"
| "intercalate sep (x # y # ys) = x @ sep @ intercalate sep (y # ys)"

definition IsAbs :: "string \<Rightarrow> bool" where
  "IsAbs p \<longleftrightarrow> take 1 p = ''/''"

definition Clean :: "string \<Rightarrow> string" where
  "Clean p =
    (if p = [] then ''.''
     else let body = intercalate ''/'' (clean_comps (IsAbs p) [] (split_on CHR ''/'' p))
          in if IsAbs p then ''/'' @ body else if body = [] then ''.'' else body)"

text \<open>\<open>filepath.Join\<close>: empty elements are ignored, the rest joined by slashes and cleaned.\<close>

definition Join :: "string list \<Rightarrow> string" where
  "Join elems =
    (let es = filter (\<lambda>e. e \<noteq> []) elems
     in if es = [] then [] else Clean (intercalate ''/'' es))"

text \<open>\<open>filepath.Dir\<close>: everything up to the last slash, cleaned.\<close>

definition Dir_of :: "string \<Rightarrow> string" where
  "Dir_of p = Clean (rev (dropWhile (\<lambda>c. c \<noteq> CHR ''/'') (rev p)))"

section \<open>Errors\<close>

text \<open>
  A Go \<open>error\<close> value.  \<open>OSError\<close> is whatever a call into package \<open>os\<close> returned,
  \<open>Msg m\<close> is \<open>fmt.Errorf(m)\<close>, and \<open>Wrap c e\<close> is \<open>fmt.Errorf("c: %w", e)\<close>.  The three
  failures of the backend selector have constructors of their own; they carry the forced name
  their message prints.  A function that returns \<open>error\<close> returns \<^typ>\<open>'a option\<close> here,
  \<open>None\<close> for \<open>nil\<close>.
\<close>

datatype error =
    OSError
  | Msg string
  | Wrap string error
  | NotSupported string
  | UnknownBackend string
  | NoBackendFound

section \<open>Image validation\<close>

text \<open>
  \<open>validateImage\<close> only asks the operating system questions.  \<open>os_view\<close> holds the answers:
  the working directory (\<open>None\<close> when \<open>os.Getwd\<close> fails), the target of each symbolic link
  (\<open>os.Readlink\<close>, \<open>None\<close> for an error), the outcome of \<open>os.Stat\<close>, and whether
  \<open>os.Open\<close> succeeds.
\<close>

datatype stat_result = NotExist | StatFails | Info (isDir: bool) (size: nat)

record os_view =
  getwd :: "string option"
  readlink :: "string \<Rightarrow> string option"
  stat :: "string \<Rightarrow> stat_result"
  can_open :: "string \<Rightarrow> bool"

definition HasPrefix :: "string \<Rightarrow> string \<Rightarrow> bool" where
  "HasPrefix s pre \<longleftrightarrow> take (length pre) s = pre"

definition Abs :: "os_view \<Rightarrow> string \<Rightarrow> error + string" where
  "Abs v path =
    (if IsAbs path then Inr (Clean path)
     else case getwd v of
            None \<Rightarrow> Inl OSError
          | Some wd \<Rightarrow> Inr (Join [wd, path]))"

definition dangerousPaths :: "string list" where
  "dangerousPaths =
    [''/system'', ''/sys'', ''/proc'', ''/dev'',
     ''/etc'', ''/bin'', ''/sbin'', ''/boot'',
     ''/root'', ''/data/system'', ''/data/data'']"

text \<open>
  \<open>validateSafePath\<close> calls itself on the target of a symbolic link, with no bound on the
  number of calls.  The outer \<open>option\<close> is \<open>None\<close> when the call never returns.
\<close>

partial_function (option) validateSafePath :: "os_view \<Rightarrow> string \<Rightarrow> error option option" where
  "validateSafePath v path =
    (case find (HasPrefix path) dangerousPaths of
       Some dangerous \<Rightarrow>
         Some (Some (Msg (''cannot mount files from system directory: '' @ dangerous)))
     | None \<Rightarrow>
        (case readlink v path of
           Some linkTarget \<Rightarrow>
             if IsAbs linkTarget then validateSafePath v linkTarget
             else validateSafePath v (Join [Dir_of path, linkTarget])
         | None \<Rightarrow> Some None))"

declare validateSafePath.simps [code]

definition check_file :: "os_view \<Rightarrow> string \<Rightarrow> error option" where
  "check_file v absPath =
    (case stat v absPath of
       NotExist \<Rightarrow> Some (Msg (''file does not exist: '' @ absPath))
     | StatFails \<Rightarrow> Some (Wrap ''cannot access file'' OSError)
     | Info dir sz \<Rightarrow>
         if dir then Some (Msg (''path is a directory: '' @ absPath))
         else if sz = 0 then Some (Msg (''file is empty: '' @ absPath))
         else if \<not> can_open v absPath then Some (Wrap ''file not readable'' OSError)
         else None)"

definition validateImage :: "os_view \<Rightarrow> string \<Rightarrow> error option option" where
  "validateImage v path =
    (case Abs v path of
       Inl e \<Rightarrow> Some (Some (Wrap ''invalid path'' e))
     | Inr absPath \<Rightarrow>
        (case validateSafePath v absPath of
           None \<Rightarrow> None
         | Some (Some e) \<Rightarrow> Some (Some e)
         | Some None \<Rightarrow> Some (check_file v absPath)))"

text \<open>
  What the deny-list and the link check look for, said without the code: \<open>safe_chain v p\<close>
  holds when \<open>p\<close> starts with no entry of the deny-list and either is no symbolic link, or is
  one whose target (taken relative to the directory of \<open>p\<close>) is again safe.
\<close>

definition link_next :: "string \<Rightarrow> string \<Rightarrow> string" where
  "link_next path linkTarget =
    (if IsAbs linkTarget then linkTarget else Join [Dir_of path, linkTarget])"

inductive safe_chain :: "os_view \<Rightarrow> string \<Rightarrow> bool" for v where
  safe_end: "find (HasPrefix p) dangerousPaths = None \<Longrightarrow> readlink v p = None \<Longrightarrow> safe_chain v p"
| safe_link: "find (HasPrefix p) dangerousPaths = None \<Longrightarrow> readlink v p = Some t \<Longrightarrow>
     safe_chain v (link_next p t) \<Longrightarrow> safe_chain v p"

text \<open>A filesystem in which \<open>/sdcard/loop\<close> is a symbolic link to itself.\<close>

definition loop_view :: os_view where
  "loop_view =
    \<lparr>getwd = Some ''/'',
     readlink = (\<lambda>p. if p = ''/sdcard/loop'' then Some ''/sdcard/loop'' else None),
     stat = (\<lambda>p. StatFails),
     can_open = (\<lambda>p. False)\<rparr>"

section \<open>The kernel's control files\<close>

text \<open>
  The backends own no state; all of it is in the files the kernel exposes.  A \<open>world\<close> is
  that filesystem: \<open>nodes\<close> maps an absolute path, given by its components, to a regular
  file with its bytes, a directory or a symbolic link (the first entry for a path counts, an
  update is put in front); the root is a directory.  \<open>refuses q data\<close> holds when the
  kernel answers a write of the bytes \<open>data\<close> to the path \<open>q\<close> with an error: an attribute
  takes some values and refuses others, and which ones does not change while the program
  runs.  \<open>cwd\<close> is the working directory, and \<open>writes\<close> records each call of
  \<open>os.WriteFile\<close> with its data, the latest first, whether the kernel took it or not.

  Paths are looked up as they are spelled: a symbolic link is a node of its own, present and
  neither a directory nor readable or writable as a file.  The control trees hold links only
  where a function is linked into a configuration, and the program tests those for presence
  only.
\<close>

type_synonym path = "string list"

datatype node = FileNode string | DirNode | LinkNode path

record world =
  nodes :: "(path \<times> node) list"
  refuses :: "path \<Rightarrow> string \<Rightarrow> bool"
  cwd :: path
  writes :: "(path \<times> string) list"

definition kind :: "world \<Rightarrow> path \<Rightarrow> node option" where
  "kind w p = (if p = [] then Some DirNode else map_of (nodes w) p)"

text \<open>
  The absolute path a path string denotes for the kernel, after the lexical cleaning that
  \<open>filepath.Join\<close> applies: \<open>filepath.Join(s, "a", "b")\<close> is \<open>to_path w s @ [''a'', ''b'']\<close>.
\<close>

definition to_path :: "world \<Rightarrow> string \<Rightarrow> path" where
  "to_path w s =
    clean_comps True [] ((if IsAbs s then [] else cwd w) @ split_on CHR ''/'' s)"

definition os_ReadFile :: "world \<Rightarrow> path \<Rightarrow> error + string" where
  "os_ReadFile w p =
    (case kind w p of
       Some (FileNode c) \<Rightarrow> Inr c
     | _ \<Rightarrow> Inl OSError)"

text \<open>
  \<open>os.WriteFile\<close> replaces the whole content of a file, and creates the file in an existing
  directory.  A refused write changes nothing but the record of calls.
\<close>

definition os_WriteFile :: "world \<Rightarrow> path \<Rightarrow> string \<Rightarrow> error option \<times> world" where
  "os_WriteFile w p data =
    (let w' = w\<lparr>writes := (p, data) # writes w\<rparr>;
         done = w'\<lparr>nodes := (p, FileNode data) # nodes w\<rparr>
     in if refuses w p data then (Some OSError, w')
        else case kind w p of
               Some (FileNode c) \<Rightarrow> (None, done)
             | Some n \<Rightarrow> (Some OSError, w')
             | None \<Rightarrow> if kind w (butlast p) = Some DirNode then (None, done)
                        else (Some OSError, w'))"

text \<open>
  \<open>os.ReadDir\<close> lists the names in a directory, sorted by name.  A name is not empty,
  holds no slash, and is neither \<open>.\<close> nor \<open>..\<close>.
\<close>

definition valid_name :: "string \<Rightarrow> bool" where
  "valid_name n \<longleftrightarrow> n \<noteq> [] \<and> n \<noteq> ''.'' \<and> n \<noteq> ''..'' \<and> \<not> List.member n CHR ''/''"

definition child_names :: "world \<Rightarrow> path \<Rightarrow> string list" where
  "child_names w d =
    filter valid_name
      (map last (filter (\<lambda>k. k \<noteq> [] \<and> butlast k = d) (map fst (nodes w))))"

definition os_ReadDir :: "world \<Rightarrow> path \<Rightarrow> error + string list" where
  "os_ReadDir w d =
    (if kind w d = Some DirNode then Inr (sort (remdups (child_names w d)))
     else Inl OSError)"

text \<open>
  \<open>os.MkdirAll\<close>: nothing to do for a directory, an error for any other node, and otherwise
  the parent first and then the directory itself.
\<close>

function os_MkdirAll :: "world \<Rightarrow> path \<Rightarrow> error option \<times> world" where
  "os_MkdirAll w p =
    (case kind w p of
       Some DirNode \<Rightarrow> (None, w)
     | Some n \<Rightarrow> (Some OSError, w)
     | None \<Rightarrow>
        (case os_MkdirAll w (butlast p) of
           (Some e, w') \<Rightarrow> (Some e, w')
         | (None, w') \<Rightarrow> (None, w'\<lparr>nodes := (p, DirNode) # nodes w'\<rparr>)))"
  by pat_completeness auto

termination os_MkdirAll
  by (relation "measure (\<lambda>(w, p). length p)") (auto simp add: kind_def split: if_splits)

declare os_MkdirAll.simps [simp del]

text \<open>\<open>os.Symlink target link\<close> fails when \<open>link\<close> exists or its directory does not.\<close>

definition os_Symlink :: "world \<Rightarrow> path \<Rightarrow> path \<Rightarrow> error option \<times> world" where
  "os_Symlink w target link =
    (if kind w link = None \<and> kind w (butlast link) = Some DirNode
     then (None, w\<lparr>nodes := (link, LinkNode target) # nodes w\<rparr>)
     else (Some OSError, w))"

section \<open>Path and I/O primitives\<close>

definition readFile :: "world \<Rightarrow> path \<Rightarrow> error + string" where
  "readFile w p =
    (case os_ReadFile w p of
       Inl e \<Rightarrow> Inl e
     | Inr data \<Rightarrow> Inr (TrimSpace data))"

definition writeFile :: "world \<Rightarrow> path \<Rightarrow> string \<Rightarrow> error option \<times> world" where
  "writeFile w p content = os_WriteFile w p (content @ [CHR 0x0A])"

definition fileExists :: "world \<Rightarrow> path \<Rightarrow> bool" where
  "fileExists w p = (case kind w p of None \<Rightarrow> False | Some n \<Rightarrow> n \<noteq> DirNode)"

definition dirExists :: "world \<Rightarrow> path \<Rightarrow> bool" where
  "dirExists w p = (kind w p = Some DirNode)"

definition pathExists :: "world \<Rightarrow> path \<Rightarrow> bool" where
  "pathExists w p = (kind w p \<noteq> None)"

text \<open>
  The loop of \<open>findMountPoint\<close> over the lines of \<open>/proc/mounts\<close>: the first line with at
  least three fields whose field 0 equals \<open>fsType\<close> gives its field 1.
\<close>

fun scan_mounts :: "string \<Rightarrow> string list \<Rightarrow> string option" where
  "scan_mounts fsType [] = None"
| "scan_mounts fsType (l # ls) =
    (let fields = Fields l
     in if 3 \<le> length fields \<and> fields ! 0 = fsType then Some (fields ! 1)
        else scan_mounts fsType ls)"

definition findMountPoint :: "world \<Rightarrow> string \<Rightarrow> string" where
  "findMountPoint w fsType =
    (case kind w [''proc'', ''mounts''] of
       None \<Rightarrow> []
     | Some (LinkNode t) \<Rightarrow> []
     | Some n \<Rightarrow>
        (case scan_mounts fsType (case n of FileNode c \<Rightarrow> scan_lines c | _ \<Rightarrow> []) of
           Some mountPoint \<Rightarrow> mountPoint
         | None \<Rightarrow>
             if fsType = ''configfs'' then
               if dirExists w [''sys'', ''kernel'', ''config''] then ''/sys/kernel/config''
               else if dirExists w [''config''] then ''/config''
               else []
             else []))"


definition verifyMount :: "world \<Rightarrow> path \<Rightarrow> string \<Rightarrow> error option" where
  "verifyMount w lunFile expectedPath =
    (case readFile w lunFile of
       Inl e \<Rightarrow> Some (Wrap ''failed to read LUN file'' e)
     | Inr mountedPath \<Rightarrow>
         if mountedPath \<noteq> expectedPath
         then Some (Msg (''expected '' @ expectedPath @ '', got '' @ mountedPath))
         else None)"

definition verifyUnmount :: "world \<Rightarrow> path \<Rightarrow> error option" where
  "verifyUnmount w lunFile =
    (case readFile w lunFile of
       Inl e \<Rightarrow> Some e
     | Inr content \<Rightarrow> if content \<noteq> [] then Some (Msg ''LUN file not empty'') else None)"

section \<open>Backends\<close>

record MountOptions =
  ReadWrite :: bool
  CDROM :: bool

record MountStatus =
  Mounted :: bool
  File :: string
  ReadOnly :: bool
  StatusCDROM :: bool

text \<open>\<open>&MountStatus{Mounted: false}\<close>: the other fields have their zero values.\<close>

definition not_mounted :: MountStatus where
  "not_mounted = \<lparr>Mounted = False, File = [], ReadOnly = False, StatusCDROM = False\<rparr>"

text \<open>
  One step of a procedure that stops at the first error: \<open>step ctx r k\<close> returns the error
  of \<open>r\<close> wrapped as \<open>fmt.Errorf("ctx: %w", err)\<close>, or goes on with \<open>k\<close>.
\<close>

definition step ::
  "string \<Rightarrow> error option \<times> world \<Rightarrow> (world \<Rightarrow> error option \<times> world) \<Rightarrow> error option \<times> world" where
  "step ctx r k = (case r of (Some e, w) \<Rightarrow> (Some (Wrap ctx e), w) | (None, w) \<Rightarrow> k w)"

text \<open>\<open>udc, _ := readFile(f)\<close>: the error is dropped and the value is then empty.\<close>

definition read_or_empty :: "world \<Rightarrow> path \<Rightarrow> string" where
  "read_or_empty w p = (case readFile w p of Inl e \<Rightarrow> [] | Inr s \<Rightarrow> s)"

subsection \<open>ConfigFS\<close>

definition ConfigFS_Supported :: "world \<Rightarrow> bool" where
  "ConfigFS_Supported w =
    (let mountPoint = findMountPoint w ''configfs''
     in if mountPoint = [] then False
        else dirExists w (to_path w mountPoint @ [''usb_gadget'']))"

definition findGadgetRoot :: "world \<Rightarrow> error + path" where
  "findGadgetRoot w =
    (let mountPoint = findMountPoint w ''configfs''
     in if mountPoint = [] then Inl (Msg ''configfs not mounted'')
        else let gadgetDir = to_path w mountPoint @ [''usb_gadget'']
             in if \<not> dirExists w gadgetDir then Inl (Msg ''usb_gadget directory not found'')
                else case os_ReadDir w gadgetDir of
                       Inl e \<Rightarrow> Inl (Wrap ''read gadget dir'' e)
                     | Inr entries \<Rightarrow>
                        (case find (\<lambda>name. name ! 0 \<noteq> CHR ''.''
                                       \<and> read_or_empty w (gadgetDir @ [name, ''UDC'']) \<noteq> [])
                                entries of
                           Some name \<Rightarrow> Inr (gadgetDir @ [name])
                         | None \<Rightarrow> Inl (Msg ''no active gadget found'')))"

definition findConfigRoot :: "world \<Rightarrow> path \<Rightarrow> error + path" where
  "findConfigRoot w gadgetRoot =
    (let configDir = gadgetRoot @ [''configs'']
     in case os_ReadDir w configDir of
          Inl e \<Rightarrow> Inl (Wrap ''read configs'' e)
        | Inr entries \<Rightarrow>
           (case find (\<lambda>name. name ! 0 \<noteq> CHR ''.'') entries of
              Some name \<Rightarrow> Inr (configDir @ [name])
            | None \<Rightarrow> Inl (Msg ''no config found'')))"

definition getUDC :: "world \<Rightarrow> path \<Rightarrow> error + string" where
  "getUDC w gadgetRoot = readFile w (gadgetRoot @ [''UDC''])"

definition setUDC :: "world \<Rightarrow> path \<Rightarrow> string \<Rightarrow> error option \<times> world" where
  "setUDC w gadgetRoot udc = writeFile w (gadgetRoot @ [''UDC'']) udc"

text \<open>
  The deferred function of \<open>Mount\<close> and \<open>Unmount\<close>: it runs when the function returns,
  whatever it returns, and drops the error of \<open>setUDC\<close>.
\<close>

definition restore_UDC :: "path \<Rightarrow> string \<Rightarrow> world \<Rightarrow> world" where
  "restore_UDC gadgetRoot udc w = (if udc \<noteq> [] then snd (setUDC w gadgetRoot udc) else w)"

text \<open>The part of \<open>Mount\<close> after the \<open>defer\<close> statement.\<close>

definition ConfigFS_Mount_body ::
  "world \<Rightarrow> path \<Rightarrow> path \<Rightarrow> string \<Rightarrow> MountOptions \<Rightarrow> error option \<times> world" where
  "ConfigFS_Mount_body w0 gadgetRoot configRoot imagePath opts =
    (let functionRoot = gadgetRoot @ [''functions''];
         massStorageRoot = functionRoot @ [''mass_storage.0''];
         lunRoot = massStorageRoot @ [''lun.0''];
         configLink = configRoot @ [''mass_storage.0''];
         lunFile = lunRoot @ [''file''];
         cdromValue = (if CDROM opts then ''1'' else ''0'');
         roValue = (if ReadWrite opts then ''0'' else ''1'')
     in step ''create mass_storage function''
          (if \<not> dirExists w0 massStorageRoot then os_MkdirAll w0 massStorageRoot else (None, w0))
        (\<lambda>w1. step ''link mass_storage to config''
          (if \<not> pathExists w1 configLink then os_Symlink w1 massStorageRoot configLink
           else (None, w1))
        (\<lambda>w2. step ''clear lun file'' (writeFile w2 lunFile [])
        (\<lambda>w3. step ''set cdrom flag'' (writeFile w3 (lunRoot @ [''cdrom'']) cdromValue)
        (\<lambda>w4. step ''set ro flag'' (writeFile w4 (lunRoot @ [''ro'']) roValue)
        (\<lambda>w5. step ''mount image'' (writeFile w5 lunFile imagePath)
        (\<lambda>w6. step ''verify mount'' (verifyMount w6 lunFile imagePath, w6)
        (\<lambda>w7. (None, w7)))))))))"

definition ConfigFS_Mount :: "world \<Rightarrow> string \<Rightarrow> MountOptions \<Rightarrow> error option \<times> world" where
  "ConfigFS_Mount w imagePath opts =
    (case findGadgetRoot w of
       Inl e \<Rightarrow> (Some (Wrap ''find gadget'' e), w)
     | Inr gadgetRoot \<Rightarrow>
        (case findConfigRoot w gadgetRoot of
           Inl e \<Rightarrow> (Some (Wrap ''find config'' e), w)
         | Inr configRoot \<Rightarrow>
            (case getUDC w gadgetRoot of
               Inl e \<Rightarrow> (Some (Wrap ''get UDC'' e), w)
             | Inr udc \<Rightarrow>
                (case setUDC w gadgetRoot [] of
                   (Some e, w0) \<Rightarrow> (Some (Wrap ''disable UDC'' e), w0)
                 | (None, w0) \<Rightarrow>
                     (case ConfigFS_Mount_body w0 gadgetRoot configRoot imagePath opts of
                        (r, w') \<Rightarrow> (r, restore_UDC gadgetRoot udc w'))))))"

text \<open>The part of \<open>Unmount\<close> after the \<open>defer\<close> statement.\<close>

definition ConfigFS_Unmount_body :: "world \<Rightarrow> path \<Rightarrow> error option \<times> world" where
  "ConfigFS_Unmount_body w0 gadgetRoot =
    (let massStorageRoot = gadgetRoot @ [''functions'', ''mass_storage.0''];
         lunFile = massStorageRoot @ [''lun.0'', ''file'']
     in step ''clear lun file'' (writeFile w0 lunFile [])
        (\<lambda>w1. step ''verify unmount'' (verifyUnmount w1 lunFile, w1)
        (\<lambda>w2. (None, w2))))"

definition ConfigFS_Unmount :: "world \<Rightarrow> error option \<times> world" where
  "ConfigFS_Unmount w =
    (case findGadgetRoot w of
       Inl e \<Rightarrow> (Some (Wrap ''find gadget'' e), w)
     | Inr gadgetRoot \<Rightarrow>
        (case getUDC w gadgetRoot of
           Inl e \<Rightarrow> (Some (Wrap ''get UDC'' e), w)
         | Inr udc \<Rightarrow>
            (case setUDC w gadgetRoot [] of
               (Some e, w0) \<Rightarrow> (Some (Wrap ''disable UDC'' e), w0)
             | (None, w0) \<Rightarrow>
                 (case ConfigFS_Unmount_body w0 gadgetRoot of
                    (r, w') \<Rightarrow> (r, restore_UDC gadgetRoot udc w')))))"

definition ConfigFS_Status :: "world \<Rightarrow> MountStatus" where
  "ConfigFS_Status w =
    (case findGadgetRoot w of
       Inl e \<Rightarrow> not_mounted
     | Inr gadgetRoot \<Rightarrow>
        (let massStorageRoot = gadgetRoot @ [''functions'', ''mass_storage.0''];
             lunRoot = massStorageRoot @ [''lun.0'']
         in if \<not> dirExists w massStorageRoot then not_mounted
            else case readFile w (lunRoot @ [''file'']) of
                   Inl e \<Rightarrow> not_mounted
                 | Inr file \<Rightarrow>
                     if file = [] then not_mounted
                     else \<lparr>Mounted = True, File = file,
                           ReadOnly = (read_or_empty w (lunRoot @ [''ro'']) = ''1''),
                           StatusCDROM = (read_or_empty w (lunRoot @ [''cdrom'']) = ''1'')\<rparr>))"

subsection \<open>ConfigFS: the second copy of \<open>findGadgetRoot\<close>\<close>

text \<open>
  The source tree holds \<open>configfs.go\<close> twice.  The definitions above follow the copy under
  \<open>src/\<close>, the one the build script compiles.  In the other copy (\<open>part_003\<close>)
  \<open>findGadgetRoot\<close> writes to the filesystem: it creates the \<open>usb_gadget\<close> directory when it
  is missing, and when no gadget is bound it creates a gadget \<open>g1\<close> instead of returning an
  error.  It returns the state it leaves with its result.

  \<open>try_step\<close> is \<open>step\<close> for a function that returns a path.  \<open>bind_first\<close> is the loop
  over the controller names: the first name outside the dot files whose write to the \<open>UDC\<close>
  attribute succeeds ends it.  \<open>create_gadget\<close> is the block under
  \<open>if !dirExists(gadgetPath)\<close>; there \<open>filepath.Join(mountPoint, "../devices")\<close> is the
  directory \<open>devices\<close> beside the mount point, and \<open>..\<close> at the root stays at the root.
\<close>

definition try_step ::
  "string \<Rightarrow> error option \<times> world \<Rightarrow> (world \<Rightarrow> (error + path) \<times> world)
     \<Rightarrow> (error + path) \<times> world" where
  "try_step ctx r k = (case r of (Some e, w) \<Rightarrow> (Inl (Wrap ctx e), w) | (None, w) \<Rightarrow> k w)"

fun bind_first :: "world \<Rightarrow> path \<Rightarrow> string list \<Rightarrow> world" where
  "bind_first w gadgetPath [] = w"
| "bind_first w gadgetPath (name # names) =
    (if name ! 0 \<noteq> CHR ''.'' then
       (case writeFile w (gadgetPath @ [''UDC'']) name of
          (None, w') \<Rightarrow> w'
        | (Some e, w') \<Rightarrow> bind_first w' gadgetPath names)
     else bind_first w gadgetPath names)"

definition create_gadget :: "world \<Rightarrow> string \<Rightarrow> path \<Rightarrow> (error + path) \<times> world" where
  "create_gadget w mountPoint gadgetPath =
    (let stringsDir = gadgetPath @ [''strings'', ''0x409''];
         configDir = gadgetPath @ [''configs'', ''c.1''];
         configStringsDir = configDir @ [''strings'', ''0x409'']
     in try_step ''create gadget'' (os_MkdirAll w gadgetPath)
        (\<lambda>w1. try_step ''set idVendor'' (writeFile w1 (gadgetPath @ [''idVendor'']) ''0x18d1'')
        (\<lambda>w2. try_step ''set idProduct'' (writeFile w2 (gadgetPath @ [''idProduct'']) ''0x4e26'')
        (\<lambda>w3. try_step ''create strings dir'' (os_MkdirAll w3 stringsDir)
        (\<lambda>w4. try_step ''set serialnumber''
                 (writeFile w4 (stringsDir @ [''serialnumber'']) ''123456'')
        (\<lambda>w5. try_step ''set manufacturer''
                 (writeFile w5 (stringsDir @ [''manufacturer'']) ''Android'')
        (\<lambda>w6. try_step ''set product'' (writeFile w6 (stringsDir @ [''product'']) ''USB Drive'')
        (\<lambda>w7. try_step ''create config dir'' (os_MkdirAll w7 configDir)
        (\<lambda>w8. try_step ''create config strings dir'' (os_MkdirAll w8 configStringsDir)
        (\<lambda>w9. try_step ''set configuration''
                 (writeFile w9 (configStringsDir @ [''configuration'']) ''Config 1'')
        (\<lambda>w10. (Inr gadgetPath,
                 (case os_ReadDir w10 (butlast (to_path w10 mountPoint) @ [''devices'']) of
                    Inl e \<Rightarrow> w10
                  | Inr udcList \<Rightarrow> bind_first w10 gadgetPath udcList)))))))))))))"

definition findGadgetRoot_part003 :: "world \<Rightarrow> (error + path) \<times> world" where
  "findGadgetRoot_part003 w =
    (let mountPoint = findMountPoint w ''configfs''
     in if mountPoint = [] then (Inl (Msg ''configfs not mounted''), w)
        else let gadgetDir = to_path w mountPoint @ [''usb_gadget'']
             in try_step ''create usb_gadget dir''
                  (if \<not> dirExists w gadgetDir then os_MkdirAll w gadgetDir else (None, w))
                (\<lambda>w1. case os_ReadDir w1 gadgetDir of
                        Inl e \<Rightarrow> (Inl (Wrap ''read gadget dir'' e), w1)
                      | Inr entries \<Rightarrow>
                         (case find (\<lambda>name. name ! 0 \<noteq> CHR ''.''
                                        \<and> read_or_empty w1 (gadgetDir @ [name, ''UDC'']) \<noteq> [])
                                 entries of
                            Some name \<Rightarrow> (Inr (gadgetDir @ [name]), w1)
                          | None \<Rightarrow>
                             (let gadgetPath = gadgetDir @ [''g1'']
                              in if \<not> dirExists w1 gadgetPath
                                 then create_gadget w1 mountPoint gadgetPath
                                 else (Inr gadgetPath, w1)))))"

subsection \<open>UDC\<close>

definition udcDir :: path where
  "udcDir = [''sys'', ''class'', ''udc'']"

definition udc_lun :: "string \<Rightarrow> path" where
  "udc_lun name = udcDir @ [name, ''device'', ''gadget'', ''lun0'', ''file'']"

definition UDC_Supported :: "world \<Rightarrow> bool" where
  "UDC_Supported w =
    (if \<not> dirExists w udcDir then False
     else case os_ReadDir w udcDir of
            Inl e \<Rightarrow> False
          | Inr entries \<Rightarrow> find (\<lambda>name. fileExists w (udc_lun name)) entries \<noteq> None)"

definition findLunFile :: "world \<Rightarrow> error + path" where
  "findLunFile w =
    (case os_ReadDir w udcDir of
       Inl e \<Rightarrow> Inl (Wrap ''read udc dir'' e)
     | Inr entries \<Rightarrow>
        (case find (\<lambda>name. fileExists w (udc_lun name)) entries of
           Some name \<Rightarrow> Inr (udc_lun name)
         | None \<Rightarrow> Inl (Msg ''no lun file found'')))"

definition UDC_Mount :: "world \<Rightarrow> string \<Rightarrow> MountOptions \<Rightarrow> error option \<times> world" where
  "UDC_Mount w imagePath opts =
    (case findLunFile w of
       Inl e \<Rightarrow> (Some (Wrap ''find lun file'' e), w)
     | Inr lunFile \<Rightarrow>
         step ''clear lun file'' (writeFile w lunFile [])
         (\<lambda>w1. step ''mount image'' (writeFile w1 lunFile imagePath)
         (\<lambda>w2. case readFile w2 lunFile of
                  Inl e \<Rightarrow> (Some (Wrap ''verify mount'' e), w2)
                | Inr mountedPath \<Rightarrow>
                    if mountedPath \<noteq> imagePath
                    then (Some (Msg (''verify mount: expected '' @ imagePath
                                      @ '', got '' @ mountedPath)), w2)
                    else (None, w2))))"

definition UDC_Unmount :: "world \<Rightarrow> error option \<times> world" where
  "UDC_Unmount w =
    (case findLunFile w of
       Inl e \<Rightarrow> (Some (Wrap ''find lun file'' e), w)
     | Inr lunFile \<Rightarrow>
         step ''clear lun file'' (writeFile w lunFile [])
         (\<lambda>w1. case readFile w1 lunFile of
                  Inl e \<Rightarrow> (Some (Wrap ''verify unmount'' e), w1)
                | Inr content \<Rightarrow>
                    if content \<noteq> [] then (Some (Msg ''verify unmount: LUN file not empty''), w1)
                    else (None, w1)))"

definition UDC_Status :: "world \<Rightarrow> MountStatus" where
  "UDC_Status w =
    (case findLunFile w of
       Inl e \<Rightarrow> not_mounted
     | Inr lunFile \<Rightarrow>
        (case readFile w lunFile of
           Inl e \<Rightarrow> not_mounted
         | Inr file \<Rightarrow>
             if file = [] then not_mounted
             else \<lparr>Mounted = True, File = file, ReadOnly = False, StatusCDROM = False\<rparr>))"

subsection \<open>Sysfs\<close>

definition sysfsEnable :: path where
  "sysfsEnable = [''sys'', ''devices'', ''virtual'', ''android_usb'', ''android0'', ''enable'']"

definition sysfsFile :: path where
  "sysfsFile =
    [''sys'', ''devices'', ''virtual'', ''android_usb'', ''android0'', ''f_mass_storage'',
     ''lun'', ''file'']"

definition sysfsFeatures :: path where
  "sysfsFeatures = [''sys'', ''devices'', ''virtual'', ''android_usb'', ''android0'', ''functions'']"

definition Sysfs_Supported :: "world \<Rightarrow> bool" where
  "Sysfs_Supported w = fileExists w sysfsEnable"

definition setEnabled :: "world \<Rightarrow> bool \<Rightarrow> error option \<times> world" where
  "setEnabled w enabled = writeFile w sysfsEnable (if enabled then ''1'' else ''0'')"

definition Sysfs_Mount :: "world \<Rightarrow> string \<Rightarrow> MountOptions \<Rightarrow> error option \<times> world" where
  "Sysfs_Mount w isoPath opts =
    step ''disable USB'' (setEnabled w False)
    (\<lambda>w1. step ''set image file'' (writeFile w1 sysfsFile isoPath)
    (\<lambda>w2. step ''set mass_storage function'' (writeFile w2 sysfsFeatures ''mass_storage'')
    (\<lambda>w3. step ''enable USB'' (setEnabled w3 True)
    (\<lambda>w4. (None, w4)))))"

definition Sysfs_Unmount :: "world \<Rightarrow> error option \<times> world" where
  "Sysfs_Unmount w =
    step ''disable USB'' (setEnabled w False)
    (\<lambda>w1. step ''clear image file'' (writeFile w1 sysfsFile [])
    (\<lambda>w2. step ''reset to MTP'' (writeFile w2 sysfsFeatures ''mtp'')
    (\<lambda>w3. step ''enable USB'' (setEnabled w3 True)
    (\<lambda>w4. (None, w4)))))"

definition Sysfs_Status :: "world \<Rightarrow> MountStatus" where
  "Sysfs_Status w =
    (case readFile w sysfsFile of
       Inl e \<Rightarrow> not_mounted
     | Inr file \<Rightarrow>
         if file = [] then not_mounted
         else \<lparr>Mounted = True, File = file, ReadOnly = True, StatusCDROM = False\<rparr>)"

subsection \<open>The interface\<close>

datatype backend = ConfigFSBackend | UDCBackend | SysfsBackend

fun Name :: "backend \<Rightarrow> string" where
  "Name ConfigFSBackend = ''configfs''"
| "Name UDCBackend = ''udc''"
| "Name SysfsBackend = ''sysfs''"

fun Supported :: "world \<Rightarrow> backend \<Rightarrow> bool" where
  "Supported w ConfigFSBackend = ConfigFS_Supported w"
| "Supported w UDCBackend = UDC_Supported w"
| "Supported w SysfsBackend = Sysfs_Supported w"

fun Mount :: "backend \<Rightarrow> world \<Rightarrow> string \<Rightarrow> MountOptions \<Rightarrow> error option \<times> world" where
  "Mount ConfigFSBackend w p opts = ConfigFS_Mount w p opts"
| "Mount UDCBackend w p opts = UDC_Mount w p opts"
| "Mount SysfsBackend w p opts = Sysfs_Mount w p opts"

fun Unmount :: "backend \<Rightarrow> world \<Rightarrow> error option \<times> world" where
  "Unmount ConfigFSBackend w = ConfigFS_Unmount w"
| "Unmount UDCBackend w = UDC_Unmount w"
| "Unmount SysfsBackend w = Sysfs_Unmount w"

fun Status :: "backend \<Rightarrow> world \<Rightarrow> MountStatus" where
  "Status ConfigFSBackend w = ConfigFS_Status w"
| "Status UDCBackend w = UDC_Status w"
| "Status SysfsBackend w = Sysfs_Status w"

text \<open>The LUN file a backend works on: the file whose content is the mount state.\<close>

fun lun_file :: "backend \<Rightarrow> world \<Rightarrow> error + path" where
  "lun_file ConfigFSBackend w =
    (case findGadgetRoot w of
       Inl e \<Rightarrow> Inl e
     | Inr g \<Rightarrow> Inr (g @ [''functions'', ''mass_storage.0'', ''lun.0'', ''file'']))"
| "lun_file UDCBackend w = findLunFile w"
| "lun_file SysfsBackend w = Inr sysfsFile"

section \<open>Backend selection\<close>

definition backends :: "backend list" where
  "backends = [ConfigFSBackend, UDCBackend, SysfsBackend]"

definition selectBackend :: "world \<Rightarrow> string \<Rightarrow> error + backend" where
  "selectBackend w force =
    (if force \<noteq> [] then
       (case find (\<lambda>b. Name b = force) backends of
          Some b \<Rightarrow> if Supported w b then Inr b else Inl (NotSupported force)
        | None \<Rightarrow> Inl (UnknownBackend force))
     else
       (case find (Supported w) backends of
          Some b \<Rightarrow> Inr b
        | None \<Rightarrow> Inl NoBackendFound))"

section \<open>Configuration and the mount command\<close>

record Config =
  ConfigFile :: string
  Mode :: string
  Backend :: string

text \<open>
  \<open>loadConfig\<close> after \<open>os.ReadFile\<close> and \<open>json.Unmarshal\<close>: \<open>decoded\<close> is their outcome, the
  decoded fields or the error already wrapped.
\<close>

definition loadConfig :: "os_view \<Rightarrow> error + Config \<Rightarrow> error + Config" where
  "loadConfig v decoded =
    (case decoded of
       Inl e \<Rightarrow> Inl e
     | Inr cfg \<Rightarrow>
         if ConfigFile cfg = [] then Inl (Msg ''config missing required field: file'')
         else (case (if \<not> IsAbs (ConfigFile cfg) then Abs v (ConfigFile cfg)
                     else Inr (ConfigFile cfg)) of
                 Inl e \<Rightarrow> Inl (Wrap (''resolve absolute path for '' @ [CHR 0x27] @ ConfigFile cfg
                                    @ [CHR 0x27]) e)
               | Inr file \<Rightarrow>
                   if Mode cfg \<noteq> [] \<and> Mode cfg \<noteq> ''ro'' \<and> Mode cfg \<noteq> ''rw'' \<and> Mode cfg \<noteq> ''cdrom''
                   then Inl (Msg (''invalid mode: '' @ Mode cfg @ '' (must be ro, rw, or cdrom)''))
                   else if Backend cfg \<noteq> [] \<and> Backend cfg \<noteq> ''configfs''
                           \<and> Backend cfg \<noteq> ''sysfs'' \<and> Backend cfg \<noteq> ''legacy''
                   then Inl (Msg (''invalid backend: '' @ Backend cfg
                                   @ '' (must be configfs, sysfs, or legacy)''))
                   else Inr (cfg\<lparr>ConfigFile := file\<rparr>)))"

record mount_flags =
  mountRO :: bool
  mountRW :: bool
  mountCDROM :: bool
  mountForce :: string
  mountDryRun :: bool
  mountConfig :: string

record mount_request =
  imagePath :: string
  readWrite :: bool
  useCDROM :: bool
  forceBackend :: string

text \<open>
  The first part of \<open>RunE\<close> of the mount command: the request comes from the configuration
  file when \<open>-c\<close> is given and from the flags and the argument otherwise.  \<open>configs\<close> gives
  the decoded content of the file at a path.
\<close>

definition mount_request_of ::
  "os_view \<Rightarrow> (string \<Rightarrow> error + Config) \<Rightarrow> mount_flags \<Rightarrow> string list \<Rightarrow> error + mount_request" where
  "mount_request_of v configs flags args =
    (if mountConfig flags \<noteq> [] then
       (case loadConfig v (configs (mountConfig flags)) of
          Inl e \<Rightarrow> Inl (Wrap ''failed to load config'' e)
        | Inr cfg \<Rightarrow>
            Inr \<lparr>imagePath = ConfigFile cfg,
                 readWrite = (Mode cfg \<noteq> ''ro'' \<and> Mode cfg \<noteq> ''cdrom''),
                 useCDROM = (Mode cfg = ''cdrom''),
                 forceBackend = Backend cfg\<rparr>)
     else if length args < 1 then Inl (Msg ''missing file argument'')
     else Inr \<lparr>imagePath = args ! 0,
               readWrite = (if mountRO flags then False else if mountRW flags then True else True),
               useCDROM = mountCDROM flags,
               forceBackend = mountForce flags\<rparr>)"

text \<open>
  \<open>RunE\<close> of the mount command.  The result is \<open>None\<close> when image validation does not return.
  A dry run prints what would be done and returns \<open>nil\<close>.  Hints appended to messages are
  left out.
\<close>

definition mountCmd_RunE ::
  "os_view \<Rightarrow> (string \<Rightarrow> error + Config) \<Rightarrow> mount_flags \<Rightarrow> string list \<Rightarrow> world
     \<Rightarrow> (error option \<times> world) option" where
  "mountCmd_RunE v configs flags args w =
    (case mount_request_of v configs flags args of
       Inl e \<Rightarrow> Some (Some e, w)
     | Inr req \<Rightarrow>
         if useCDROM req \<and> readWrite req
         then Some (Some (Msg ''cannot use -cdrom with -rw (CDROM devices are always read-only)''), w)
         else if mountRO flags \<and> mountRW flags
         then Some (Some (Msg ''cannot use -ro with -rw (conflicting flags)''), w)
         else (case validateImage v (imagePath req) of
                 None \<Rightarrow> None
               | Some (Some e) \<Rightarrow> Some (Some (Wrap ''invalid image file'' e), w)
               | Some None \<Rightarrow>
                  (case selectBackend w (forceBackend req) of
                     Inl e \<Rightarrow> Some (Some e, w)
                   | Inr b \<Rightarrow>
                      (let rw = (if Name b = ''sysfs'' \<and> readWrite req then False
                                 else readWrite req)
                       in if mountDryRun flags then Some (None, w)
                          else Some (step ''mount failed''
                                  (Mount b w (imagePath req) \<lparr>ReadWrite = rw, CDROM = useCDROM req\<rparr>)
                                  (\<lambda>w'. (None, w')))))))"

text \<open>\<open>PreRunE\<close> of the mount command, run before \<open>RunE\<close>.\<close>

definition mountCmd_PreRunE :: "nat \<Rightarrow> error option" where
  "mountCmd_PreRunE euid = (if euid \<noteq> 0 then Some (Msg ''must run as root'') else None)"

section \<open>Example systems\<close>

text \<open>The newline that ends every line of a kernel file.\<close>

definition nl :: string where
  "nl = [CHR 0x0A]"

text \<open>
  A phone with all three interfaces.  Its mount table names configfs in the third field of
  the line, as \<open>/proc/mounts\<close> does; the gadget \<open>g1\<close> is bound to a controller and has a
  mass-storage function linked into its configuration.
\<close>

definition g1 :: path where
  "g1 = [''config'', ''usb_gadget'', ''g1'']"

definition phone_nodes :: "(path \<times> node) list" where
  "phone_nodes =
    [([''proc''], DirNode),
     ([''proc'', ''mounts''], FileNode (''none /config configfs rw,relatime 0 0'' @ nl)),
     ([''config''], DirNode),
     ([''config'', ''usb_gadget''], DirNode),
     (g1, DirNode),
     (g1 @ [''UDC''], FileNode (''a600000.dwc3'' @ nl)),
     (g1 @ [''configs''], DirNode),
     (g1 @ [''configs'', ''b.1''], DirNode),
     (g1 @ [''configs'', ''b.1'', ''mass_storage.0''],
        LinkNode (g1 @ [''functions'', ''mass_storage.0''])),
     (g1 @ [''functions''], DirNode),
     (g1 @ [''functions'', ''mass_storage.0''], DirNode),
     (g1 @ [''functions'', ''mass_storage.0'', ''lun.0''], DirNode),
     (g1 @ [''functions'', ''mass_storage.0'', ''lun.0'', ''file''], FileNode nl),
     (g1 @ [''functions'', ''mass_storage.0'', ''lun.0'', ''cdrom''], FileNode (''0'' @ nl)),
     (g1 @ [''functions'', ''mass_storage.0'', ''lun.0'', ''ro''], FileNode (''0'' @ nl)),
     ([''sys''], DirNode),
     ([''sys'', ''class''], DirNode),
     (udcDir, DirNode),
     (udcDir @ [''a600000.dwc3''], DirNode),
     (udcDir @ [''a600000.dwc3'', ''device''], DirNode),
     (udcDir @ [''a600000.dwc3'', ''device'', ''gadget''], DirNode),
     (udcDir @ [''a600000.dwc3'', ''device'', ''gadget'', ''lun0''], DirNode),
     (udc_lun ''a600000.dwc3'', FileNode nl),
     (butlast sysfsEnable, DirNode),
     (sysfsEnable, FileNode (''1'' @ nl)),
     (sysfsFeatures, FileNode (''mtp'' @ nl)),
     (butlast (butlast sysfsFile), DirNode),
     (butlast sysfsFile, DirNode),
     (sysfsFile, FileNode nl)]"

definition phone :: world where
  "phone = \<lparr>nodes = phone_nodes, refuses = (\<lambda>q data. False), cwd = [], writes = []\<rparr>"

text \<open>
  A system whose only mount-table line is a configfs mounted at \<open>/mnt/cfg\<close>, with neither
  \<open>/sys/kernel/config\<close> nor \<open>/config\<close>.
\<close>

definition mnt_cfg_line :: string where
  "mnt_cfg_line = ''none /mnt/cfg configfs rw,relatime 0 0''"

definition mnt_cfg_world :: world where
  "mnt_cfg_world =
    \<lparr>nodes = [([''proc''], DirNode),
               ([''proc'', ''mounts''], FileNode (mnt_cfg_line @ nl)),
               ([''mnt''], DirNode),
               ([''mnt'', ''cfg''], DirNode),
               ([''mnt'', ''cfg'', ''usb_gadget''], DirNode)],
     refuses = (\<lambda>q data. False), cwd = [], writes = []\<rparr>"

definition cdrom_flags :: mount_flags where
  "cdrom_flags =
    \<lparr>mountRO = False, mountRW = False, mountCDROM = True, mountForce = [],
     mountDryRun = False, mountConfig = []\<rparr>"

definition legacy_config :: Config where
  "legacy_config = \<lparr>ConfigFile = ''/sdcard/x.iso'', Mode = [], Backend = ''legacy''\<rparr>"

text \<open>The phone with a LUN file that refuses every write.\<close>

definition phone_locked :: world where
  "phone_locked =
    phone\<lparr>refuses :=
      (\<lambda>q data. q = g1 @ [''functions'', ''mass_storage.0'', ''lun.0'', ''file''])\<rparr>"

definition cdrom_ro :: MountOptions where
  "cdrom_ro = \<lparr>ReadWrite = False, CDROM = True\<rparr>"

text \<open>
  The phone with a controller that cannot be bound again: the kernel takes the empty value for
  the \<open>UDC\<close> attribute of the gadget and refuses every name.
\<close>

definition phone_busy :: world where
  "phone_busy = phone\<lparr>refuses := (\<lambda>q data. q = g1 @ [''UDC''] \<and> data \<noteq> nl)\<rparr>"

text \<open>
  A phone with two controllers and a bound gadget on each, both with a mass-storage function;
  neither controller can be bound again.
\<close>

definition g2 :: path where
  "g2 = [''config'', ''usb_gadget'', ''g2'']"

definition twin :: world where
  "twin =
    \<lparr>nodes = phone_nodes @
       [(g2, DirNode),
        (g2 @ [''UDC''], FileNode (''b700000.dwc3'' @ nl)),
        (g2 @ [''functions''], DirNode),
        (g2 @ [''functions'', ''mass_storage.0''], DirNode),
        (g2 @ [''functions'', ''mass_storage.0'', ''lun.0''], DirNode),
        (g2 @ [''functions'', ''mass_storage.0'', ''lun.0'', ''file''], FileNode nl)],
     refuses = (\<lambda>q data. (q = g1 @ [''UDC''] \<or> q = g2 @ [''UDC'']) \<and> data \<noteq> nl),
     cwd = [], writes = []\<rparr>"

text \<open>
  A system with configfs mounted, a controller in \<open>/sys/class/udc\<close>, and a gadget directory
  whose only gadget is not bound to a controller: its \<open>UDC\<close> attribute is empty.
\<close>

definition new_gadget :: path where
  "new_gadget = [''sys'', ''kernel'', ''config'', ''usb_gadget'', ''g1'']"

definition unbound_world :: world where
  "unbound_world =
    \<lparr>nodes = [([''proc''], DirNode),
               ([''proc'', ''mounts''],
                  FileNode (''configfs /sys/kernel/config configfs rw,relatime 0 0'' @ nl)),
               ([''sys''], DirNode),
               ([''sys'', ''kernel''], DirNode),
               ([''sys'', ''kernel'', ''config''], DirNode),
               ([''sys'', ''kernel'', ''config'', ''usb_gadget''], DirNode),
               ([''sys'', ''kernel'', ''config'', ''usb_gadget'', ''g0''], DirNode),
               ([''sys'', ''kernel'', ''config'', ''usb_gadget'', ''g0'', ''UDC''], FileNode nl),
               ([''sys'', ''class''], DirNode),
               (udcDir, DirNode),
               (udcDir @ [''a600000.dwc3''], DirNode)],
     refuses = (\<lambda>q data. False), cwd = [], writes = []\<rparr>"

text \<open>
  A filesystem with a card directory: a non-empty image, an empty file, and a relative
  symbolic link to the image.
\<close>

definition card_view :: os_view where
  "card_view =
    \<lparr>getwd = Some ''/sdcard'',
     readlink = (\<lambda>p. if p = ''/sdcard/link.iso'' then Some ''x.iso'' else None),
     stat = (\<lambda>p. if p = ''/sdcard/x.iso'' \<or> p = ''/sdcard/link.iso'' then Info False 1024
                  else if p = ''/sdcard/empty.img'' then Info False 0
                  else if p = ''/sdcard'' then Info True 4096
                  else NotExist),
     can_open = (\<lambda>p. p = ''/sdcard/x.iso'' \<or> p = ''/sdcard/link.iso'')\<rparr>"

text \<open>
  A card directory in which \<open>b\<close> is a symbolic link to a directory on another volume, and
  \<open>a\<close> and \<open>e\<close> are symbolic links with the targets \<open>b/../a\<close> and \<open>b/../e\<close>.  The kernel
  follows \<open>b\<close> before it steps up, so \<open>/sdcard/a\<close> names a readable image of 1024 bytes
  and \<open>/sdcard/e\<close> an empty file, both in the directory above the one \<open>b\<close> points to.
\<close>

definition detour_view :: os_view where
  "detour_view =
    \<lparr>getwd = Some ''/sdcard'',
     readlink = (\<lambda>p. if p = ''/sdcard/a'' then Some ''b/../a''
                     else if p = ''/sdcard/e'' then Some ''b/../e''
                     else if p = ''/sdcard/b'' then Some ''/mnt/usb/iso/sub''
                     else None),
     stat = (\<lambda>p. if p = ''/sdcard/a'' then Info False 1024
                  else if p = ''/sdcard/e'' then Info False 0
                  else if p = ''/sdcard/b'' \<or> p = ''/sdcard'' then Info True 4096
                  else NotExist),
     can_open = (\<lambda>p. p = ''/sdcard/a'' \<or> p = ''/sdcard/e'')\<rparr>"

section \<open>Notions for stating the properties\<close>

text \<open>
  Notions used to state what an operation leaves alone.  \<open>below g q\<close>: the path \<open>q\<close> lies
  strictly inside the tree at \<open>g\<close>.  \<open>agree_off g w w'\<close>: the two worlds refuse the same
  writes, have the same working directory, and the same node at every path not below \<open>g\<close>.
  \<open>trimmed t\<close>: neither end of \<open>t\<close> is a space rune.
\<close>

definition below :: "path \<Rightarrow> path \<Rightarrow> bool" where
  "below g q \<longleftrightarrow> length g < length q \<and> take (length g) q = g"

definition agree_off :: "path \<Rightarrow> world \<Rightarrow> world \<Rightarrow> bool" where
  "agree_off g w w' \<longleftrightarrow>
    refuses w' = refuses w \<and> cwd w' = cwd w \<and> (\<forall>q. \<not> below g q \<longrightarrow> kind w' q = kind w q)"

definition trimmed :: "string \<Rightarrow> bool" where
  "trimmed t \<longleftrightarrow> (t = [] \<or> space_width t = 0) \<and> (t = [] \<or> space_width_rev (rev t) = 0)"

text \<open>\<open>same_except S w w'\<close>: as \<open>agree_off\<close>, for the paths outside the set \<open>S\<close>.\<close>

definition same_except :: "path set \<Rightarrow> world \<Rightarrow> world \<Rightarrow> bool" where
  "same_except S w w' \<longleftrightarrow>
    refuses w' = refuses w \<and> cwd w' = cwd w \<and> (\<forall>q. q \<notin> S \<longrightarrow> kind w' q = kind w q)"

text \<open>The paths the body of the ConfigFS \<open>Mount\<close> may create or write.\<close>

definition mount_paths :: "path \<Rightarrow> path \<Rightarrow> path set" where
  "mount_paths g c =
    {g @ [''functions''], g @ [''functions'', ''mass_storage.0''], c @ [''mass_storage.0''],
     g @ [''functions'', ''mass_storage.0'', ''lun.0'', ''file''],
     g @ [''functions'', ''mass_storage.0'', ''lun.0'', ''cdrom''],
     g @ [''functions'', ''mass_storage.0'', ''lun.0'', ''ro'']}"

text \<open>\<open>lun_empty b w\<close>: the LUN file of backend \<open>b\<close> is found and reads as the empty string.\<close>

definition lun_empty :: "backend \<Rightarrow> world \<Rightarrow> bool" where
  "lun_empty b w = (case lun_file b w of Inl e \<Rightarrow> False | Inr f \<Rightarrow> readFile w f = Inr [])"

text \<open>
  \<open>rebind_accepted w\<close>: the kernel takes the name of the controller the active gadget is
  bound to when that name is written to the gadget's \<open>UDC\<close> attribute, so the deferred write
  of \<open>Mount\<close> and \<open>Unmount\<close> is not refused.  \<open>clear_accepted w\<close>: the kernel takes the two
  values that only \<open>Unmount\<close> of the Sysfs backend writes.
\<close>

definition rebind_accepted :: "world \<Rightarrow> bool" where
  "rebind_accepted w =
    (case findGadgetRoot w of
       Inl e \<Rightarrow> True
     | Inr g \<Rightarrow> \<not> refuses w (g @ [''UDC'']) (read_or_empty w (g @ [''UDC'']) @ nl))"

definition clear_accepted :: "world \<Rightarrow> bool" where
  "clear_accepted w \<longleftrightarrow>
    \<not> refuses w sysfsFile nl \<and> \<not> refuses w sysfsFeatures (''mtp'' @ nl)"

section \<open>Properties of image validation\<close>

lemma safe_chain_accepted:
  "safe_chain v p \<Longrightarrow> validateSafePath v p = Some None"
proof (induction rule: safe_chain.induct)
  case (safe_end p)
  then show ?case by (subst validateSafePath.simps) simp
next
  case (safe_link p t)
  then show ?case
    by (subst validateSafePath.simps) (simp add: link_next_def split: if_splits)
qed

lemma denied_prefix_rejected:
  "find (HasPrefix a) dangerousPaths = Some d \<Longrightarrow>
   validateSafePath v a = Some (Some (Msg (''cannot mount files from system directory: '' @ d)))"
  by (subst validateSafePath.simps) simp

lemma evil_iso_rejected:
  "validateImage v ''/system/app/evil.iso'' =
     Some (Some (Msg ''cannot mount files from system directory: /system''))"
proof -
  have a: "Abs v ''/system/app/evil.iso'' = Inr ''/system/app/evil.iso''"
    by (simp add: Abs_def IsAbs_def Clean_def split_on_def)
  have d: "find (HasPrefix ''/system/app/evil.iso'') dangerousPaths = Some ''/system''"
    by (simp add: dangerousPaths_def HasPrefix_def)
  show ?thesis
    unfolding validateImage_def a using denied_prefix_rejected[OF d, of v] by simp
qed

lemma empty_or_dir_never_accepted:
  assumes "Abs v p = Inr a" and "stat v a = Info dir sz" and "dir \<or> sz = 0"
  shows "validateImage v p \<noteq> Some None"
    and "validateSafePath v a \<noteq> None \<Longrightarrow> \<exists>e. validateImage v p = Some (Some e)"
proof -
  have c: "\<exists>e. check_file v a = Some e"
    using assms(2,3) by (auto simp add: check_file_def)
  show "validateImage v p \<noteq> Some None"
    using assms(1) c by (auto simp add: validateImage_def split: option.splits)
  show "\<exists>e. validateImage v p = Some (Some e)" if "validateSafePath v a \<noteq> None"
    using that assms(1) c by (auto simp add: validateImage_def split: option.splits)
qed

lemma good_image_accepted:
  assumes "Abs v p = Inr a" and "safe_chain v a"
    and "stat v a = Info False sz" and "0 < sz" and "can_open v a"
  shows "validateImage v p = Some None"
  using assms safe_chain_accepted[OF assms(2)]
  by (simp add: validateImage_def check_file_def)

lemma self_link_never_returns:
  assumes nd: "find (HasPrefix q) dangerousPaths = None"
    and rl: "readlink w q = Some t" and nx: "link_next q t = q"
  shows "validateSafePath w q = None"
proof (cases "validateSafePath w q")
  case None
  then show ?thesis .
next
  case (Some r)
  have "\<not> (w = w \<and> q = q)"
  proof (rule validateSafePath.raw_induct
      [where P = "\<lambda>v p r. \<not> (v = w \<and> p = q)", OF _ Some])
    fix f :: "os_view \<Rightarrow> string \<Rightarrow> error option option" and v p r
    assume IH: "\<And>v p r. f v p = Some r \<Longrightarrow> \<not> (v = w \<and> p = q)"
    assume step: "(case find (HasPrefix p) dangerousPaths of
         Some dangerous \<Rightarrow>
           Some (Some (Msg (''cannot mount files from system directory: '' @ dangerous)))
       | None \<Rightarrow>
          (case readlink v p of
             Some linkTarget \<Rightarrow>
               if IsAbs linkTarget then f v linkTarget
               else f v (Join [Dir_of p, linkTarget])
           | None \<Rightarrow> Some None)) = Some r"
    show "\<not> (v = w \<and> p = q)"
    proof
      assume vp: "v = w \<and> p = q"
      from step vp nx have "f w q = Some r"
        by (simp add: nd rl link_next_def split: if_splits)
      from IH[OF this] show False by simp
    qed
  qed
  then show ?thesis by simp
qed

text \<open>
  What \<open>validateImage\<close> answers when the link check returns: it rejects
  \<open>/system/app/evil.iso\<close> whatever the filesystem holds.  A path whose absolute form names a
  zero-byte regular file, or a directory, is never accepted, and is rejected with an error
  whenever the link check returns.  A path whose absolute form is a readable, non-empty
  regular file, outside the deny-list and with a chain of link targets that ends outside it,
  is accepted.
\<close>

lemma validateImage_verdicts:
  "validateImage v ''/system/app/evil.iso'' =
     Some (Some (Msg ''cannot mount files from system directory: /system''))
   \<and> (Abs v p = Inr a \<and> stat v a = Info False 0 \<longrightarrow>
        validateImage v p \<noteq> Some None
        \<and> (validateSafePath v a \<noteq> None \<longrightarrow> (\<exists>e. validateImage v p = Some (Some e))))
   \<and> (Abs v p' = Inr a' \<and> stat v a' = Info True sz' \<longrightarrow>
        validateImage v p' \<noteq> Some None
        \<and> (validateSafePath v a' \<noteq> None \<longrightarrow> (\<exists>e. validateImage v p' = Some (Some e))))
   \<and> (Abs v q = Inr b \<and> safe_chain v b \<and> stat v b = Info False sz \<and> 0 < sz \<and> can_open v b \<longrightarrow>
        validateImage v q = Some None)"
  using evil_iso_rejected[of v]
    empty_or_dir_never_accepted[of v p a False 0]
    empty_or_dir_never_accepted[of v p' a' True sz']
    good_image_accepted[of v q b sz]
  by blast

lemma validateImage_verdicts_card:
  "(\<exists>e. validateImage card_view ''empty.img'' = Some (Some e))
   \<and> (\<exists>e. validateImage card_view ''/sdcard'' = Some (Some e))
   \<and> validateImage card_view ''link.iso'' = Some None"
proof -
  have a1: "Abs card_view ''empty.img'' = Inr ''/sdcard/empty.img''"
    by (simp add: Abs_def IsAbs_def Join_def Clean_def split_on_def card_view_def)
  have a2: "Abs card_view ''/sdcard'' = Inr ''/sdcard''"
    by (simp add: Abs_def IsAbs_def Clean_def split_on_def)
  have a3: "Abs card_view ''link.iso'' = Inr ''/sdcard/link.iso''"
    by (simp add: Abs_def IsAbs_def Join_def Clean_def split_on_def card_view_def)
  have s1: "stat card_view ''/sdcard/empty.img'' = Info False 0"
    by (simp add: card_view_def)
  have s2: "stat card_view ''/sdcard'' = Info True 4096"
    by (simp add: card_view_def)
  have s3: "stat card_view ''/sdcard/link.iso'' = Info False 1024"
    and o3: "can_open card_view ''/sdcard/link.iso''"
    by (simp_all add: card_view_def)
  have c0: "safe_chain card_view ''/sdcard/x.iso''"
    by (rule safe_end) (simp_all add: dangerousPaths_def HasPrefix_def card_view_def)
  have nx: "link_next ''/sdcard/link.iso'' ''x.iso'' = ''/sdcard/x.iso''"
    by (simp add: link_next_def IsAbs_def Join_def Dir_of_def Clean_def split_on_def)
  have c3: "safe_chain card_view ''/sdcard/link.iso''"
    by (rule safe_link[where t = "''x.iso''"])
       (simp_all add: nx c0, simp_all add: dangerousPaths_def HasPrefix_def card_view_def)
  have r1: "validateSafePath card_view ''/sdcard/empty.img'' \<noteq> None"
    by (subst validateSafePath.simps)
       (simp add: dangerousPaths_def HasPrefix_def card_view_def)
  have r2: "validateSafePath card_view ''/sdcard'' \<noteq> None"
    by (subst validateSafePath.simps)
       (simp add: dangerousPaths_def HasPrefix_def card_view_def)
  show ?thesis
    using validateImage_verdicts
      [of card_view "''empty.img''" "''/sdcard/empty.img''" "''/sdcard''" "''/sdcard''" 4096
          "''link.iso''" "''/sdcard/link.iso''" 1024]
      a1 a2 a3 s1 s2 s3 o3 c3 r1 r2
    by simp
qed

lemma detour_next:
  "link_next ''/sdcard/a'' ''b/../a'' = ''/sdcard/a''"
  "link_next ''/sdcard/e'' ''b/../e'' = ''/sdcard/e''"
  by (simp_all add: link_next_def IsAbs_def Join_def Dir_of_def Clean_def split_on_def)

text \<open>
  C8.  \<open>validateImage\<close> does not reject every zero-byte file, nor accept every readable
  non-empty regular file outside the deny-list.  The link check joins the target of a
  relative link to the directory of the link and cleans the result as text, and calls itself
  on it with no bound.  For the link \<open>/sdcard/e\<close> with the target \<open>b/../e\<close> that text is
  \<open>/sdcard/e\<close> again, although the kernel resolves the link to an empty file: the check
  never returns, and no error comes back.  In the same way the image behind \<open>/sdcard/a\<close>,
  which is readable, has 1024 bytes and meets no entry of the deny-list, is never accepted.
\<close>

theorem validateImage_detour_never_returns:
  "stat detour_view ''/sdcard/e'' = Info False 0
   \<and> Join [Dir_of ''/sdcard/e'', ''b/../e''] = ''/sdcard/e''
   \<and> validateImage detour_view ''/sdcard/e'' = None
   \<and> stat detour_view ''/sdcard/a'' = Info False 1024
   \<and> can_open detour_view ''/sdcard/a''
   \<and> find (HasPrefix ''/sdcard/a'') dangerousPaths = None
   \<and> find (HasPrefix ''/mnt/usb/iso/a'') dangerousPaths = None
   \<and> Join [Dir_of ''/sdcard/a'', ''b/../a''] = ''/sdcard/a''
   \<and> validateImage detour_view ''/sdcard/a'' = None"
proof -
  have a: "Abs detour_view ''/sdcard/a'' = Inr ''/sdcard/a''"
    "Abs detour_view ''/sdcard/e'' = Inr ''/sdcard/e''"
    by (simp_all add: Abs_def IsAbs_def Clean_def split_on_def)
  have nd: "find (HasPrefix ''/sdcard/a'') dangerousPaths = None"
    "find (HasPrefix ''/sdcard/e'') dangerousPaths = None"
    "find (HasPrefix ''/mnt/usb/iso/a'') dangerousPaths = None"
    by (simp_all add: dangerousPaths_def HasPrefix_def)
  have rl: "readlink detour_view ''/sdcard/a'' = Some ''b/../a''"
    "readlink detour_view ''/sdcard/e'' = Some ''b/../e''"
    by (simp_all add: detour_view_def)
  have j: "Join [Dir_of ''/sdcard/e'', ''b/../e''] = ''/sdcard/e''"
    "Join [Dir_of ''/sdcard/a'', ''b/../a''] = ''/sdcard/a''"
    by (simp_all add: Join_def Dir_of_def Clean_def IsAbs_def split_on_def)
  have 1: "validateImage detour_view ''/sdcard/a'' = None"
    using self_link_never_returns[OF nd(1) rl(1) detour_next(1)]
    by (simp add: validateImage_def a)
  have 2: "validateImage detour_view ''/sdcard/e'' = None"
    using self_link_never_returns[OF nd(2) rl(2) detour_next(2)]
    by (simp add: validateImage_def a)
  have s: "stat detour_view ''/sdcard/e'' = Info False 0"
    "stat detour_view ''/sdcard/a'' = Info False 1024" "can_open detour_view ''/sdcard/a''"
    by (simp_all add: detour_view_def)
  from 1 2 s nd(1,3) j show ?thesis by simp
qed

text \<open>
  C9.  The link check does not return on every filesystem: where \<open>/sdcard/loop\<close> is a
  symbolic link to itself, \<open>validateSafePath\<close> calls itself on the same path without end,
  and so does \<open>validateImage\<close>.
\<close>

theorem validateSafePath_self_link_diverges:
  "validateSafePath loop_view ''/sdcard/loop'' = None
   \<and> validateImage loop_view ''/sdcard/loop'' = None"
proof -
  have nd: "find (HasPrefix ''/sdcard/loop'') dangerousPaths = None"
    by (simp add: dangerousPaths_def HasPrefix_def)
  have rl: "readlink loop_view ''/sdcard/loop'' = Some ''/sdcard/loop''"
    by (simp add: loop_view_def)
  have nx: "link_next ''/sdcard/loop'' ''/sdcard/loop'' = ''/sdcard/loop''"
    by (simp add: link_next_def IsAbs_def)
  have d: "validateSafePath loop_view ''/sdcard/loop'' = None"
    by (rule self_link_never_returns[OF nd rl nx])
  have a: "Abs loop_view ''/sdcard/loop'' = Inr ''/sdcard/loop''"
    by (simp add: Abs_def IsAbs_def Clean_def split_on_def)
  show ?thesis by (simp add: d validateImage_def a)
qed

section \<open>Trimming\<close>

lemma space_width_0_iff:
  "space_width s = 0 \<longleftrightarrow> (\<forall>r \<in> set space_runes. take (length r) s \<noteq> r)"
proof (cases "find (\<lambda>r. take (length r) s = r) space_runes")
  case None
  then have "\<forall>r \<in> set space_runes. take (length r) s \<noteq> r"
    by (simp add: find_None_iff)
  with None show ?thesis by (simp add: space_width_def)
next
  case (Some r)
  then have r: "r \<in> set space_runes" "take (length r) s = r"
    by (auto simp add: find_Some_iff)
  have "\<forall>r \<in> set space_runes. r \<noteq> []" by (simp add: space_runes_def)
  with r have "length r \<noteq> 0" by auto
  with Some r show ?thesis by (auto simp add: space_width_def)
qed

lemma space_width_rev_0_iff:
  "space_width_rev s = 0 \<longleftrightarrow> (\<forall>r \<in> set space_runes. take (length r) s \<noteq> rev r)"
proof (cases "find (\<lambda>r. take (length r) s = rev r) space_runes")
  case None
  then have "\<forall>r \<in> set space_runes. take (length r) s \<noteq> rev r"
    by (simp add: find_None_iff)
  with None show ?thesis by (simp add: space_width_rev_def)
next
  case (Some r)
  then have r: "r \<in> set space_runes" "take (length r) s = rev r"
    by (auto simp add: find_Some_iff)
  have "\<forall>r \<in> set space_runes. r \<noteq> []" by (simp add: space_runes_def)
  with r have "length r \<noteq> 0" by auto
  with Some r show ?thesis by (auto simp add: space_width_rev_def)
qed

lemma trim_left_normal: "trim_left s = [] \<or> space_width (trim_left s) = 0"
  by (induction s rule: trim_left.induct) auto

lemma trim_left_rev_normal: "trim_left_rev s = [] \<or> space_width_rev (trim_left_rev s) = 0"
  by (induction s rule: trim_left_rev.induct) auto

lemma trim_left_rev_suffix: "\<exists>k. trim_left_rev s = drop k s"
proof (induction s rule: trim_left_rev.induct)
  case 1 show ?case by simp
next
  case (2 c cs)
  show ?case
  proof (cases "space_width_rev (c # cs) = 0")
    case True then show ?thesis by (auto intro: exI[of _ 0])
  next
    case False
    with 2 obtain k where "trim_left_rev (drop (space_width_rev (c # cs) - 1) cs) = drop k (drop (space_width_rev (c # cs) - 1) cs)" by auto
    with False show ?thesis by (auto intro!: exI[of _ "Suc (k + (space_width_rev (c # cs) - 1))"] simp add: drop_Cons')
  qed
qed

lemma trim_left_fix: "s = [] \<or> space_width s = 0 \<Longrightarrow> trim_left s = s"
  by (cases s) auto

lemma trim_left_rev_fix: "s = [] \<or> space_width_rev s = 0 \<Longrightarrow> trim_left_rev s = s"
  by (cases s) auto

lemma space_width_take:
  assumes "space_width u = 0" shows "space_width (take m u) = 0"
proof -
  { fix r assume r: "r \<in> set space_runes" and e: "take (length r) (take m u) = r"
    have "length r \<le> m"
    proof (rule ccontr)
      assume "\<not> length r \<le> m"
      then have "length (take (length r) (take m u)) < length r" by simp
      with e show False by simp
    qed
    with e have "take (length r) u = r" by (simp add: min_def)
    with assms r have False by (simp add: space_width_0_iff) }
  then show ?thesis by (auto simp add: space_width_0_iff)
qed

lemma TrimSpace_trimmed: "trimmed (TrimSpace x)"
proof -
  let ?u = "trim_left x"
  let ?v = "trim_left_rev (rev ?u)"
  obtain k where k: "?v = drop k (rev ?u)" using trim_left_rev_suffix by blast
  have t: "TrimSpace x = take (length ?u - k) ?u"
    unfolding TrimSpace_def k by (simp add: rev_drop)
  have 1: "TrimSpace x = [] \<or> space_width (TrimSpace x) = 0"
    using trim_left_normal[of x] unfolding t by (auto simp add: space_width_take)
  have 2: "TrimSpace x = [] \<or> space_width_rev (rev (TrimSpace x)) = 0"
    using trim_left_rev_normal[of "rev ?u"] by (simp add: TrimSpace_def)
  from 1 2 show ?thesis by (simp add: trimmed_def)
qed

lemma space_width_append_nl:
  assumes "t \<noteq> []" "space_width t = 0" shows "space_width (t @ nl) = 0"
proof -
  have last_nl: "\<forall>r \<in> set space_runes. last r = CHR 0x0A \<longrightarrow> r = [CHR 0x0A]"
    by (simp add: space_runes_def)
  { fix r assume r: "r \<in> set space_runes" and e: "take (length r) (t @ nl) = r"
    have False
    proof (cases "length r \<le> length t")
      case True
      with e have "take (length r) t = r" by simp
      with assms r show False by (simp add: space_width_0_iff)
    next
      case False
      then have "take (length r) (t @ nl) = t @ nl" by (simp add: nl_def)
      with e have "r = t @ nl" by simp
      then have "last r = CHR 0x0A" by (simp add: nl_def)
      with last_nl r have "r = [CHR 0x0A]" by blast
      with \<open>r = t @ nl\<close> assms(1) show False by (simp add: nl_def)
    qed }
  then show ?thesis by (auto simp add: space_width_0_iff)
qed

lemma space_width_rev_nl: "space_width_rev (CHR 0x0A # s) = 1"
  by (simp add: space_width_rev_def space_runes_def)

lemma TrimSpace_append_nl:
  assumes "trimmed t" shows "TrimSpace (t @ nl) = t"
proof (cases "t = []")
  case True
  then show ?thesis
    by (simp add: nl_def TrimSpace_def space_width_def space_runes_def)
next
  case False
  with assms have a: "space_width t = 0" and b: "space_width_rev (rev t) = 0"
    by (simp_all add: trimmed_def)
  have 1: "trim_left (t @ nl) = t @ nl"
    by (rule trim_left_fix) (simp add: space_width_append_nl[OF False a])
  have 2: "trim_left_rev (rev (t @ nl)) = rev t"
    using trim_left_rev_fix[of "rev t"] b
    by (simp add: nl_def space_width_rev_nl)
  show ?thesis unfolding TrimSpace_def 1 2 by simp
qed

lemma TrimSpace_fix_trimmed: "TrimSpace t = t \<Longrightarrow> trimmed t"
  using TrimSpace_trimmed[of t] by simp

lemma trim_nl: "TrimSpace nl = []"
  by (simp add: TrimSpace_def nl_def space_width_def space_width_rev_def space_runes_def)

section \<open>Properties of the selector, the mount table and the mount command\<close>

lemma phone_mounts:
  "findMountPoint phone ''configfs'' = ''/config''"
  by (simp add: findMountPoint_def kind_def phone_def phone_nodes_def g1_def udcDir_def
      udc_lun_def sysfsEnable_def sysfsFile_def sysfsFeatures_def nl_def scan_lines_def
      split_on_def drop_cr_def Fields_def space_width_def space_runes_def dirExists_def)

lemma phone_ConfigFS_Supported: "ConfigFS_Supported phone"
  unfolding ConfigFS_Supported_def phone_mounts
  by (simp add: to_path_def IsAbs_def split_on_def dirExists_def kind_def phone_def
      phone_nodes_def)

lemma backends_all: "b \<in> set backends"
  by (cases b) (simp_all add: backends_def)

text \<open>
  C4.  With no forced name, \<open>selectBackend\<close> returns the first of ConfigFS, UDC, Sysfs (the
  candidates in their fixed order) that reports support: a backend is returned exactly when it
  is supported and no candidate before it is, and the no-backend-found error exactly when no
  backend is supported.
\<close>

theorem selectBackend_first_supported:
  "backends = [ConfigFSBackend, UDCBackend, SysfsBackend]
   \<and> (selectBackend w [] = Inr b \<longleftrightarrow>
        (\<exists>i < length backends. backends ! i = b \<and> Supported w b
            \<and> (\<forall>j < i. \<not> Supported w (backends ! j))))
   \<and> (selectBackend w [] = Inl e \<longleftrightarrow> e = NoBackendFound \<and> (\<forall>b'. \<not> Supported w b'))
   \<and> selectBackend w [] =
        (if Supported w ConfigFSBackend then Inr ConfigFSBackend
         else if Supported w UDCBackend then Inr UDCBackend
         else if Supported w SysfsBackend then Inr SysfsBackend
         else Inl NoBackendFound)"
proof -
  have 1: "selectBackend w [] = Inr b \<longleftrightarrow>
        (\<exists>i < length backends. backends ! i = b \<and> Supported w b
            \<and> (\<forall>j < i. \<not> Supported w (backends ! j)))"
  proof (cases "find (Supported w) backends")
    case None
    then have "\<forall>x \<in> set backends. \<not> Supported w x" by (simp add: find_None_iff)
    then have "\<not> Supported w b" using backends_all by blast
    with None show ?thesis by (auto simp add: selectBackend_def)
  next
    case (Some c)
    have "(c = b) \<longleftrightarrow> (\<exists>i < length backends. backends ! i = b \<and> Supported w b
            \<and> (\<forall>j < i. \<not> Supported w (backends ! j)))"
      using Some find_Some_iff[of "Supported w" backends b] by auto
    with Some show ?thesis by (simp add: selectBackend_def)
  qed
  have 2: "selectBackend w [] = Inl e \<longleftrightarrow> e = NoBackendFound \<and> (\<forall>b'. \<not> Supported w b')"
  proof (cases "find (Supported w) backends")
    case None
    then have "\<forall>x \<in> set backends. \<not> Supported w x" by (simp add: find_None_iff)
    then have "\<forall>b'. \<not> Supported w b'" using backends_all by blast
    with None show ?thesis by (auto simp add: selectBackend_def)
  next
    case (Some c)
    then have "Supported w c" by (auto simp add: find_Some_iff)
    with Some show ?thesis by (auto simp add: selectBackend_def)
  qed
  have 3: "selectBackend w [] =
        (if Supported w ConfigFSBackend then Inr ConfigFSBackend
         else if Supported w UDCBackend then Inr UDCBackend
         else if Supported w SysfsBackend then Inr SysfsBackend
         else Inl NoBackendFound)"
    by (simp add: selectBackend_def backends_def)
  from 1 2 3 show ?thesis by (simp add: backends_def)
qed

theorem selectBackend_first_supported_witness:
  "selectBackend phone [] = Inr ConfigFSBackend"
  using selectBackend_first_supported [of phone ConfigFSBackend NoBackendFound]
    phone_ConfigFS_Supported
  by simp

text \<open>
  C5.  Configuration loading accepts the backend name \<open>legacy\<close>, and the selector has no
  candidate of that name: forcing it fails with the unknown-backend error on every system.
  The names \<open>configfs\<close> and \<open>sysfs\<close> do find their candidates.
\<close>

theorem legacy_accepted_then_unknown:
  "loadConfig v (Inr legacy_config) = Inr legacy_config
   \<and> selectBackend w ''legacy'' = Inl (UnknownBackend ''legacy'')
   \<and> selectBackend w ''configfs'' =
       (if Supported w ConfigFSBackend then Inr ConfigFSBackend else Inl (NotSupported ''configfs''))
   \<and> selectBackend w ''sysfs'' =
       (if Supported w SysfsBackend then Inr SysfsBackend else Inl (NotSupported ''sysfs''))"
  by (simp add: loadConfig_def legacy_config_def IsAbs_def selectBackend_def backends_def)

text \<open>
  C7.  \<open>findMountPoint\<close> compares its argument with field 0 of a mount-table line, the
  mounted device, and not with field 2, the filesystem type.  On a system whose table holds
  the line \<open>none /mnt/cfg configfs rw,relatime 0 0\<close> and that has none of the two fallback
  directories, the lookup of \<open>configfs\<close> returns the empty string although the first entry
  of that type is mounted at \<open>/mnt/cfg\<close>.
\<close>

theorem findMountPoint_compares_device_field:
  "Fields mnt_cfg_line = [''none'', ''/mnt/cfg'', ''configfs'', ''rw,relatime'', ''0'', ''0'']
   \<and> kind mnt_cfg_world [''proc'', ''mounts''] = Some (FileNode (mnt_cfg_line @ nl))
   \<and> findMountPoint mnt_cfg_world ''configfs'' = []"
proof -
  have f: "Fields mnt_cfg_line = [''none'', ''/mnt/cfg'', ''configfs'', ''rw,relatime'', ''0'', ''0'']"
    by (simp add: Fields_def mnt_cfg_line_def space_width_def space_runes_def)
  have k: "kind mnt_cfg_world [''proc'', ''mounts''] = Some (FileNode (mnt_cfg_line @ nl))"
    by (simp add: kind_def mnt_cfg_world_def)
  have l: "scan_lines (mnt_cfg_line @ nl) = [mnt_cfg_line]"
    by (simp add: scan_lines_def split_on_def drop_cr_def mnt_cfg_line_def nl_def)
  have d: "\<not> dirExists mnt_cfg_world [''sys'', ''kernel'', ''config'']"
    "\<not> dirExists mnt_cfg_world [''config'']"
    by (simp_all add: dirExists_def kind_def mnt_cfg_world_def)
  have "findMountPoint mnt_cfg_world ''configfs'' = []"
    by (simp add: findMountPoint_def k l f d)
  with f k show ?thesis by simp
qed

text \<open>
  C10.  On the flag path of the mount command read-write is the default, so a request with
  \<open>--cdrom\<close> and without \<open>--ro\<close> is refused: \<open>RunE\<close> returns an error without validating the
  image, selecting a backend or touching the kernel files, and when a file argument is given
  the error is the one of the check of \<open>-cdrom\<close> against \<open>-rw\<close>.  A mount requested with
  \<open>--cdrom\<close> by flags that returns without error was given \<open>--ro\<close>.
\<close>

theorem cdrom_needs_explicit_ro:
  assumes "mountConfig flags = []"
  shows "(\<not> mountRO flags \<and> args \<noteq> [] \<longrightarrow>
            (\<exists>req. mount_request_of v configs flags args = Inr req \<and> readWrite req))
     \<and> (mountCDROM flags \<and> \<not> mountRO flags \<longrightarrow>
            (\<exists>e. mountCmd_RunE v configs flags args w = Some (Some e, w)))
     \<and> (mountCDROM flags \<and> \<not> mountRO flags \<and> args \<noteq> [] \<longrightarrow>
            mountCmd_RunE v configs flags args w =
              Some (Some (Msg ''cannot use -cdrom with -rw (CDROM devices are always read-only)''), w))
     \<and> (mountCDROM flags \<and> mountCmd_RunE v configs flags args w = Some (None, w') \<longrightarrow>
            mountRO flags)"
  using assms
  by (cases args) (auto simp add: mountCmd_RunE_def mount_request_of_def)

theorem cdrom_needs_explicit_ro_witness:
  "mountCmd_RunE card_view (\<lambda>p. Inl OSError) cdrom_flags [''/sdcard/x.iso''] phone =
     Some (Some (Msg ''cannot use -cdrom with -rw (CDROM devices are always read-only)''), phone)"
  using cdrom_needs_explicit_ro
    [of cdrom_flags "[''/sdcard/x.iso'']" card_view "\<lambda>p. Inl OSError" phone]
  by (simp add: cdrom_flags_def)


section \<open>What the file operations change\<close>

lemma below_append: "below g (g @ s) \<longleftrightarrow> s \<noteq> []"
  by (auto simp add: below_def)

lemma below_snoc_iff: "below (G @ [n]) (G @ m # s) \<longleftrightarrow> m = n \<and> s \<noteq> []"
  by (auto simp add: below_def)

lemma not_below_self: "\<not> below g g"
  by (simp add: below_def)

lemma agree_off_refl: "agree_off g w w"
  by (simp add: agree_off_def)

lemma agree_off_trans: "agree_off g w w1 \<Longrightarrow> agree_off g w1 w2 \<Longrightarrow> agree_off g w w2"
  by (simp add: agree_off_def)

lemma os_WriteFile_frame:
  assumes "os_WriteFile w q d = (r, w')"
  shows "refuses w' = refuses w" and "cwd w' = cwd w"
    and "writes w' = (q, d) # writes w"
    and "x \<noteq> q \<Longrightarrow> kind w' x = kind w x"
    and "r = None \<Longrightarrow> kind w' q = Some (FileNode d)"
    and "r \<noteq> None \<Longrightarrow> kind w' q = kind w q"
  using assms
  by (auto simp add: os_WriteFile_def Let_def kind_def
      split: if_splits option.splits node.splits)

lemma os_WriteFile_again:
  assumes "os_WriteFile w q d = (None, w1)"
    and "refuses w2 = refuses w" and "kind w2 q = Some (FileNode c)"
  shows "fst (os_WriteFile w2 q d) = None"
  using assms
  by (auto simp add: os_WriteFile_def Let_def split: if_splits option.splits node.splits)

lemma os_WriteFile_file:
  assumes "kind w q = Some (FileNode c)"
  shows "fst (os_WriteFile w q d) = (if refuses w q d then Some OSError else None)"
  using assms by (simp add: os_WriteFile_def Let_def)

lemma os_WriteFile_agree:
  assumes "os_WriteFile w q d = (r, w')" and "below g q"
  shows "agree_off g w w'"
proof -
  have "kind w' x = kind w x" if "\<not> below g x" for x
  proof -
    from that assms(2) have "x \<noteq> q" by auto
    then show ?thesis by (rule os_WriteFile_frame(4)[OF assms(1)])
  qed
  then show ?thesis
    using os_WriteFile_frame(1,2)[OF assms(1)] by (simp add: agree_off_def)
qed

lemma os_Symlink_frame:
  assumes "os_Symlink w t l = (r, w')"
  shows "refuses w' = refuses w" and "cwd w' = cwd w" and "writes w' = writes w"
    and "x \<noteq> l \<Longrightarrow> kind w' x = kind w x"
  using assms by (auto simp add: os_Symlink_def kind_def split: if_splits)

lemma child_names_keys:
  "set (child_names w d) = {n. valid_name n \<and> d @ [n] \<in> fst ` set (nodes w)}"
proof (intro set_eqI iffI)
  fix n assume "n \<in> set (child_names w d)"
  then obtain k where k: "k \<in> fst ` set (nodes w)" "k \<noteq> []" "butlast k = d" "n = last k"
    and v: "valid_name n"
    by (auto simp add: child_names_def)
  from k(2,3,4) have "k = d @ [n]" by (metis append_butlast_last_id)
  with k(1) v show "n \<in> {n. valid_name n \<and> d @ [n] \<in> fst ` set (nodes w)}" by simp
next
  fix n assume "n \<in> {n. valid_name n \<and> d @ [n] \<in> fst ` set (nodes w)}"
  then have v: "valid_name n" and k: "d @ [n] \<in> fst ` set (nodes w)" by simp_all
  have "n \<in> last ` {k \<in> fst ` set (nodes w). k \<noteq> [] \<and> butlast k = d}"
    by (rule image_eqI[where x = "d @ [n]"]) (use k in simp_all)
  with v show "n \<in> set (child_names w d)" by (simp add: child_names_def)
qed

lemma child_names_kind:
  "set (child_names w d) = {n. valid_name n \<and> kind w (d @ [n]) \<noteq> None}"
  by (simp add: child_names_keys kind_def map_of_eq_None_iff)

lemma os_MkdirAll_two:
  assumes "kind w g \<noteq> None" and "os_MkdirAll w (g @ [a, b]) = (r, w')"
  shows "refuses w' = refuses w" and "cwd w' = cwd w" and "writes w' = writes w"
    and "x \<noteq> g @ [a] \<Longrightarrow> x \<noteq> g @ [a, b] \<Longrightarrow> kind w' x = kind w x"
    and "r = None \<Longrightarrow> kind w' (g @ [a, b]) = Some DirNode"
proof -
  have b1: "butlast (g @ [a, b]) = g @ [a]" by (simp add: butlast_append)
  have b2: "butlast (g @ [a]) = g" by simp
  have g: "os_MkdirAll w g = (if kind w g = Some DirNode then (None, w) else (Some OSError, w))"
    using assms(1) by (subst os_MkdirAll.simps) (auto split: option.splits node.splits)
  note u = os_MkdirAll.simps[of w "g @ [a, b]"] os_MkdirAll.simps[of w "g @ [a]"]
  show "refuses w' = refuses w" "cwd w' = cwd w" "writes w' = writes w"
    using assms(2) unfolding u b1 b2 g
    by (auto split: option.splits node.splits if_splits prod.splits)
  show "kind w' x = kind w x" if "x \<noteq> g @ [a]" "x \<noteq> g @ [a, b]"
    using assms(2) that unfolding u b1 b2 g
    by (auto simp add: kind_def split: option.splits node.splits if_splits prod.splits)
  show "kind w' (g @ [a, b]) = Some DirNode" if "r = None"
    using assms(2) that unfolding u b1 b2 g
    by (auto simp add: kind_def split: option.splits node.splits if_splits prod.splits)
qed

lemma os_ReadDir_cong:
  assumes "kind w' d = kind w d" and "\<And>n. (kind w' (d @ [n]) = None) = (kind w (d @ [n]) = None)"
  shows "os_ReadDir w' d = os_ReadDir w d"
proof -
  have "set (child_names w' d) = set (child_names w d)"
    using assms(2) by (simp add: child_names_kind)
  then have "sort (remdups (child_names w' d)) = sort (remdups (child_names w d))"
    by (metis sorted_list_of_set_sort_remdups)
  then show ?thesis using assms(1) by (simp add: os_ReadDir_def)
qed

lemma os_ReadDir_names:
  "os_ReadDir w d = Inr es \<Longrightarrow> n \<in> set es \<Longrightarrow> valid_name n \<and> kind w (d @ [n]) \<noteq> None"
  using child_names_kind[of w d]
  by (auto simp add: os_ReadDir_def split: if_splits)

subsection \<open>Changes confined to a set of paths\<close>

lemma same_except_refl: "same_except S w w"
  by (simp add: same_except_def)

lemma same_except_trans:
  "same_except S w w1 \<Longrightarrow> same_except S w1 w2 \<Longrightarrow> same_except S w w2"
  by (simp add: same_except_def)

lemma same_except_write:
  assumes "os_WriteFile w q d = (r, w')" and "q \<in> S"
  shows "same_except S w w'"
proof -
  have "kind w' x = kind w x" if "x \<notin> S" for x
  proof -
    from that assms(2) have "x \<noteq> q" by auto
    then show ?thesis by (rule os_WriteFile_frame(4)[OF assms(1)])
  qed
  then show ?thesis
    using os_WriteFile_frame(1,2)[OF assms(1)] by (simp add: same_except_def)
qed

lemma same_except_agree:
  assumes "same_except S w w'" and "\<And>q. q \<in> S \<Longrightarrow> below g q"
  shows "agree_off g w w'"
  using assms by (auto simp add: same_except_def agree_off_def)

lemma readFile_cong: "kind w' p = kind w p \<Longrightarrow> readFile w' p = readFile w p"
  by (simp add: readFile_def os_ReadFile_def)

lemma read_or_empty_cong: "kind w' p = kind w p \<Longrightarrow> read_or_empty w' p = read_or_empty w p"
  by (simp add: read_or_empty_def readFile_def os_ReadFile_def)

lemma readFile_content:
  "kind w p = Some (FileNode c) \<Longrightarrow> readFile w p = Inr (TrimSpace c)"
  by (simp add: readFile_def os_ReadFile_def)

lemma readFile_Inr_kind:
  "readFile w p = Inr s \<Longrightarrow> \<exists>c. kind w p = Some (FileNode c) \<and> s = TrimSpace c"
  by (auto simp add: readFile_def os_ReadFile_def split: option.splits node.splits)

subsection \<open>Finding the gadget again\<close>

lemma outside_gadget:
  assumes "p = [''proc'', ''mounts''] \<or> p = [''sys'', ''kernel'', ''config''] \<or> p = [''config'']"
  shows "\<not> below (T @ [''usb_gadget'', n]) p"
  using assms by (cases T) (auto simp add: below_def)

lemma findMountPoint_frame:
  assumes "kind w' [''proc'', ''mounts''] = kind w [''proc'', ''mounts'']"
    and "kind w' [''sys'', ''kernel'', ''config''] = kind w [''sys'', ''kernel'', ''config'']"
    and "kind w' [''config''] = kind w [''config'']"
  shows "findMountPoint w' t = findMountPoint w t"
  by (simp add: findMountPoint_def dirExists_def assms)

lemma findGadgetRoot_Inr:
  assumes "findGadgetRoot w = Inr g"
  obtains es n where "findMountPoint w ''configfs'' \<noteq> []"
    and "dirExists w (to_path w (findMountPoint w ''configfs'') @ [''usb_gadget''])"
    and "os_ReadDir w (to_path w (findMountPoint w ''configfs'') @ [''usb_gadget'']) = Inr es"
    and "find (\<lambda>name. name ! 0 \<noteq> CHR ''.''
            \<and> read_or_empty w (to_path w (findMountPoint w ''configfs'')
                  @ [''usb_gadget''] @ [name, ''UDC'']) \<noteq> []) es = Some n"
    and "g = to_path w (findMountPoint w ''configfs'') @ [''usb_gadget'', n]"
  using assms
  by (auto simp add: findGadgetRoot_def Let_def split: if_splits sum.splits option.splits)

lemma findGadgetRoot_frame:
  assumes fg: "findGadgetRoot w = Inr g" and ag: "agree_off g w w'"
    and udc: "read_or_empty w' (g @ [''UDC'']) \<noteq> []"
  shows "findGadgetRoot w' = Inr g"
proof -
  define mp where "mp = findMountPoint w ''configfs''"
  define T where "T = to_path w mp"
  define G where "G = T @ [''usb_gadget'']"
  define P where "P = (\<lambda>v name. name ! 0 \<noteq> CHR ''.'' \<and> read_or_empty v (G @ [name, ''UDC'']) \<noteq> [])"
  from fg obtain es n where mp_ne: "mp \<noteq> []" and dG: "dirExists w G"
    and rd: "os_ReadDir w G = Inr es" and fn: "find (P w) es = Some n" and g: "g = G @ [n]"
    by (rule findGadgetRoot_Inr) (simp add: mp_def T_def G_def P_def)
  have keep: "kind w' q = kind w q" if "\<not> below g q" for q
    using ag that by (simp add: agree_off_def)
  have cw: "cwd w' = cwd w" using ag by (simp add: agree_off_def)
  have g': "g = T @ [''usb_gadget'', n]" by (simp add: g G_def)
  have mp': "findMountPoint w' ''configfs'' = mp"
    unfolding mp_def
    by (rule findMountPoint_frame) (rule keep, simp add: g' outside_gadget)+
  have tp: "to_path w' mp = T" by (simp add: to_path_def cw T_def)
  have kG: "kind w' G = kind w G" by (rule keep) (simp add: g below_def)
  have dG': "dirExists w' G" using dG kG by (simp add: dirExists_def)
  have rd': "os_ReadDir w' G = Inr es"
    unfolding rd[symmetric]
    by (rule os_ReadDir_cong[OF kG]) (simp add: keep g below_def)
  have Pn: "P w n" using fn by (auto simp add: find_Some_iff)
  have "find (P w') es = find (P w) es"
  proof (rule find_cong[OF refl])
    fix m assume "m \<in> set es"
    show "P w' m = P w m"
    proof (cases "m = n")
      case True
      with Pn udc show ?thesis by (simp add: P_def g)
    next
      case False
      then have "\<not> below g (G @ [m, ''UDC''])" by (simp add: g below_snoc_iff)
      from read_or_empty_cong[OF keep[OF this]] show ?thesis by (simp add: P_def)
    qed
  qed
  with fn have fn': "find (P w') es = Some n" by simp
  show ?thesis
    using mp_ne dG' rd' fn'
    by (simp add: findGadgetRoot_def Let_def mp' tp G_def[symmetric] P_def g)
qed

subsection \<open>The body of the ConfigFS mount\<close>

lemma step_None:
  assumes "step ctx r k = (None, wz)"
  obtains w1 where "r = (None, w1)" and "k w1 = (None, wz)"
  using assms by (auto simp add: step_def split: prod.splits option.splits)

lemma step_snd:
  assumes "I (snd r)" and "\<And>w1. I w1 \<Longrightarrow> I (snd (k w1))"
  shows "I (snd (step ctx r k))"
  using assms by (auto simp add: step_def split: prod.splits option.splits)

lemma same_except_writeFile:
  assumes "same_except S w0 w1" and "q \<in> S"
  shows "same_except S w0 (snd (writeFile w1 q d))"
proof -
  obtain r w2 where e: "os_WriteFile w1 q (d @ [CHR 0x0A]) = (r, w2)" by force
  from same_except_write[OF e assms(2)] assms(1) show ?thesis
    by (simp add: writeFile_def e same_except_trans)
qed

lemma same_except_mkdir:
  assumes "kind w0 g \<noteq> None"
  shows "same_except (mount_paths g c) w0
           (snd (if \<not> dirExists w0 (g @ [''functions'', ''mass_storage.0''])
                 then os_MkdirAll w0 (g @ [''functions'', ''mass_storage.0'']) else (None, w0)))"
proof (cases "dirExists w0 (g @ [''functions'', ''mass_storage.0''])")
  case True
  then show ?thesis by (simp add: same_except_refl)
next
  case False
  obtain r w1 where e: "os_MkdirAll w0 (g @ [''functions'', ''mass_storage.0'']) = (r, w1)"
    by force
  from os_MkdirAll_two[OF assms e] False show ?thesis
    by (simp add: e same_except_def mount_paths_def)
qed

lemma same_except_symlink:
  assumes "same_except (mount_paths g c) w0 w1"
  shows "same_except (mount_paths g c) w0
           (snd (if \<not> pathExists w1 (c @ [''mass_storage.0''])
                 then os_Symlink w1 t (c @ [''mass_storage.0'']) else (None, w1)))"
proof (cases "pathExists w1 (c @ [''mass_storage.0''])")
  case True
  with assms show ?thesis by simp
next
  case False
  obtain r w2 where e: "os_Symlink w1 t (c @ [''mass_storage.0'']) = (r, w2)" by force
  from os_Symlink_frame[OF e] have "same_except (mount_paths g c) w1 w2"
    by (simp add: same_except_def mount_paths_def)
  with assms False show ?thesis by (simp add: e same_except_trans)
qed

lemma ConfigFS_Mount_body_frame:
  assumes "kind w0 g \<noteq> None"
  shows "same_except (mount_paths g c) w0 (snd (ConfigFS_Mount_body w0 g c p opts))"
  unfolding ConfigFS_Mount_body_def Let_def append_assoc append_Cons append_Nil
  apply (rule step_snd, rule same_except_mkdir[OF assms])
  apply (rule step_snd, erule same_except_symlink)
  apply (rule step_snd, erule same_except_writeFile, simp add: mount_paths_def)
  apply (rule step_snd, erule same_except_writeFile, simp add: mount_paths_def)
  apply (rule step_snd, erule same_except_writeFile, simp add: mount_paths_def)
  apply (rule step_snd, erule same_except_writeFile, simp add: mount_paths_def)
  apply (rule step_snd, simp)
  apply simp
  done

lemma mount_paths_below:
  "q \<in> mount_paths g (g @ [''configs'', m]) \<Longrightarrow> below g q"
  by (auto simp add: mount_paths_def below_def)

lemma UDC_not_mount_path:
  "g @ [''UDC''] \<notin> mount_paths g (g @ [''configs'', m])"
  by (simp add: mount_paths_def)

subsection \<open>The binding attribute\<close>

lemma findGadgetRoot_bound:
  assumes "findGadgetRoot w = Inr g"
  shows "kind w g \<noteq> None" and "read_or_empty w (g @ [''UDC'']) \<noteq> []"
proof -
  from assms obtain es n where rd: "os_ReadDir w (to_path w (findMountPoint w ''configfs'') @ [''usb_gadget'']) = Inr es"
    and fn: "find (\<lambda>name. name ! 0 \<noteq> CHR ''.''
            \<and> read_or_empty w (to_path w (findMountPoint w ''configfs'')
                  @ [''usb_gadget''] @ [name, ''UDC'']) \<noteq> []) es = Some n"
    and g: "g = to_path w (findMountPoint w ''configfs'') @ [''usb_gadget'', n]"
    by (rule findGadgetRoot_Inr)
  from fn have n: "n \<in> set es"
    and u: "read_or_empty w (to_path w (findMountPoint w ''configfs'')
                  @ [''usb_gadget''] @ [n, ''UDC'']) \<noteq> []"
    by (auto simp add: find_Some_iff)
  from os_ReadDir_names[OF rd n] show "kind w g \<noteq> None" by (simp add: g)
  from u show "read_or_empty w (g @ [''UDC'']) \<noteq> []" by (simp add: g)
qed

lemma findConfigRoot_Inr:
  assumes "findConfigRoot w g = Inr c"
  obtains m where "c = g @ [''configs'', m]"
  using assms
  by (auto simp add: findConfigRoot_def Let_def split: sum.splits option.splits)

lemma getUDC_value:
  assumes "getUDC w g = Inr udc"
  shows "read_or_empty w (g @ [''UDC'']) = udc" and "trimmed udc"
  using assms readFile_Inr_kind[of w "g @ [''UDC'']" udc] TrimSpace_trimmed
  by (auto simp add: getUDC_def read_or_empty_def)

text \<open>The deferred write is always issued; what it leaves in the binding attribute depends
  on whether the kernel takes the name.\<close>

lemma restore_UDC_writes:
  assumes ne: "udc \<noteq> []"
  shows "writes (restore_UDC g udc wb) = (g @ [''UDC''], udc @ nl) # writes wb"
    and "same_except {g @ [''UDC'']} wb (restore_UDC g udc wb)"
proof -
  obtain r w' where e: "os_WriteFile wb (g @ [''UDC'']) (udc @ nl) = (r, w')" by force
  have res: "restore_UDC g udc wb = w'"
    using ne e by (simp add: restore_UDC_def setUDC_def writeFile_def nl_def)
  show "writes (restore_UDC g udc wb) = (g @ [''UDC''], udc @ nl) # writes wb"
    unfolding res using os_WriteFile_frame(3)[OF e] by simp
  show "same_except {g @ [''UDC'']} wb (restore_UDC g udc wb)"
    unfolding res by (rule same_except_write[OF e]) simp
qed

lemma restore_UDC_effect:
  assumes su: "setUDC w g [] = (None, w0)"
    and fr: "same_except S w0 wb" and out: "g @ [''UDC''] \<notin> S"
    and ne: "udc \<noteq> []"
  shows "kind (restore_UDC g udc wb) (g @ [''UDC'']) =
           Some (FileNode (if refuses w (g @ [''UDC'']) (udc @ nl) then nl else udc @ nl))"
proof -
  from su have w: "os_WriteFile w (g @ [''UDC'']) nl = (None, w0)"
    by (simp add: setUDC_def writeFile_def nl_def)
  have k0: "kind w0 (g @ [''UDC'']) = Some (FileNode nl)"
    using os_WriteFile_frame(5)[OF w] by simp
  have kb: "kind wb (g @ [''UDC'']) = Some (FileNode nl)"
    using fr out k0 by (simp add: same_except_def)
  have rb: "refuses wb = refuses w"
    using fr os_WriteFile_frame(1)[OF w] by (simp add: same_except_def)
  obtain r w' where e: "os_WriteFile wb (g @ [''UDC'']) (udc @ nl) = (r, w')" by force
  have r: "r = (if refuses w (g @ [''UDC'']) (udc @ nl) then Some OSError else None)"
    using os_WriteFile_file[OF kb, of "udc @ nl"] e by (simp add: rb)
  have res: "restore_UDC g udc wb = w'"
    using ne e by (simp add: restore_UDC_def setUDC_def writeFile_def nl_def)
  show ?thesis
  proof (cases "refuses w (g @ [''UDC'']) (udc @ nl)")
    case True
    with r have "r \<noteq> None" by simp
    from os_WriteFile_frame(6)[OF e this] kb True show ?thesis by (simp add: res)
  next
    case False
    with r have "r = None" by simp
    from os_WriteFile_frame(5)[OF e this] False show ?thesis by (simp add: res)
  qed
qed

lemma ConfigFS_Mount_unfold:
  assumes "findGadgetRoot w = Inr g" and "findConfigRoot w g = Inr c"
    and "getUDC w g = Inr udc" and "setUDC w g [] = (None, w0)"
  shows "ConfigFS_Mount w p opts =
           (fst (ConfigFS_Mount_body w0 g c p opts),
            restore_UDC g udc (snd (ConfigFS_Mount_body w0 g c p opts)))"
  using assms by (simp add: ConfigFS_Mount_def split: prod.splits)

lemma ConfigFS_Unmount_unfold:
  assumes "findGadgetRoot w = Inr g"
    and "getUDC w g = Inr udc" and "setUDC w g [] = (None, w0)"
  shows "ConfigFS_Unmount w =
           (fst (ConfigFS_Unmount_body w0 g),
            restore_UDC g udc (snd (ConfigFS_Unmount_body w0 g)))"
  using assms by (simp add: ConfigFS_Unmount_def split: prod.splits)

lemma ConfigFS_Unmount_body_frame:
  "same_except {g @ [''functions'', ''mass_storage.0'', ''lun.0'', ''file'']} w0
     (snd (ConfigFS_Unmount_body w0 g))"
  unfolding ConfigFS_Unmount_body_def Let_def append_assoc append_Cons append_Nil
  apply (rule step_snd, rule same_except_writeFile[OF same_except_refl], simp)
  apply (rule step_snd, simp)
  apply simp
  done

subsection \<open>The example phone\<close>

lemmas phone_defs = phone_locked_def phone_def phone_nodes_def g1_def udcDir_def
  udc_lun_def sysfsEnable_def sysfsFile_def sysfsFeatures_def nl_def

lemma locked_kind: "kind phone_locked q = kind phone q"
  by (simp add: kind_def phone_locked_def)

lemma locked_mounts: "findMountPoint phone_locked ''configfs'' = ''/config''"
  using findMountPoint_frame[OF locked_kind locked_kind locked_kind]
  by (simp add: phone_mounts)

lemma config_path: "to_path phone_locked ''/config'' = [''config'']"
  by (simp add: to_path_def IsAbs_def split_on_def)

lemma gadget_entries: "os_ReadDir phone_locked [''config'', ''usb_gadget''] = Inr [''g1'']"
  by (simp add: os_ReadDir_def child_names_def kind_def phone_defs valid_name_def)

lemma locked_udc:
  "readFile phone_locked [''config'', ''usb_gadget'', ''g1'', ''UDC''] = Inr ''a600000.dwc3''"
  by (simp add: readFile_def os_ReadFile_def kind_def phone_defs TrimSpace_def
      space_width_def space_width_rev_def space_runes_def)

lemma locked_gadget: "findGadgetRoot phone_locked = Inr g1"
  by (simp add: findGadgetRoot_def Let_def locked_mounts config_path gadget_entries
      read_or_empty_def locked_udc g1_def)
     (simp add: dirExists_def kind_def phone_defs)

lemma locked_getUDC: "getUDC phone_locked g1 = Inr ''a600000.dwc3''"
  by (simp add: getUDC_def g1_def locked_udc)

lemma locked_disable: "fst (setUDC phone_locked g1 []) = None"
  by (simp add: setUDC_def writeFile_def os_WriteFile_def Let_def kind_def phone_defs)

lemma locked_config: "findConfigRoot phone_locked g1 = Inr (g1 @ [''configs'', ''b.1''])"
  by (simp add: findConfigRoot_def os_ReadDir_def child_names_def kind_def
      phone_defs valid_name_def)


lemma locked_Mount_fails:
  "fst (ConfigFS_Mount phone_locked ''/sdcard/x.iso'' cdrom_ro) =
     Some (Wrap ''clear lun file'' OSError)"
proof -
  obtain w0 where su: "setUDC phone_locked g1 [] = (None, w0)"
    using locked_disable by (cases "setUDC phone_locked g1 []") simp
  then have w: "os_WriteFile phone_locked (g1 @ [''UDC'']) nl = (None, w0)"
    by (simp add: setUDC_def writeFile_def nl_def)
  have k: "kind w0 q = kind phone_locked q" if "q \<noteq> g1 @ [''UDC'']" for q
    using os_WriteFile_frame(4)[OF w that] .
  have ro: "refuses w0 = refuses phone_locked"
    using os_WriteFile_frame(1)[OF w] .
  have d: "dirExists w0 (g1 @ [''functions'', ''mass_storage.0''])"
    by (simp add: dirExists_def k) (simp add: kind_def phone_defs)
  have l: "pathExists w0 (g1 @ [''configs'', ''b.1'', ''mass_storage.0''])"
    by (simp add: pathExists_def k) (simp add: kind_def phone_defs)
  have "fst (writeFile w0 (g1 @ [''functions'', ''mass_storage.0'', ''lun.0'', ''file'']) [])
             = Some OSError"
    by (simp add: writeFile_def os_WriteFile_def Let_def ro) (simp add: phone_defs)
  then obtain w1 where
    f: "writeFile w0 (g1 @ [''functions'', ''mass_storage.0'', ''lun.0'', ''file'']) []
             = (Some OSError, w1)"
    by (cases "writeFile w0 (g1 @ [''functions'', ''mass_storage.0'', ''lun.0'', ''file'']) []")
       simp
  have "fst (ConfigFS_Mount_body w0 g1 (g1 @ [''configs'', ''b.1'']) ''/sdcard/x.iso'' cdrom_ro)
          = Some (Wrap ''clear lun file'' OSError)"
    using d l f
    by (simp add: ConfigFS_Mount_body_def Let_def step_def)
  then show ?thesis
    by (simp add: ConfigFS_Mount_unfold[OF locked_gadget locked_config locked_getUDC su])
qed

subsection \<open>Restoration of the binding\<close>

text \<open>
  C1.  Once \<open>Mount\<close> has found a gadget and disabled it, the controller name it read from the
  \<open>UDC\<close> attribute is written back before \<open>Mount\<close> returns, whatever the steps in between
  return: the last write the kernel sees is that name to the \<open>UDC\<close> attribute.  The name is
  never empty, since only a bound gadget is found.  The attribute then reads as before; only
  where the kernel refuses the name does it stay empty, since the error of the deferred write
  is dropped.  The same holds for \<open>Unmount\<close>.
\<close>

theorem UDC_binding_restored:
  assumes fg: "findGadgetRoot w = Inr g" and gu: "getUDC w g = Inr udc"
    and su: "fst (setUDC w g []) = None"
  shows "udc \<noteq> []
    \<and> (findConfigRoot w g = Inr c \<longrightarrow>
         hd (writes (snd (ConfigFS_Mount w p opts))) = (g @ [''UDC''], udc @ nl)
         \<and> getUDC (snd (ConfigFS_Mount w p opts)) g
             = Inr (if refuses w (g @ [''UDC'']) (udc @ nl) then [] else udc))
    \<and> hd (writes (snd (ConfigFS_Unmount w))) = (g @ [''UDC''], udc @ nl)
    \<and> getUDC (snd (ConfigFS_Unmount w)) g
         = Inr (if refuses w (g @ [''UDC'']) (udc @ nl) then [] else udc)"
proof -
  let ?R = "refuses w (g @ [''UDC'']) (udc @ nl)"
  obtain w0 where w0: "setUDC w g [] = (None, w0)"
    using su by (cases "setUDC w g []") simp
  have ne: "udc \<noteq> []"
    using findGadgetRoot_bound(2)[OF fg] getUDC_value(1)[OF gu] by simp
  have rb: "getUDC w' g = Inr (if ?R then [] else udc)"
    if "kind w' (g @ [''UDC'']) = Some (FileNode (if ?R then nl else udc @ nl))" for w'
    using that TrimSpace_append_nl[OF getUDC_value(2)[OF gu]] trim_nl
    by (simp add: getUDC_def readFile_content)
  have mount: "hd (writes (snd (ConfigFS_Mount w p opts))) = (g @ [''UDC''], udc @ nl)
         \<and> getUDC (snd (ConfigFS_Mount w p opts)) g = Inr (if ?R then [] else udc)"
    if fc: "findConfigRoot w g = Inr c"
  proof -
    from fc obtain m where c: "c = g @ [''configs'', m]" by (rule findConfigRoot_Inr)
    have kg: "kind w0 g \<noteq> None"
      using findGadgetRoot_bound(1)[OF fg] w0
      by (simp add: setUDC_def writeFile_def os_WriteFile_frame(4))
    note fr = ConfigFS_Mount_body_frame[OF kg, of c p opts]
    have out: "g @ [''UDC''] \<notin> mount_paths g c" by (simp add: c UDC_not_mount_path)
    show ?thesis
      using restore_UDC_writes(1)[OF ne] rb[OF restore_UDC_effect[OF w0 fr out ne]]
      by (simp add: ConfigFS_Mount_unfold[OF fg fc gu w0])
  qed
  have unmount: "hd (writes (snd (ConfigFS_Unmount w))) = (g @ [''UDC''], udc @ nl)
         \<and> getUDC (snd (ConfigFS_Unmount w)) g = Inr (if ?R then [] else udc)"
  proof -
    have out: "g @ [''UDC''] \<notin> {g @ [''functions'', ''mass_storage.0'', ''lun.0'', ''file'']}"
      by simp
    show ?thesis
      using restore_UDC_writes(1)[OF ne]
        rb[OF restore_UDC_effect[OF w0 ConfigFS_Unmount_body_frame out ne]]
      by (simp add: ConfigFS_Unmount_unfold[OF fg gu w0])
  qed
  from ne mount unmount show ?thesis by blast
qed

theorem UDC_binding_restored_witness:
  "fst (ConfigFS_Mount phone_locked ''/sdcard/x.iso'' cdrom_ro) = Some (Wrap ''clear lun file'' OSError)
   \<and> hd (writes (snd (ConfigFS_Mount phone_locked ''/sdcard/x.iso'' cdrom_ro)))
        = (g1 @ [''UDC''], ''a600000.dwc3'' @ nl)
   \<and> getUDC (snd (ConfigFS_Mount phone_locked ''/sdcard/x.iso'' cdrom_ro)) g1 = Inr ''a600000.dwc3''
   \<and> getUDC (snd (ConfigFS_Unmount phone_locked)) g1 = Inr ''a600000.dwc3''"
proof -
  have a: "\<not> refuses phone_locked (g1 @ [''UDC'']) (''a600000.dwc3'' @ nl)"
    by (simp add: phone_locked_def g1_def)
  show ?thesis
    using UDC_binding_restored[OF locked_gadget locked_getUDC locked_disable,
        of "g1 @ [''configs'', ''b.1'']" "''/sdcard/x.iso''" cdrom_ro]
      locked_config locked_Mount_fails a
    by simp
qed

subsection \<open>The state after a successful ConfigFS mount\<close>

lemma writeFile_None:
  assumes "writeFile w q s = (None, w')"
  shows "os_WriteFile w q (s @ nl) = (None, w')"
  using assms by (simp add: writeFile_def nl_def)

lemma setUDC_None:
  "setUDC w g [] = (None, w0) \<Longrightarrow> os_WriteFile w (g @ [''UDC'']) nl = (None, w0)"
  by (simp add: setUDC_def writeFile_def nl_def)

lemma ConfigFS_Mount_body_success:
  assumes b: "ConfigFS_Mount_body w0 g c p opts = (None, wb)" and kg: "kind w0 g \<noteq> None"
  shows "dirExists wb (g @ [''functions'', ''mass_storage.0''])"
    and "readFile wb (g @ [''functions'', ''mass_storage.0'', ''lun.0'', ''file'']) = Inr p"
    and "kind wb (g @ [''functions'', ''mass_storage.0'', ''lun.0'', ''file''])
           = Some (FileNode (p @ nl))"
    and "\<not> refuses w0 (g @ [''functions'', ''mass_storage.0'', ''lun.0'', ''file'']) nl"
proof -
  let ?ms = "g @ [''functions'', ''mass_storage.0'']"
  let ?lun = "g @ [''functions'', ''mass_storage.0'', ''lun.0'']"
  from b obtain w1 w2 w3 w4 w5 w6 where
    s1: "(if \<not> dirExists w0 ?ms then os_MkdirAll w0 ?ms else (None, w0)) = (None, w1)"
    and s2: "(if \<not> pathExists w1 (c @ [''mass_storage.0''])
              then os_Symlink w1 ?ms (c @ [''mass_storage.0'']) else (None, w1)) = (None, w2)"
    and s3: "writeFile w2 (?lun @ [''file'']) [] = (None, w3)"
    and s4: "writeFile w3 (?lun @ [''cdrom'']) (if CDROM opts then ''1'' else ''0'') = (None, w4)"
    and s5: "writeFile w4 (?lun @ [''ro'']) (if ReadWrite opts then ''0'' else ''1'') = (None, w5)"
    and s6: "writeFile w5 (?lun @ [''file'']) p = (None, w6)"
    and s7: "verifyMount w6 (?lun @ [''file'']) p = None" and wb: "wb = w6"
    unfolding ConfigFS_Mount_body_def Let_def append_assoc append_Cons append_Nil
    by (elim step_None) auto
  have d1: "kind w1 ?ms = Some DirNode"
  proof (cases "dirExists w0 ?ms")
    case True
    with s1 show ?thesis by (simp add: dirExists_def)
  next
    case False
    with s1 have "os_MkdirAll w0 ?ms = (None, w1)" by simp
    from os_MkdirAll_two(5)[OF kg this] show ?thesis by simp
  qed
  have d2: "kind w2 ?ms = Some DirNode"
  proof (cases "pathExists w1 (c @ [''mass_storage.0''])")
    case True
    with s2 d1 show ?thesis by simp
  next
    case False
    with s2 have e: "os_Symlink w1 ?ms (c @ [''mass_storage.0'']) = (None, w2)" by simp
    then have "kind w1 (c @ [''mass_storage.0'']) = None"
      by (simp add: os_Symlink_def split: if_splits)
    with d1 have "?ms \<noteq> c @ [''mass_storage.0'']" by auto
    from os_Symlink_frame(4)[OF e this] d1 show ?thesis by simp
  qed
  have d6: "kind w6 ?ms = Some DirNode"
    using d2 os_WriteFile_frame(4)[OF writeFile_None[OF s3], of ?ms]
      os_WriteFile_frame(4)[OF writeFile_None[OF s4], of ?ms]
      os_WriteFile_frame(4)[OF writeFile_None[OF s5], of ?ms]
      os_WriteFile_frame(4)[OF writeFile_None[OF s6], of ?ms]
    by simp
  then show "dirExists wb ?ms" by (simp add: wb dirExists_def)
  from s7 show "readFile wb (g @ [''functions'', ''mass_storage.0'', ''lun.0'', ''file'']) = Inr p"
    by (simp add: wb verifyMount_def split: sum.splits if_splits)
  show "kind wb (g @ [''functions'', ''mass_storage.0'', ''lun.0'', ''file''])
           = Some (FileNode (p @ nl))"
    using os_WriteFile_frame(5)[OF writeFile_None[OF s6]] by (simp add: wb)
  have "refuses w1 = refuses w0"
  proof (cases "dirExists w0 ?ms")
    case True
    with s1 show ?thesis by simp
  next
    case False
    with s1 have "os_MkdirAll w0 ?ms = (None, w1)" by simp
    from os_MkdirAll_two(1)[OF kg this] show ?thesis .
  qed
  moreover have "refuses w2 = refuses w1"
  proof (cases "pathExists w1 (c @ [''mass_storage.0''])")
    case True
    with s2 show ?thesis by simp
  next
    case False
    with s2 have "os_Symlink w1 ?ms (c @ [''mass_storage.0'']) = (None, w2)" by simp
    from os_Symlink_frame(1)[OF this] show ?thesis .
  qed
  moreover have "\<not> refuses w2 (g @ [''functions'', ''mass_storage.0'', ''lun.0'', ''file'']) nl"
    using s3
    by (auto simp add: writeFile_def os_WriteFile_def Let_def nl_def split: if_splits)
  ultimately show "\<not> refuses w0 (g @ [''functions'', ''mass_storage.0'', ''lun.0'', ''file'']) nl"
    by simp
qed

lemma ConfigFS_Mount_None:
  assumes "ConfigFS_Mount w p opts = (None, w')"
  obtains g c udc w0 wb where "findGadgetRoot w = Inr g" and "findConfigRoot w g = Inr c"
    and "getUDC w g = Inr udc" and "setUDC w g [] = (None, w0)"
    and "ConfigFS_Mount_body w0 g c p opts = (None, wb)" and "w' = restore_UDC g udc wb"
  using assms
  by (auto simp add: ConfigFS_Mount_def split: sum.splits prod.splits option.splits)

lemma ConfigFS_Unmount_None:
  assumes "ConfigFS_Unmount w = (None, w')"
  obtains g udc w0 wb where "findGadgetRoot w = Inr g"
    and "getUDC w g = Inr udc" and "setUDC w g [] = (None, w0)"
    and "ConfigFS_Unmount_body w0 g = (None, wb)" and "w' = restore_UDC g udc wb"
  using assms
  by (auto simp add: ConfigFS_Unmount_def split: sum.splits prod.splits option.splits)

text \<open>A gadget session: the binding is cleared, the function tree is worked on, and the
  write of the binding is issued again.  Outside the gadget nothing changes.\<close>

lemma gadget_session_state:
  assumes fg: "findGadgetRoot w = Inr g" and gu: "getUDC w g = Inr udc"
    and su: "setUDC w g [] = (None, w0)"
    and fr: "same_except S w0 wb" and sub: "\<forall>q \<in> S. below g q"
    and out: "g @ [''UDC''] \<notin> S"
  shows "agree_off g w (restore_UDC g udc wb)"
    and "kind (restore_UDC g udc wb) (g @ [''UDC'']) =
           Some (FileNode (if refuses w (g @ [''UDC'']) (udc @ nl) then nl else udc @ nl))"
    and "q \<noteq> g @ [''UDC''] \<Longrightarrow> kind (restore_UDC g udc wb) q = kind wb q"
    and "refuses (restore_UDC g udc wb) = refuses w"
proof -
  let ?w' = "restore_UDC g udc wb"
  have ne: "udc \<noteq> []"
    using findGadgetRoot_bound(2)[OF fg] getUDC_value(1)[OF gu] by simp
  note r = restore_UDC_writes[OF ne, of g wb]
  note w = setUDC_None[OF su]
  have a1: "agree_off g w w0" by (rule os_WriteFile_agree[OF w]) (simp add: below_append)
  have a2: "agree_off g w0 wb" by (rule same_except_agree[OF fr]) (use sub in blast)
  have a3: "agree_off g wb ?w'"
    by (rule same_except_agree[OF r(2)]) (simp add: below_append)
  show ag: "agree_off g w ?w'" using a1 a2 a3 by (blast intro: agree_off_trans)
  show "kind ?w' (g @ [''UDC'']) =
           Some (FileNode (if refuses w (g @ [''UDC'']) (udc @ nl) then nl else udc @ nl))"
    by (rule restore_UDC_effect[OF su fr out ne])
  show "kind ?w' q = kind wb q" if "q \<noteq> g @ [''UDC'']"
    using r(2) that by (simp add: same_except_def)
  show "refuses ?w' = refuses w"
    using ag by (simp add: agree_off_def)
qed

text \<open>When the kernel takes the name, the gadget is found again afterwards.\<close>

lemma gadget_session:
  assumes fg: "findGadgetRoot w = Inr g" and gu: "getUDC w g = Inr udc"
    and su: "setUDC w g [] = (None, w0)"
    and fr: "same_except S w0 wb" and sub: "\<forall>q \<in> S. below g q"
    and out: "g @ [''UDC''] \<notin> S"
    and acc: "\<not> refuses w (g @ [''UDC'']) (udc @ nl)"
  shows "findGadgetRoot (restore_UDC g udc wb) = Inr g"
    and "getUDC (restore_UDC g udc wb) g = Inr udc"
proof -
  let ?w' = "restore_UDC g udc wb"
  have ne: "udc \<noteq> []"
    using findGadgetRoot_bound(2)[OF fg] getUDC_value(1)[OF gu] by simp
  note s = gadget_session_state[OF fg gu su fr sub out]
  show gu': "getUDC ?w' g = Inr udc"
    using s(2) acc TrimSpace_append_nl[OF getUDC_value(2)[OF gu]]
    by (simp add: getUDC_def readFile_content)
  then have "read_or_empty ?w' (g @ [''UDC'']) \<noteq> []"
    using ne by (simp add: getUDC_def read_or_empty_def)
  from findGadgetRoot_frame[OF fg s(1) this] show "findGadgetRoot ?w' = Inr g" .
qed

lemma rebind_accepted_gadget:
  assumes "rebind_accepted w" and "findGadgetRoot w = Inr g" and "getUDC w g = Inr udc"
  shows "\<not> refuses w (g @ [''UDC'']) (udc @ nl)"
  using assms getUDC_value(1)[OF assms(3)] by (simp add: rebind_accepted_def)

subsection \<open>The UDC and Sysfs backends\<close>

lemma os_ReadDir_shape:
  assumes "(kind w' d = Some DirNode) = (kind w d = Some DirNode)"
    and "\<And>n. (kind w' (d @ [n]) = None) = (kind w (d @ [n]) = None)"
  shows "os_ReadDir w' d = os_ReadDir w d"
proof -
  have "set (child_names w' d) = set (child_names w d)"
    using assms(2) by (simp add: child_names_kind)
  then have "sort (remdups (child_names w' d)) = sort (remdups (child_names w d))"
    by (metis sorted_list_of_set_sort_remdups)
  then show ?thesis using assms(1) by (simp add: os_ReadDir_def)
qed

lemma fileExists_shape:
  assumes "(kind w' q = None) = (kind w q = None)"
    and "(kind w' q = Some DirNode) = (kind w q = Some DirNode)"
  shows "fileExists w' q = fileExists w q"
  using assms by (auto simp add: fileExists_def split: option.splits)

lemma findLunFile_shape:
  assumes n: "\<And>x. (kind w' x = None) = (kind w x = None)"
    and d: "\<And>x. (kind w' x = Some DirNode) = (kind w x = Some DirNode)"
  shows "findLunFile w' = findLunFile w"
proof -
  have fe: "fileExists w' = fileExists w"
    by (rule ext) (rule fileExists_shape[OF n d])
  show ?thesis
    unfolding findLunFile_def fe os_ReadDir_shape[OF d n] ..
qed

text \<open>Overwriting a node that exists changes no node's presence and makes no directory.\<close>

lemma overwrite_shape:
  assumes w: "os_WriteFile w q d = (None, w')" and e: "kind w q \<noteq> None"
  shows "(kind w' x = None) = (kind w x = None)"
    and "(kind w' x = Some DirNode) = (kind w x = Some DirNode)"
proof -
  from w e have "\<exists>c. kind w q = Some (FileNode c)"
    by (auto simp add: os_WriteFile_def Let_def split: if_splits option.splits node.splits)
  then show "(kind w' x = None) = (kind w x = None)"
    and "(kind w' x = Some DirNode) = (kind w x = Some DirNode)"
    using os_WriteFile_frame(4,5)[OF w] by (cases "x = q"; auto)+
qed

lemma findLunFile_Inr:
  assumes "findLunFile w = Inr f"
  shows "kind w f \<noteq> None"
  using assms
  by (auto simp add: findLunFile_def fileExists_def find_Some_iff
      split: sum.splits option.splits)

lemma findLunFile_overwrite:
  assumes f: "findLunFile w = Inr f" and w: "os_WriteFile w f d = (None, w')"
  shows "findLunFile w' = Inr f"
  using findLunFile_shape[OF overwrite_shape[OF w findLunFile_Inr[OF f]]] f by simp

lemma UDC_Mount_None:
  assumes "UDC_Mount w p opts = (None, w')"
  obtains f w1 where "findLunFile w = Inr f" and "writeFile w f [] = (None, w1)"
    and "writeFile w1 f p = (None, w')" and "readFile w' f = Inr p"
proof -
  from assms obtain f where f: "findLunFile w = Inr f"
    by (auto simp add: UDC_Mount_def split: sum.splits)
  with assms have "step ''clear lun file'' (writeFile w f [])
         (\<lambda>w1. step ''mount image'' (writeFile w1 f p)
         (\<lambda>w2. case readFile w2 f of
                  Inl e \<Rightarrow> (Some (Wrap ''verify mount'' e), w2)
                | Inr mountedPath \<Rightarrow>
                    if mountedPath \<noteq> p
                    then (Some (Msg (''verify mount: expected '' @ p
                                      @ '', got '' @ mountedPath)), w2)
                    else (None, w2))) = (None, w')"
    by (simp add: UDC_Mount_def)
  then obtain w1 w2 where 1: "writeFile w f [] = (None, w1)"
    and 2: "writeFile w1 f p = (None, w2)"
    and 3: "(case readFile w2 f of
                  Inl e \<Rightarrow> (Some (Wrap ''verify mount'' e), w2)
                | Inr mountedPath \<Rightarrow>
                    if mountedPath \<noteq> p
                    then (Some (Msg (''verify mount: expected '' @ p
                                      @ '', got '' @ mountedPath)), w2)
                    else (None, w2)) = (None, w')"
    by (elim step_None)
  from 3 have "w2 = w'" and "readFile w' f = Inr p"
    by (auto split: sum.splits if_splits)
  with f 1 2 that show ?thesis by simp
qed

lemma UDC_Status_after_Mount:
  assumes m: "UDC_Mount w p opts = (None, w')"
  shows "Mounted (UDC_Status w') = (p \<noteq> [])" and "File (UDC_Status w') = p"
proof -
  from m obtain f w1 where f: "findLunFile w = Inr f" and 1: "writeFile w f [] = (None, w1)"
    and 2: "writeFile w1 f p = (None, w')" and 3: "readFile w' f = Inr p"
    by (rule UDC_Mount_None)
  have f1: "findLunFile w1 = Inr f" by (rule findLunFile_overwrite[OF f writeFile_None[OF 1]])
  have f2: "findLunFile w' = Inr f" by (rule findLunFile_overwrite[OF f1 writeFile_None[OF 2]])
  show "Mounted (UDC_Status w') = (p \<noteq> [])" "File (UDC_Status w') = p"
    using 3 by (simp_all add: UDC_Status_def f2 not_mounted_def)
qed

lemma sysfs_paths_distinct:
  "sysfsFile \<noteq> sysfsEnable" "sysfsFile \<noteq> sysfsFeatures" "sysfsEnable \<noteq> sysfsFeatures"
  by (simp_all add: sysfsFile_def sysfsEnable_def sysfsFeatures_def)

lemma Sysfs_Mount_None:
  assumes "Sysfs_Mount w p opts = (None, w')"
  obtains w1 w2 w3 where "setEnabled w False = (None, w1)"
    and "writeFile w1 sysfsFile p = (None, w2)"
    and "writeFile w2 sysfsFeatures ''mass_storage'' = (None, w3)"
    and "setEnabled w3 True = (None, w')"
  using assms unfolding Sysfs_Mount_def by (elim step_None) auto

lemma Sysfs_Status_after_Mount:
  assumes m: "Sysfs_Mount w p opts = (None, w')"
  shows "Mounted (Sysfs_Status w') = (TrimSpace (p @ nl) \<noteq> [])"
    and "File (Sysfs_Status w') = TrimSpace (p @ nl)"
proof -
  from m obtain w1 w2 w3 where 2: "writeFile w1 sysfsFile p = (None, w2)"
    and 3: "writeFile w2 sysfsFeatures ''mass_storage'' = (None, w3)"
    and 4: "setEnabled w3 True = (None, w')"
    by (rule Sysfs_Mount_None)
  have "kind w' sysfsFile = Some (FileNode (p @ nl))"
    using os_WriteFile_frame(5)[OF writeFile_None[OF 2]]
      os_WriteFile_frame(4)[OF writeFile_None[OF 3], of sysfsFile]
      os_WriteFile_frame(4)[OF writeFile_None[OF 4[unfolded setEnabled_def]], of sysfsFile]
      sysfs_paths_distinct
    by simp
  then have "readFile w' sysfsFile = Inr (TrimSpace (p @ nl))"
    by (simp add: readFile_content)
  then show "Mounted (Sysfs_Status w') = (TrimSpace (p @ nl) \<noteq> [])"
    and "File (Sysfs_Status w') = TrimSpace (p @ nl)"
    by (simp_all add: Sysfs_Status_def not_mounted_def)
qed

subsection \<open>When the procedures succeed\<close>

text \<open>A write to a file that exists succeeds when the kernel takes the value.\<close>

lemma writeFile_ok:
  assumes "kind w q = Some (FileNode c)" and "\<not> refuses w q (s @ nl)"
  shows "\<exists>w'. writeFile w q s = (None, w') \<and> refuses w' = refuses w
           \<and> kind w' q = Some (FileNode (s @ nl)) \<and> (\<forall>x. x \<noteq> q \<longrightarrow> kind w' x = kind w x)"
proof -
  obtain r w' where e: "os_WriteFile w q (s @ nl) = (r, w')" by force
  with assms have r: "r = None"
    by (auto simp add: os_WriteFile_def Let_def)
  have "writeFile w q s = (None, w')" using e r by (simp add: writeFile_def nl_def)
  moreover have "refuses w' = refuses w" by (rule os_WriteFile_frame(1)[OF e])
  moreover have "kind w' q = Some (FileNode (s @ nl))" by (rule os_WriteFile_frame(5)[OF e r])
  moreover have "\<forall>x. x \<noteq> q \<longrightarrow> kind w' x = kind w x"
    using os_WriteFile_frame(4)[OF e] by simp
  ultimately show ?thesis by blast
qed

lemma writeFile_ok_clear:
  assumes "kind w q = Some (FileNode c)" and "\<not> refuses w q nl"
  shows "\<exists>w'. writeFile w q [] = (None, w') \<and> refuses w' = refuses w
           \<and> kind w' q = Some (FileNode nl) \<and> (\<forall>x. x \<noteq> q \<longrightarrow> kind w' x = kind w x)"
  using writeFile_ok[where s = "[]", OF assms(1)] assms(2) by simp

lemma writeFile_None_file:
  assumes "writeFile w q s = (None, w')"
  shows "\<not> refuses w q (s @ nl)" and "kind w' q = Some (FileNode (s @ nl))"
    and "refuses w' = refuses w"
  using assms
  by (auto simp add: writeFile_def os_WriteFile_def Let_def kind_def nl_def
      split: if_splits option.splits node.splits)

lemma gadget_UDC_file:
  assumes "findGadgetRoot w = Inr g"
  obtains c where "kind w (g @ [''UDC'']) = Some (FileNode c)"
    and "getUDC w g = Inr (TrimSpace c)"
  using findGadgetRoot_bound(2)[OF assms]
  by (auto simp add: read_or_empty_def getUDC_def readFile_def os_ReadFile_def
      split: option.splits node.splits)

lemma ConfigFS_Unmount_ok:
  assumes fg: "findGadgetRoot w = Inr g"
    and ru: "\<not> refuses w (g @ [''UDC'']) nl"
    and kl: "kind w (g @ [''functions'', ''mass_storage.0'', ''lun.0'', ''file'']) = Some (FileNode a)"
    and rl: "\<not> refuses w (g @ [''functions'', ''mass_storage.0'', ''lun.0'', ''file'']) nl"
  shows "fst (ConfigFS_Unmount w) = None"
proof -
  let ?lun = "g @ [''functions'', ''mass_storage.0'', ''lun.0'', ''file'']"
  from fg obtain c where ku: "kind w (g @ [''UDC'']) = Some (FileNode c)"
    and gu: "getUDC w g = Inr (TrimSpace c)"
    by (rule gadget_UDC_file)
  from ku ru obtain w0 where su: "writeFile w (g @ [''UDC'']) [] = (None, w0)"
    and r0: "refuses w0 = refuses w"
    and k0: "\<forall>x. x \<noteq> g @ [''UDC''] \<longrightarrow> kind w0 x = kind w x"
    using writeFile_ok_clear by blast
  have "kind w0 ?lun = Some (FileNode a)" using kl k0 by simp
  moreover have "\<not> refuses w0 ?lun nl" using rl r0 by simp
  ultimately obtain w1 where cl: "writeFile w0 ?lun [] = (None, w1)"
    and k1: "kind w1 ?lun = Some (FileNode nl)"
    using writeFile_ok_clear by blast
  have "verifyUnmount w1 ?lun = None"
    using k1 by (simp add: verifyUnmount_def readFile_content trim_nl)
  with cl have "fst (ConfigFS_Unmount_body w0 g) = None"
    by (simp add: ConfigFS_Unmount_body_def Let_def step_def)
  then show ?thesis
    using su by (simp add: ConfigFS_Unmount_unfold[OF fg gu] setUDC_def)
qed

lemma ConfigFS_Mount_ok:
  assumes fg: "findGadgetRoot w = Inr g" and fc: "findConfigRoot w g = Inr c"
    and ru: "\<not> refuses w (g @ [''UDC'']) nl"
    and d: "dirExists w (g @ [''functions'', ''mass_storage.0''])"
    and l: "pathExists w (c @ [''mass_storage.0''])"
    and kf: "kind w (g @ [''functions'', ''mass_storage.0'', ''lun.0'', ''file'']) = Some (FileNode a1)"
    and kc: "kind w (g @ [''functions'', ''mass_storage.0'', ''lun.0'', ''cdrom'']) = Some (FileNode a2)"
    and kr: "kind w (g @ [''functions'', ''mass_storage.0'', ''lun.0'', ''ro'']) = Some (FileNode a3)"
    and rf: "\<not> refuses w (g @ [''functions'', ''mass_storage.0'', ''lun.0'', ''file'']) nl"
    and rp: "\<not> refuses w (g @ [''functions'', ''mass_storage.0'', ''lun.0'', ''file'']) (p @ nl)"
    and rc: "\<not> refuses w (g @ [''functions'', ''mass_storage.0'', ''lun.0'', ''cdrom''])
                  ((if CDROM opts then ''1'' else ''0'') @ nl)"
    and rr: "\<not> refuses w (g @ [''functions'', ''mass_storage.0'', ''lun.0'', ''ro''])
                  ((if ReadWrite opts then ''0'' else ''1'') @ nl)"
    and t: "TrimSpace (p @ nl) = p"
  shows "fst (ConfigFS_Mount w p opts) = None"
proof -
  let ?ms = "g @ [''functions'', ''mass_storage.0'']"
  let ?f = "g @ [''functions'', ''mass_storage.0'', ''lun.0'', ''file'']"
  let ?c = "g @ [''functions'', ''mass_storage.0'', ''lun.0'', ''cdrom'']"
  let ?r = "g @ [''functions'', ''mass_storage.0'', ''lun.0'', ''ro'']"
  let ?cdv = "if CDROM opts then ''1'' else ''0''"
  let ?rov = "if ReadWrite opts then ''0'' else ''1''"
  from fc obtain m where c: "c = g @ [''configs'', m]" by (rule findConfigRoot_Inr)
  from fg obtain u where ku: "kind w (g @ [''UDC'']) = Some (FileNode u)"
    and gu: "getUDC w g = Inr (TrimSpace u)"
    by (rule gadget_UDC_file)
  from ku ru obtain w0 where su: "writeFile w (g @ [''UDC'']) [] = (None, w0)"
    and r0: "refuses w0 = refuses w"
    and k0: "\<forall>x. x \<noteq> g @ [''UDC''] \<longrightarrow> kind w0 x = kind w x"
    using writeFile_ok_clear by blast
  have d0: "dirExists w0 ?ms" using d k0 by (simp add: dirExists_def)
  have l0: "pathExists w0 (c @ [''mass_storage.0''])"
    using l k0 by (simp add: pathExists_def c)
  have "kind w0 ?f = Some (FileNode a1)" using kf k0 by simp
  moreover have "\<not> refuses w0 ?f nl" using rf r0 by simp
  ultimately obtain w3 where st3: "writeFile w0 ?f [] = (None, w3)"
    and r3: "refuses w3 = refuses w0" and f3: "kind w3 ?f = Some (FileNode nl)"
    and k3: "\<forall>x. x \<noteq> ?f \<longrightarrow> kind w3 x = kind w0 x"
    using writeFile_ok_clear by blast
  have "kind w3 ?c = Some (FileNode a2)" using kc k0 k3 by simp
  moreover have "\<not> refuses w3 ?c (?cdv @ nl)" using rc r0 r3 by simp
  ultimately obtain w4 where
    st4: "writeFile w3 ?c (if CDROM opts then ''1'' else ''0'') = (None, w4)"
    and r4: "refuses w4 = refuses w3"
    and k4: "\<forall>x. x \<noteq> ?c \<longrightarrow> kind w4 x = kind w3 x"
    using writeFile_ok[where s = ?cdv] by blast
  have "kind w4 ?r = Some (FileNode a3)" using kr k0 k3 k4 by simp
  moreover have "\<not> refuses w4 ?r (?rov @ nl)" using rr r0 r3 r4 by simp
  ultimately obtain w5 where
    st5: "writeFile w4 ?r (if ReadWrite opts then ''0'' else ''1'') = (None, w5)"
    and r5: "refuses w5 = refuses w4"
    and k5: "\<forall>x. x \<noteq> ?r \<longrightarrow> kind w5 x = kind w4 x"
    using writeFile_ok[where s = ?rov] by blast
  have "kind w5 ?f = Some (FileNode nl)" using f3 k4 k5 by simp
  moreover have "\<not> refuses w5 ?f (p @ nl)" using rp r0 r3 r4 r5 by simp
  ultimately obtain w6 where st6: "writeFile w5 ?f p = (None, w6)"
    and f6: "kind w6 ?f = Some (FileNode (p @ nl))"
    using writeFile_ok[where s = p] by blast
  have v: "verifyMount w6 ?f p = None"
    using f6 t by (simp add: verifyMount_def readFile_content)
  have "fst (ConfigFS_Mount_body w0 g c p opts) = None"
    using d0 l0 st3 st4 st5 st6 v
    by (simp add: ConfigFS_Mount_body_def Let_def step_def)
  then show ?thesis
    using su by (simp add: ConfigFS_Mount_unfold[OF fg fc gu] setUDC_def)
qed

lemma ConfigFS_Unmount_again:
  assumes u: "ConfigFS_Unmount w = (None, w')" and acc: "rebind_accepted w"
  shows "lun_empty ConfigFSBackend w'" and "fst (ConfigFS_Unmount w') = None"
    and "findGadgetRoot w' = findGadgetRoot w" and "rebind_accepted w'"
proof -
  let ?lun = "\<lambda>g. g @ [''functions'', ''mass_storage.0'', ''lun.0'', ''file'']"
  from u obtain g udc w0 wb where fg: "findGadgetRoot w = Inr g"
    and gu: "getUDC w g = Inr udc" and su: "setUDC w g [] = (None, w0)"
    and b: "ConfigFS_Unmount_body w0 g = (None, wb)" and w': "w' = restore_UDC g udc wb"
    by (rule ConfigFS_Unmount_None)
  from b have "step ''clear lun file'' (writeFile w0 (?lun g) [])
        (\<lambda>w1. step ''verify unmount'' (verifyUnmount w1 (?lun g), w1)
        (\<lambda>w2. (None, w2))) = (None, wb)"
    by (simp add: ConfigFS_Unmount_body_def Let_def)
  then obtain w1 where c: "writeFile w0 (?lun g) [] = (None, w1)"
    and "step ''verify unmount'' (verifyUnmount w1 (?lun g), w1) (\<lambda>w2. (None, w2)) = (None, wb)"
    by (rule step_None)
  then have v: "verifyUnmount w1 (?lun g) = None" and wb: "wb = w1"
    by (auto simp add: step_def split: option.splits)
  have fr: "same_except {?lun g} w0 wb"
    using ConfigFS_Unmount_body_frame[of g w0] b by simp
  have sub: "\<forall>q \<in> {?lun g}. below g q" by (simp add: below_append)
  have out: "g @ [''UDC''] \<notin> {?lun g}" by simp
  note a = rebind_accepted_gadget[OF acc fg gu]
  note s = gadget_session_state[OF fg gu su fr sub out]
  note s' = gadget_session[OF fg gu su fr sub out a]
  have g': "findGadgetRoot w' = Inr g" using s'(1) by (simp add: w')
  then show "findGadgetRoot w' = findGadgetRoot w" by (simp add: fg)
  have "?lun g \<noteq> g @ [''UDC'']" by simp
  from s(3)[OF this] have kl: "kind w' (?lun g) = Some (FileNode nl)"
    using writeFile_None_file(2)[OF c] by (simp add: w' wb)
  then have "readFile w' (?lun g) = Inr []"
    by (simp add: readFile_content trim_nl)
  then show "lun_empty ConfigFSBackend w'" by (simp add: lun_empty_def g')
  have ro: "refuses w' = refuses w" using s(4) by (simp add: w')
  have ru: "\<not> refuses w' (g @ [''UDC'']) nl"
    using writeFile_None_file(1)[OF su[unfolded setUDC_def]] ro by simp
  have rl: "\<not> refuses w' (?lun g) nl"
    using writeFile_None_file(1)[OF c] writeFile_None_file(3)[OF su[unfolded setUDC_def]] ro
    by simp
  show "fst (ConfigFS_Unmount w') = None"
    by (rule ConfigFS_Unmount_ok[OF g' ru kl rl])
  have "read_or_empty w' (g @ [''UDC'']) = udc"
    using s'(2) by (simp add: w' getUDC_def read_or_empty_def)
  with a ro show "rebind_accepted w'" by (simp add: rebind_accepted_def g')
qed

lemma UDC_Unmount_None:
  assumes "UDC_Unmount w = (None, w')"
  obtains f where "findLunFile w = Inr f" and "writeFile w f [] = (None, w')"
    and "readFile w' f = Inr []"
proof -
  from assms obtain f where f: "findLunFile w = Inr f"
    by (auto simp add: UDC_Unmount_def split: sum.splits)
  with assms have "step ''clear lun file'' (writeFile w f [])
         (\<lambda>w1. case readFile w1 f of
                  Inl e \<Rightarrow> (Some (Wrap ''verify unmount'' e), w1)
                | Inr content \<Rightarrow>
                    if content \<noteq> [] then (Some (Msg ''verify unmount: LUN file not empty''), w1)
                    else (None, w1)) = (None, w')"
    by (simp add: UDC_Unmount_def)
  then obtain w1 where 1: "writeFile w f [] = (None, w1)"
    and 3: "(case readFile w1 f of
                  Inl e \<Rightarrow> (Some (Wrap ''verify unmount'' e), w1)
                | Inr content \<Rightarrow>
                    if content \<noteq> [] then (Some (Msg ''verify unmount: LUN file not empty''), w1)
                    else (None, w1)) = (None, w')"
    by (elim step_None)
  from 3 have "w1 = w'" and "readFile w' f = Inr []"
    by (auto split: sum.splits if_splits)
  with f 1 that show ?thesis by simp
qed

lemma UDC_Unmount_ok:
  assumes f: "findLunFile w = Inr f" and k: "kind w f = Some (FileNode a)"
    and r: "\<not> refuses w f nl"
  shows "fst (UDC_Unmount w) = None"
proof -
  from k r obtain w1 where c: "writeFile w f [] = (None, w1)"
    and k1: "kind w1 f = Some (FileNode nl)"
    using writeFile_ok_clear by blast
  have "readFile w1 f = Inr []" using k1 by (simp add: readFile_content trim_nl)
  with c show ?thesis by (simp add: UDC_Unmount_def f step_def)
qed

lemma UDC_Mount_ok:
  assumes f: "findLunFile w = Inr f" and k: "kind w f = Some (FileNode a)"
    and r: "\<not> refuses w f nl" and rp: "\<not> refuses w f (p @ nl)"
    and t: "TrimSpace (p @ nl) = p"
  shows "fst (UDC_Mount w p opts) = None"
proof -
  from k r obtain w1 where c: "writeFile w f [] = (None, w1)"
    and k1: "kind w1 f = Some (FileNode nl)" and r1: "refuses w1 = refuses w"
    using writeFile_ok_clear by blast
  have "\<not> refuses w1 f (p @ nl)" using rp r1 by simp
  with k1 obtain w2 where m: "writeFile w1 f p = (None, w2)"
    and k2: "kind w2 f = Some (FileNode (p @ nl))"
    using writeFile_ok[where s = p] by blast
  have "readFile w2 f = Inr p" using k2 t by (simp add: readFile_content)
  with c m show ?thesis by (simp add: UDC_Mount_def f step_def)
qed

lemma UDC_Unmount_again:
  assumes u: "UDC_Unmount w = (None, w')"
  shows "lun_empty UDCBackend w'" and "fst (UDC_Unmount w') = None"
    and "findLunFile w' = findLunFile w"
proof -
  from u obtain f where f: "findLunFile w = Inr f" and c: "writeFile w f [] = (None, w')"
    and v: "readFile w' f = Inr []"
    by (rule UDC_Unmount_None)
  have f': "findLunFile w' = Inr f" by (rule findLunFile_overwrite[OF f writeFile_None[OF c]])
  with v show "lun_empty UDCBackend w'" by (simp add: lun_empty_def)
  from f f' show "findLunFile w' = findLunFile w" by simp
  have k: "kind w' f = Some (FileNode nl)"
    using writeFile_None_file(2)[OF c] by simp
  have "\<not> refuses w' f nl"
    using writeFile_None_file(1,3)[OF c] by simp
  from UDC_Unmount_ok[OF f' k this]
  show "fst (UDC_Unmount w') = None" .
qed

lemma UDC_Unmount_after_Mount:
  assumes m: "UDC_Mount w p opts = (None, w')"
  shows "fst (UDC_Unmount w') = None" and "findLunFile w' = findLunFile w"
proof -
  from m obtain f w1 where f: "findLunFile w = Inr f" and 1: "writeFile w f [] = (None, w1)"
    and 2: "writeFile w1 f p = (None, w')"
    by (rule UDC_Mount_None)
  have f1: "findLunFile w1 = Inr f" by (rule findLunFile_overwrite[OF f writeFile_None[OF 1]])
  have f2: "findLunFile w' = Inr f" by (rule findLunFile_overwrite[OF f1 writeFile_None[OF 2]])
  from f f2 show "findLunFile w' = findLunFile w" by simp
  have "\<not> refuses w' f nl"
    using writeFile_None_file(1,3)[OF 1] writeFile_None_file(3)[OF 2] by simp
  from UDC_Unmount_ok[OF f2 writeFile_None_file(2)[OF 2] this]
  show "fst (UDC_Unmount w') = None" .
qed

lemma Sysfs_Unmount_None:
  assumes "Sysfs_Unmount w = (None, w')"
  obtains w1 w2 w3 where "writeFile w sysfsEnable ''0'' = (None, w1)"
    and "writeFile w1 sysfsFile [] = (None, w2)"
    and "writeFile w2 sysfsFeatures ''mtp'' = (None, w3)"
    and "writeFile w3 sysfsEnable ''1'' = (None, w')"
  using assms unfolding Sysfs_Unmount_def setEnabled_def by (elim step_None) auto

lemma Sysfs_writes_ok:
  assumes ke: "kind w sysfsEnable = Some (FileNode a1)"
    and kf: "kind w sysfsFile = Some (FileNode a2)"
    and kg: "kind w sysfsFeatures = Some (FileNode a3)"
    and r0: "\<not> refuses w sysfsEnable (''0'' @ nl)"
    and rf: "\<not> refuses w sysfsFile (s @ nl)"
    and rg: "\<not> refuses w sysfsFeatures (t @ nl)"
    and r1: "\<not> refuses w sysfsEnable (''1'' @ nl)"
  shows "\<exists>w1 w2 w3 w4. writeFile w sysfsEnable ''0'' = (None, w1)
           \<and> writeFile w1 sysfsFile s = (None, w2)
           \<and> writeFile w2 sysfsFeatures t = (None, w3)
           \<and> writeFile w3 sysfsEnable ''1'' = (None, w4)"
proof -
  note d = sysfs_paths_distinct
  from ke r0 obtain w1 where 1: "writeFile w sysfsEnable ''0'' = (None, w1)"
    and q1: "refuses w1 = refuses w" and e1: "kind w1 sysfsEnable = Some (FileNode (''0'' @ nl))"
    and k1: "\<forall>x. x \<noteq> sysfsEnable \<longrightarrow> kind w1 x = kind w x"
    using writeFile_ok[where s = "''0''"] by blast
  have "kind w1 sysfsFile = Some (FileNode a2)" using kf k1 d by simp
  moreover have "\<not> refuses w1 sysfsFile (s @ nl)" using rf q1 by simp
  ultimately obtain w2 where 2: "writeFile w1 sysfsFile s = (None, w2)"
    and q2: "refuses w2 = refuses w1"
    and k2: "\<forall>x. x \<noteq> sysfsFile \<longrightarrow> kind w2 x = kind w1 x"
    using writeFile_ok[where s = s] by blast
  have "kind w2 sysfsFeatures = Some (FileNode a3)" using kg k1 k2 d by simp
  moreover have "\<not> refuses w2 sysfsFeatures (t @ nl)" using rg q1 q2 by simp
  ultimately obtain w3 where 3: "writeFile w2 sysfsFeatures t = (None, w3)"
    and q3: "refuses w3 = refuses w2"
    and k3: "\<forall>x. x \<noteq> sysfsFeatures \<longrightarrow> kind w3 x = kind w2 x"
    using writeFile_ok[where s = t] by blast
  have "kind w3 sysfsEnable = Some (FileNode (''0'' @ nl))" using e1 k2 k3 d by simp
  moreover have "\<not> refuses w3 sysfsEnable (''1'' @ nl)" using r1 q1 q2 q3 by simp
  ultimately obtain w4 where 4: "writeFile w3 sysfsEnable ''1'' = (None, w4)"
    using writeFile_ok[where s = "''1''"] by blast
  from 1 2 3 4 show ?thesis by blast
qed

lemma Sysfs_Mount_ok:
  assumes "kind w sysfsEnable = Some (FileNode a1)"
    and "kind w sysfsFile = Some (FileNode a2)"
    and "kind w sysfsFeatures = Some (FileNode a3)"
    and "\<not> refuses w sysfsEnable (''0'' @ nl)"
    and "\<not> refuses w sysfsFile (p @ nl)"
    and "\<not> refuses w sysfsFeatures (''mass_storage'' @ nl)"
    and "\<not> refuses w sysfsEnable (''1'' @ nl)"
  shows "fst (Sysfs_Mount w p opts) = None"
  using Sysfs_writes_ok[OF assms]
  by (auto simp add: Sysfs_Mount_def setEnabled_def step_def)

lemma Sysfs_Unmount_ok:
  assumes "kind w sysfsEnable = Some (FileNode a1)"
    and "kind w sysfsFile = Some (FileNode a2)"
    and "kind w sysfsFeatures = Some (FileNode a3)"
    and "\<not> refuses w sysfsEnable (''0'' @ nl)"
    and "\<not> refuses w sysfsFile ([] @ nl)"
    and "\<not> refuses w sysfsFeatures (''mtp'' @ nl)"
    and "\<not> refuses w sysfsEnable (''1'' @ nl)"
  shows "fst (Sysfs_Unmount w) = None"
  using Sysfs_writes_ok[OF assms]
  by (auto simp add: Sysfs_Unmount_def setEnabled_def step_def)

text \<open>The state after the four writes of the Sysfs backend.\<close>

lemma Sysfs_four_writes:
  assumes 1: "writeFile w sysfsEnable ''0'' = (None, w1)"
    and 2: "writeFile w1 sysfsFile s = (None, w2)"
    and 3: "writeFile w2 sysfsFeatures t = (None, w3)"
    and 4: "writeFile w3 sysfsEnable ''1'' = (None, w')"
  shows "kind w' sysfsEnable = Some (FileNode (''1'' @ nl))"
    and "kind w' sysfsFile = Some (FileNode (s @ nl))"
    and "kind w' sysfsFeatures = Some (FileNode (t @ nl))"
    and "refuses w' = refuses w"
    and "\<not> refuses w sysfsEnable (''0'' @ nl)" and "\<not> refuses w sysfsEnable (''1'' @ nl)"
    and "\<not> refuses w sysfsFile (s @ nl)" and "\<not> refuses w sysfsFeatures (t @ nl)"
proof -
  note d = sysfs_paths_distinct
  note f3 = os_WriteFile_frame(4)[OF writeFile_None[OF 3]]
    and f4 = os_WriteFile_frame(4)[OF writeFile_None[OF 4]]
  note n1 = writeFile_None_file[OF 1] and n2 = writeFile_None_file[OF 2]
    and n3 = writeFile_None_file[OF 3] and n4 = writeFile_None_file[OF 4]
  show "kind w' sysfsEnable = Some (FileNode (''1'' @ nl))" by (rule n4(2))
  show "kind w' sysfsFile = Some (FileNode (s @ nl))"
    using n2(2) f3[of sysfsFile] f4[of sysfsFile] d by simp
  show "kind w' sysfsFeatures = Some (FileNode (t @ nl))"
    using n3(2) f4[of sysfsFeatures] d by simp
  show "refuses w' = refuses w" using n1(3) n2(3) n3(3) n4(3) by simp
  show "\<not> refuses w sysfsEnable (''0'' @ nl)" by (rule n1(1))
  show "\<not> refuses w sysfsEnable (''1'' @ nl)" using n4(1) n1(3) n2(3) n3(3) by simp
  show "\<not> refuses w sysfsFile (s @ nl)" using n2(1) n1(3) by simp
  show "\<not> refuses w sysfsFeatures (t @ nl)" using n3(1) n1(3) n2(3) by simp
qed

lemma Sysfs_Unmount_again:
  assumes u: "Sysfs_Unmount w = (None, w')"
  shows "lun_empty SysfsBackend w'" and "fst (Sysfs_Unmount w') = None"
proof -
  from u obtain w1 w2 w3 where 1: "writeFile w sysfsEnable ''0'' = (None, w1)"
    and 2: "writeFile w1 sysfsFile [] = (None, w2)"
    and 3: "writeFile w2 sysfsFeatures ''mtp'' = (None, w3)"
    and 4: "writeFile w3 sysfsEnable ''1'' = (None, w')"
    by (rule Sysfs_Unmount_None)
  note s = Sysfs_four_writes[OF 1 2 3 4]
  show "lun_empty SysfsBackend w'"
    using s(2) by (simp add: lun_empty_def readFile_content trim_nl)
  show "fst (Sysfs_Unmount w') = None"
    by (rule Sysfs_Unmount_ok[OF s(1,2,3)]) (use s(4-8) in simp_all)
qed

lemma Sysfs_Unmount_after_Mount:
  assumes m: "Sysfs_Mount w p opts = (None, w')" and acc: "clear_accepted w"
  shows "fst (Sysfs_Unmount w') = None"
proof -
  from m obtain w1 w2 w3 where 1: "writeFile w sysfsEnable ''0'' = (None, w1)"
    and 2: "writeFile w1 sysfsFile p = (None, w2)"
    and 3: "writeFile w2 sysfsFeatures ''mass_storage'' = (None, w3)"
    and 4: "writeFile w3 sysfsEnable ''1'' = (None, w')"
    by (rule Sysfs_Mount_None[unfolded setEnabled_def, simplified])
  note s = Sysfs_four_writes[OF 1 2 3 4]
  show ?thesis
    by (rule Sysfs_Unmount_ok[OF s(1,2,3)]) (use s(4-6) acc in \<open>simp_all add: clear_accepted_def\<close>)
qed

lemma ConfigFS_Mount_state:
  assumes m: "ConfigFS_Mount w p opts = (None, w')" and acc: "rebind_accepted w"
  obtains g where "findGadgetRoot w = Inr g" and "findGadgetRoot w' = Inr g"
    and "dirExists w' (g @ [''functions'', ''mass_storage.0''])"
    and "kind w' (g @ [''functions'', ''mass_storage.0'', ''lun.0'', ''file''])
           = Some (FileNode (p @ nl))"
    and "TrimSpace (p @ nl) = p"
    and "refuses w' = refuses w"
    and "\<not> refuses w (g @ [''UDC'']) nl"
    and "\<not> refuses w (g @ [''functions'', ''mass_storage.0'', ''lun.0'', ''file'']) nl"
    and "rebind_accepted w'"
proof -
  let ?lun = "\<lambda>g. g @ [''functions'', ''mass_storage.0'', ''lun.0'', ''file'']"
  from m obtain g c udc w0 wb where fg: "findGadgetRoot w = Inr g"
    and fc: "findConfigRoot w g = Inr c"
    and gu: "getUDC w g = Inr udc" and su: "setUDC w g [] = (None, w0)"
    and b: "ConfigFS_Mount_body w0 g c p opts = (None, wb)" and w': "w' = restore_UDC g udc wb"
    by (rule ConfigFS_Mount_None)
  from fc obtain m where c: "c = g @ [''configs'', m]" by (rule findConfigRoot_Inr)
  have "g \<noteq> g @ [''UDC'']" by simp
  from os_WriteFile_frame(4)[OF setUDC_None[OF su] this]
  have kg: "kind w0 g \<noteq> None"
    using findGadgetRoot_bound(1)[OF fg] by simp
  have fr: "same_except (mount_paths g c) w0 wb"
    using ConfigFS_Mount_body_frame[OF kg, of c p opts] b by simp
  have sub: "\<forall>q \<in> mount_paths g c. below g q"
    unfolding c by (blast intro: mount_paths_below)
  have out: "g @ [''UDC''] \<notin> mount_paths g c"
    unfolding c by (rule UDC_not_mount_path)
  note a = rebind_accepted_gadget[OF acc fg gu]
  note s = gadget_session_state[OF fg gu su fr sub out]
  note s' = gadget_session[OF fg gu su fr sub out a]
  note ok = ConfigFS_Mount_body_success[OF b kg]
  have k: "kind w' q = kind wb q" if "q \<noteq> g @ [''UDC'']" for q
    using s(3)[OF that] by (simp add: w')
  have d: "dirExists w' (g @ [''functions'', ''mass_storage.0''])"
    using ok(1) by (simp add: dirExists_def k)
  have kl: "kind w' (?lun g) = Some (FileNode (p @ nl))"
    using ok(3) k[of "?lun g"] by simp
  have t: "TrimSpace (p @ nl) = p"
    using ok(2) readFile_content[OF ok(3)] by simp
  have g': "findGadgetRoot w' = Inr g" using s'(1) by (simp add: w')
  have ro: "refuses w' = refuses w" using s(4) by (simp add: w')
  have ru: "\<not> refuses w (g @ [''UDC'']) nl"
    using writeFile_None_file(1)[OF su[unfolded setUDC_def]] by simp
  have rl: "\<not> refuses w (?lun g) nl"
    using ok(4) writeFile_None_file(3)[OF su[unfolded setUDC_def]] by simp
  have "read_or_empty w' (g @ [''UDC'']) = udc"
    using s'(2) by (simp add: w' getUDC_def read_or_empty_def)
  with a ro have ra: "rebind_accepted w'" by (simp add: rebind_accepted_def g')
  from fg g' d kl t ro ru rl ra show ?thesis by (rule that)
qed

lemma ConfigFS_Status_after_Mount:
  assumes m: "ConfigFS_Mount w p opts = (None, w')" and acc: "rebind_accepted w"
  shows "Mounted (ConfigFS_Status w') = (p \<noteq> [])" and "File (ConfigFS_Status w') = p"
proof -
  from m acc obtain g where g': "findGadgetRoot w' = Inr g"
    and d: "dirExists w' (g @ [''functions'', ''mass_storage.0''])"
    and kl: "kind w' (g @ [''functions'', ''mass_storage.0'', ''lun.0'', ''file''])
           = Some (FileNode (p @ nl))"
    and t: "TrimSpace (p @ nl) = p"
    by (rule ConfigFS_Mount_state)
  have f: "readFile w' (g @ [''functions'', ''mass_storage.0'', ''lun.0'', ''file'']) = Inr p"
    using readFile_content[OF kl] t by simp
  show "Mounted (ConfigFS_Status w') = (p \<noteq> [])" "File (ConfigFS_Status w') = p"
    using d f by (simp_all add: ConfigFS_Status_def g' Let_def not_mounted_def)
qed

lemma ConfigFS_Unmount_after_Mount:
  assumes m: "ConfigFS_Mount w p opts = (None, w')" and acc: "rebind_accepted w"
  shows "fst (ConfigFS_Unmount w') = None" and "findGadgetRoot w' = findGadgetRoot w"
    and "rebind_accepted w'"
proof -
  from m acc obtain g where g: "findGadgetRoot w = Inr g" and g': "findGadgetRoot w' = Inr g"
    and kl: "kind w' (g @ [''functions'', ''mass_storage.0'', ''lun.0'', ''file''])
           = Some (FileNode (p @ nl))"
    and ro: "refuses w' = refuses w"
    and ru: "\<not> refuses w (g @ [''UDC'']) nl"
    and rl: "\<not> refuses w (g @ [''functions'', ''mass_storage.0'', ''lun.0'', ''file'']) nl"
    and ra: "rebind_accepted w'"
    by (rule ConfigFS_Mount_state)
  show "fst (ConfigFS_Unmount w') = None"
    by (rule ConfigFS_Unmount_ok[OF g' _ kl]) (use ro ru rl in simp_all)
  from g g' show "findGadgetRoot w' = findGadgetRoot w" by simp
  from ra show "rebind_accepted w'" .
qed

subsection \<open>When the kernel refuses the name\<close>

lemma gadget_dir_agree:
  assumes ag: "agree_off (T @ [''usb_gadget'', n]) w w'"
  shows "findMountPoint w' t = findMountPoint w t" and "to_path w' s = to_path w s"
    and "dirExists w' (T @ [''usb_gadget'']) = dirExists w (T @ [''usb_gadget''])"
    and "os_ReadDir w' (T @ [''usb_gadget'']) = os_ReadDir w (T @ [''usb_gadget''])"
proof -
  have keep: "kind w' q = kind w q" if "\<not> below (T @ [''usb_gadget'', n]) q" for q
    using ag that by (simp add: agree_off_def)
  show "findMountPoint w' t = findMountPoint w t"
    by (rule findMountPoint_frame) (rule keep, simp add: outside_gadget)+
  show "to_path w' s = to_path w s"
    using ag by (simp add: to_path_def agree_off_def)
  have kG: "kind w' (T @ [''usb_gadget'']) = kind w (T @ [''usb_gadget''])"
    by (rule keep) (simp add: below_def)
  then show "dirExists w' (T @ [''usb_gadget'']) = dirExists w (T @ [''usb_gadget''])"
    by (simp add: dirExists_def)
  show "os_ReadDir w' (T @ [''usb_gadget'']) = os_ReadDir w (T @ [''usb_gadget''])"
    by (rule os_ReadDir_cong[OF kG]) (simp add: keep below_def)
qed

lemma findGadgetRoot_after:
  assumes ag: "agree_off (T @ [''usb_gadget'', n]) w w'"
    and mp: "findMountPoint w ''configfs'' = mp" and ne: "mp \<noteq> []" and T: "to_path w mp = T"
    and d: "dirExists w (T @ [''usb_gadget''])"
    and rd: "os_ReadDir w (T @ [''usb_gadget'']) = Inr es"
  shows "findGadgetRoot w' =
           (case find (\<lambda>name. name ! 0 \<noteq> CHR ''.''
                         \<and> read_or_empty w' (T @ [''usb_gadget'', name, ''UDC'']) \<noteq> []) es of
              Some name \<Rightarrow> Inr (T @ [''usb_gadget'', name])
            | None \<Rightarrow> Inl (Msg ''no active gadget found''))"
  using ne d
  by (simp add: findGadgetRoot_def Let_def gadget_dir_agree[OF ag] mp T rd
      cong: option.case_cong)

text \<open>The state a successful ConfigFS \<open>Mount\<close> leaves, whatever the kernel does with the name.\<close>

lemma ConfigFS_Mount_result:
  assumes m: "ConfigFS_Mount w p opts = (None, w')"
  obtains g udc where "findGadgetRoot w = Inr g" and "getUDC w g = Inr udc"
    and "agree_off g w w'"
    and "kind w' (g @ [''UDC'']) =
           Some (FileNode (if refuses w (g @ [''UDC'']) (udc @ nl) then nl else udc @ nl))"
    and "kind w' (g @ [''functions'', ''mass_storage.0'', ''lun.0'', ''file''])
           = Some (FileNode (p @ nl))"
    and "TrimSpace (p @ nl) = p"
proof -
  let ?lun = "\<lambda>g. g @ [''functions'', ''mass_storage.0'', ''lun.0'', ''file'']"
  from m obtain g c udc w0 wb where fg: "findGadgetRoot w = Inr g"
    and fc: "findConfigRoot w g = Inr c"
    and gu: "getUDC w g = Inr udc" and su: "setUDC w g [] = (None, w0)"
    and b: "ConfigFS_Mount_body w0 g c p opts = (None, wb)" and w': "w' = restore_UDC g udc wb"
    by (rule ConfigFS_Mount_None)
  from fc obtain m where c: "c = g @ [''configs'', m]" by (rule findConfigRoot_Inr)
  have "g \<noteq> g @ [''UDC'']" by simp
  from os_WriteFile_frame(4)[OF setUDC_None[OF su] this]
  have kg: "kind w0 g \<noteq> None"
    using findGadgetRoot_bound(1)[OF fg] by simp
  have fr: "same_except (mount_paths g c) w0 wb"
    using ConfigFS_Mount_body_frame[OF kg, of c p opts] b by simp
  have sub: "\<forall>q \<in> mount_paths g c. below g q"
    unfolding c by (blast intro: mount_paths_below)
  have out: "g @ [''UDC''] \<notin> mount_paths g c"
    unfolding c by (rule UDC_not_mount_path)
  note s = gadget_session_state[OF fg gu su fr sub out]
  note ok = ConfigFS_Mount_body_success[OF b kg]
  have "?lun g \<noteq> g @ [''UDC'']" by simp
  from s(3)[OF this] have kl: "kind w' (?lun g) = Some (FileNode (p @ nl))"
    using ok(3) by (simp add: w')
  have t: "TrimSpace (p @ nl) = p"
    using ok(2) readFile_content[OF ok(3)] by simp
  from fg gu s(1)[folded w'] s(2)[folded w'] kl t show ?thesis by (rule that)
qed

lemma ConfigFS_Unmount_result:
  assumes u: "ConfigFS_Unmount w = (None, w')"
  obtains g udc where "findGadgetRoot w = Inr g" and "getUDC w g = Inr udc"
    and "agree_off g w w'"
    and "kind w' (g @ [''UDC'']) =
           Some (FileNode (if refuses w (g @ [''UDC'']) (udc @ nl) then nl else udc @ nl))"
proof -
  let ?lun = "\<lambda>g. g @ [''functions'', ''mass_storage.0'', ''lun.0'', ''file'']"
  from u obtain g udc w0 wb where fg: "findGadgetRoot w = Inr g"
    and gu: "getUDC w g = Inr udc" and su: "setUDC w g [] = (None, w0)"
    and b: "ConfigFS_Unmount_body w0 g = (None, wb)" and w': "w' = restore_UDC g udc wb"
    by (rule ConfigFS_Unmount_None)
  have fr: "same_except {?lun g} w0 wb"
    using ConfigFS_Unmount_body_frame[of g w0] b by simp
  have sub: "\<forall>q \<in> {?lun g}. below g q" by (simp add: below_append)
  have out: "g @ [''UDC''] \<notin> {?lun g}" by simp
  note s = gadget_session_state[OF fg gu su fr sub out]
  from fg gu s(1)[folded w'] s(2)[folded w'] show ?thesis by (rule that)
qed

text \<open>Worlds with the same files answer every query alike.\<close>

lemma same_files:
  assumes "nodes w' = nodes w" and "cwd w' = cwd w"
  shows "kind w' q = kind w q" and "findGadgetRoot w' = findGadgetRoot w"
    and "findConfigRoot w' g = findConfigRoot w g" and "getUDC w' g = getUDC w g"
    and "dirExists w' q = dirExists w q" and "pathExists w' q = pathExists w q"
    and "findMountPoint w' t = findMountPoint w t" and "to_path w' s = to_path w s"
    and "os_ReadDir w' q = os_ReadDir w q"
proof -
  have k: "kind w' = kind w" by (rule ext) (simp add: kind_def assms)
  have c: "child_names w' = child_names w" by (rule ext) (simp add: child_names_def assms)
  have rf: "readFile w' = readFile w" by (rule ext) (simp add: readFile_def os_ReadFile_def k)
  have rd: "os_ReadDir w' = os_ReadDir w" by (rule ext) (simp add: os_ReadDir_def k c)
  have de: "dirExists w' = dirExists w" by (rule ext) (simp add: dirExists_def k)
  have fm: "findMountPoint w' = findMountPoint w"
    by (rule ext) (simp add: findMountPoint_def k de)
  have tp: "to_path w' = to_path w" by (rule ext) (simp add: to_path_def assms)
  show "kind w' q = kind w q" by (simp add: k)
  show "findGadgetRoot w' = findGadgetRoot w"
    unfolding findGadgetRoot_def fm tp de rd read_or_empty_def rf by (rule refl)
  show "findConfigRoot w' g = findConfigRoot w g"
    unfolding findConfigRoot_def rd by (rule refl)
  show "getUDC w' g = getUDC w g" by (simp add: getUDC_def rf)
  show "dirExists w' q = dirExists w q" by (simp add: de)
  show "pathExists w' q = pathExists w q" by (simp add: pathExists_def k)
  show "findMountPoint w' t = findMountPoint w t" by (simp add: fm)
  show "to_path w' s = to_path w s" by (simp add: tp)
  show "os_ReadDir w' q = os_ReadDir w q" by (simp add: rd)
qed

subsection \<open>Mounting on the example phone\<close>

lemma phone_config_path: "to_path phone ''/config'' = [''config'']"
  by (simp add: to_path_def IsAbs_def split_on_def)

lemma phone_gadget_entries: "os_ReadDir phone [''config'', ''usb_gadget''] = Inr [''g1'']"
  by (simp add: os_ReadDir_def child_names_def kind_def phone_defs valid_name_def)

lemma phone_udc:
  "readFile phone [''config'', ''usb_gadget'', ''g1'', ''UDC''] = Inr ''a600000.dwc3''"
  by (simp add: readFile_def os_ReadFile_def kind_def phone_defs TrimSpace_def
      space_width_def space_width_rev_def space_runes_def)

lemma phone_gadget: "findGadgetRoot phone = Inr g1"
  by (simp add: findGadgetRoot_def Let_def phone_mounts phone_config_path phone_gadget_entries
      read_or_empty_def phone_udc g1_def)
     (simp add: dirExists_def kind_def phone_defs)

lemma phone_config: "findConfigRoot phone g1 = Inr (g1 @ [''configs'', ''b.1''])"
  by (simp add: findConfigRoot_def os_ReadDir_def child_names_def kind_def
      phone_defs valid_name_def)

lemma phone_lun_file: "findLunFile phone = Inr (udc_lun ''a600000.dwc3'')"
  by (simp add: findLunFile_def os_ReadDir_def child_names_def kind_def fileExists_def
      phone_defs valid_name_def)

lemma phone_getUDC: "getUDC phone g1 = Inr ''a600000.dwc3''"
  by (simp add: getUDC_def g1_def phone_udc)

lemma phone_rebind: "rebind_accepted phone"
  by (simp add: rebind_accepted_def phone_gadget) (simp add: phone_def)

lemma phone_clear: "clear_accepted phone"
  by (simp add: clear_accepted_def phone_def)

lemma phone_ConfigFS_Mount:
  assumes "TrimSpace (p @ nl) = p"
  shows "fst (ConfigFS_Mount phone p opts) = None"
  by (rule ConfigFS_Mount_ok[OF phone_gadget phone_config _ _ _ _ _ _ _ _ _ _ assms])
     (simp_all add: dirExists_def pathExists_def kind_def phone_defs)

lemma phone_UDC_Mount:
  assumes "TrimSpace (p @ nl) = p"
  shows "fst (UDC_Mount phone p opts) = None"
  by (rule UDC_Mount_ok[OF phone_lun_file _ _ _ assms])
     (simp_all add: kind_def phone_defs)

lemma phone_Sysfs_Mount: "fst (Sysfs_Mount phone p opts) = None"
  by (rule Sysfs_Mount_ok) (simp_all add: kind_def phone_defs)

lemma fst_None: "fst r = None \<Longrightarrow> r = (None, snd r)"
  by (cases r) simp

lemma x_iso_trimmed: "TrimSpace (''/sdcard/x.iso'' @ nl) = ''/sdcard/x.iso''"
  by (simp add: TrimSpace_def nl_def space_width_def space_width_rev_def space_runes_def)

lemma x_iso_space: "TrimSpace (''/sdcard/x.iso '' @ nl) = ''/sdcard/x.iso''"
  by (simp add: TrimSpace_def nl_def space_width_def space_width_rev_def space_runes_def)

subsection \<open>The phone whose controller cannot be bound again\<close>

lemma busy_files: "nodes phone_busy = nodes phone" "cwd phone_busy = cwd phone"
  by (simp_all add: phone_busy_def)

lemma busy_Mount: "fst (ConfigFS_Mount phone_busy ''/sdcard/x.iso'' opts) = None"
proof -
  note sf = same_files[OF busy_files]
  have fg: "findGadgetRoot phone_busy = Inr g1" by (simp add: sf phone_gadget)
  have fc: "findConfigRoot phone_busy g1 = Inr (g1 @ [''configs'', ''b.1''])"
    by (simp add: sf phone_config)
  show ?thesis
    by (rule ConfigFS_Mount_ok[OF fg fc _ _ _ _ _ _ _ _ _ _ x_iso_trimmed])
       (simp_all add: dirExists_def pathExists_def kind_def phone_busy_def phone_defs)
qed

lemma busy_unbound:
  "findGadgetRoot (snd (ConfigFS_Mount phone_busy ''/sdcard/x.iso'' opts))
     = Inl (Msg ''no active gadget found'')"
proof -
  let ?w' = "snd (ConfigFS_Mount phone_busy ''/sdcard/x.iso'' opts)"
  note sf = same_files[OF busy_files]
  have m: "ConfigFS_Mount phone_busy ''/sdcard/x.iso'' opts = (None, ?w')"
    by (rule fst_None[OF busy_Mount])
  from m obtain g udc where fg: "findGadgetRoot phone_busy = Inr g"
    and gu: "getUDC phone_busy g = Inr udc" and ag: "agree_off g phone_busy ?w'"
    and ku: "kind ?w' (g @ [''UDC'']) =
           Some (FileNode (if refuses phone_busy (g @ [''UDC'']) (udc @ nl) then nl else udc @ nl))"
    by (rule ConfigFS_Mount_result)
  from fg have g: "g = g1" by (simp add: sf phone_gadget)
  from gu have udc: "udc = ''a600000.dwc3''" by (simp add: g sf phone_getUDC)
  have "refuses phone_busy (g1 @ [''UDC'']) (''a600000.dwc3'' @ nl)"
    by (simp add: phone_busy_def nl_def)
  with ku have "kind ?w' (g1 @ [''UDC'']) = Some (FileNode nl)" by (simp add: g udc)
  then have e: "read_or_empty ?w' ([''config''] @ [''usb_gadget'', ''g1'', ''UDC'']) = []"
    by (simp add: read_or_empty_def readFile_content trim_nl g1_def)
  have ag': "agree_off ([''config''] @ [''usb_gadget'', ''g1'']) phone_busy ?w'"
    using ag by (simp add: g g1_def)
  have d: "dirExists phone_busy ([''config''] @ [''usb_gadget''])"
    by (simp add: dirExists_def kind_def phone_busy_def phone_defs)
  have rd: "os_ReadDir phone_busy ([''config''] @ [''usb_gadget'']) = Inr [''g1'']"
    by (simp add: sf phone_gadget_entries)
  have mp: "findMountPoint phone_busy ''configfs'' = ''/config''"
    by (simp add: sf phone_mounts)
  have T: "to_path phone_busy ''/config'' = [''config'']"
    by (simp add: sf phone_config_path)
  show ?thesis
    using findGadgetRoot_after[OF ag' mp _ T d rd] e by simp
qed

subsection \<open>Two gadgets\<close>

lemmas twin_defs = twin_def g2_def phone_nodes_def g1_def udcDir_def
  udc_lun_def sysfsEnable_def sysfsFile_def sysfsFeatures_def nl_def

lemma twin_mounts: "findMountPoint twin ''configfs'' = ''/config''"
  by (simp add: findMountPoint_def kind_def twin_defs scan_lines_def
      split_on_def drop_cr_def Fields_def space_width_def space_runes_def dirExists_def)

lemma twin_path: "to_path twin ''/config'' = [''config'']"
  by (simp add: to_path_def IsAbs_def split_on_def)

lemma twin_entries: "os_ReadDir twin ([''config''] @ [''usb_gadget'']) = Inr [''g1'', ''g2'']"
  by (simp add: os_ReadDir_def child_names_def kind_def twin_defs valid_name_def)

lemma twin_dir: "dirExists twin ([''config''] @ [''usb_gadget''])"
  by (simp add: dirExists_def kind_def twin_defs)

lemma twin_udc:
  "readFile twin [''config'', ''usb_gadget'', ''g1'', ''UDC''] = Inr ''a600000.dwc3''"
  "readFile twin [''config'', ''usb_gadget'', ''g2'', ''UDC''] = Inr ''b700000.dwc3''"
  by (simp_all add: readFile_def os_ReadFile_def kind_def twin_defs TrimSpace_def
      space_width_def space_width_rev_def space_runes_def)

lemma twin_gadget: "findGadgetRoot twin = Inr g1"
  using twin_entries twin_dir
  by (simp add: findGadgetRoot_def Let_def twin_mounts twin_path read_or_empty_def twin_udc
      g1_def)

lemma twin_config: "findConfigRoot twin g1 = Inr (g1 @ [''configs'', ''b.1''])"
  by (simp add: findConfigRoot_def os_ReadDir_def child_names_def kind_def
      twin_defs valid_name_def)

lemma twin_Mount: "fst (ConfigFS_Mount twin ''/sdcard/x.iso'' opts) = None"
  by (rule ConfigFS_Mount_ok[OF twin_gadget twin_config _ _ _ _ _ _ _ _ _ _ x_iso_trimmed])
     (simp_all add: dirExists_def pathExists_def kind_def twin_defs)

text \<open>The state after the mount: the first gadget is unbound and holds the image, the
  second is found.\<close>

lemma twin_mounted:
  fixes opts
  defines "w1 \<equiv> snd (ConfigFS_Mount twin ''/sdcard/x.iso'' opts)"
  shows "agree_off g1 twin w1"
    and "kind w1 (g1 @ [''UDC'']) = Some (FileNode nl)"
    and "kind w1 (g1 @ [''functions'', ''mass_storage.0'', ''lun.0'', ''file''])
           = Some (FileNode (''/sdcard/x.iso'' @ nl))"
    and "findGadgetRoot w1 = Inr g2"
proof -
  have m: "ConfigFS_Mount twin ''/sdcard/x.iso'' opts = (None, w1)"
    unfolding w1_def by (rule fst_None[OF twin_Mount])
  from m obtain g udc where fg: "findGadgetRoot twin = Inr g"
    and gu: "getUDC twin g = Inr udc" and ag: "agree_off g twin w1"
    and ku: "kind w1 (g @ [''UDC'']) =
           Some (FileNode (if refuses twin (g @ [''UDC'']) (udc @ nl) then nl else udc @ nl))"
    and kl: "kind w1 (g @ [''functions'', ''mass_storage.0'', ''lun.0'', ''file''])
           = Some (FileNode (''/sdcard/x.iso'' @ nl))"
    by (rule ConfigFS_Mount_result)
  from fg have g: "g = g1" by (simp add: twin_gadget)
  from gu have udc: "udc = ''a600000.dwc3''" by (simp add: g getUDC_def g1_def twin_udc)
  from ag show ag1: "agree_off g1 twin w1" by (simp add: g)
  have "refuses twin (g1 @ [''UDC'']) (''a600000.dwc3'' @ nl)"
    by (simp add: twin_def nl_def)
  with ku show k1: "kind w1 (g1 @ [''UDC'']) = Some (FileNode nl)" by (simp add: g udc)
  from kl show "kind w1 (g1 @ [''functions'', ''mass_storage.0'', ''lun.0'', ''file''])
           = Some (FileNode (''/sdcard/x.iso'' @ nl))" by (simp add: g)
  have e1: "read_or_empty w1 [''config'', ''usb_gadget'', ''g1'', ''UDC''] = []"
    using k1 by (simp add: read_or_empty_def readFile_content trim_nl g1_def)
  have "\<not> below g1 (g2 @ [''UDC''])" by (simp add: below_def g1_def g2_def)
  with ag1 have "kind w1 (g2 @ [''UDC'']) = kind twin (g2 @ [''UDC''])"
    by (simp add: agree_off_def)
  then have e2: "read_or_empty w1 [''config'', ''usb_gadget'', ''g2'', ''UDC''] = ''b700000.dwc3''"
    using twin_udc(2) readFile_cong[of w1 "g2 @ [''UDC'']" twin]
    by (simp add: read_or_empty_def g2_def)
  have ag': "agree_off ([''config''] @ [''usb_gadget'', ''g1'']) twin w1"
    using ag1 by (simp add: g1_def)
  show "findGadgetRoot w1 = Inr g2"
    using findGadgetRoot_after[OF ag' twin_mounts _ twin_path twin_dir twin_entries] e1 e2
    by (simp add: g2_def)
qed


lemma twin_Unmount:
  fixes opts
  defines "w1 \<equiv> snd (ConfigFS_Mount twin ''/sdcard/x.iso'' opts)"
  shows "fst (ConfigFS_Unmount w1) = None"
proof -
  note s = twin_mounted[of opts, folded w1_def]
  have ro: "refuses w1 = refuses twin" using s(1) by (simp add: agree_off_def)
  have nb: "\<not> below g1 (g2 @ [''functions'', ''mass_storage.0'', ''lun.0'', ''file''])"
    by (simp add: below_def g1_def g2_def)
  have kl: "kind w1 (g2 @ [''functions'', ''mass_storage.0'', ''lun.0'', ''file''])
              = Some (FileNode nl)"
    using s(1) nb by (simp add: agree_off_def) (simp add: kind_def twin_defs)
  show ?thesis
    by (rule ConfigFS_Unmount_ok[OF s(4) _ kl]) (simp_all add: ro twin_def g1_def g2_def)
qed

lemma twin_unmounted:
  fixes opts
  defines "w1 \<equiv> snd (ConfigFS_Mount twin ''/sdcard/x.iso'' opts)"
  defines "w2 \<equiv> snd (ConfigFS_Unmount w1)"
  shows "readFile w2 (g1 @ [''functions'', ''mass_storage.0'', ''lun.0'', ''file''])
           = Inr ''/sdcard/x.iso''"
    and "findGadgetRoot w2 = Inl (Msg ''no active gadget found'')"
proof -
  note s = twin_mounted[of opts, folded w1_def]
  have u: "ConfigFS_Unmount w1 = (None, w2)"
    unfolding w2_def w1_def by (rule fst_None[OF twin_Unmount])
  from u obtain g udc where fg: "findGadgetRoot w1 = Inr g"
    and gu: "getUDC w1 g = Inr udc" and ag: "agree_off g w1 w2"
    and ku: "kind w2 (g @ [''UDC'']) =
           Some (FileNode (if refuses w1 (g @ [''UDC'']) (udc @ nl) then nl else udc @ nl))"
    by (rule ConfigFS_Unmount_result)
  from fg have g: "g = g2" by (simp add: s(4))
  have ro: "refuses w1 = refuses twin" using s(1) by (simp add: agree_off_def)
  have ne: "udc \<noteq> []"
    using findGadgetRoot_bound(2)[OF fg] getUDC_value(1)[OF gu] by simp
  then have "refuses w1 (g2 @ [''UDC'']) (udc @ nl)"
    by (simp add: ro twin_def nl_def)
  with ku have k2: "kind w2 (g2 @ [''UDC'']) = Some (FileNode nl)" by (simp add: g)
  have keep: "kind w2 q = kind w1 q" if "\<not> below g2 q" for q
    using ag that by (simp add: agree_off_def g)
  have "\<not> below g2 (g1 @ [''functions'', ''mass_storage.0'', ''lun.0'', ''file''])"
    by (simp add: below_def g1_def g2_def)
  from keep[OF this] s(3)
  have "kind w2 (g1 @ [''functions'', ''mass_storage.0'', ''lun.0'', ''file''])
          = Some (FileNode (''/sdcard/x.iso'' @ nl))"
    by simp
  from readFile_content[OF this]
  show "readFile w2 (g1 @ [''functions'', ''mass_storage.0'', ''lun.0'', ''file''])
           = Inr ''/sdcard/x.iso''"
    unfolding x_iso_trimmed .
  have "\<not> below g2 (g1 @ [''UDC''])" by (simp add: below_def g1_def g2_def)
  from keep[OF this] s(2)
  have e1: "read_or_empty w2 [''config'', ''usb_gadget'', ''g1'', ''UDC''] = []"
    by (simp add: read_or_empty_def readFile_content trim_nl g1_def)
  have e2: "read_or_empty w2 [''config'', ''usb_gadget'', ''g2'', ''UDC''] = []"
    using k2 by (simp add: read_or_empty_def readFile_content trim_nl g2_def)
  have ag1: "agree_off ([''config''] @ [''usb_gadget'', ''g1'']) twin w1"
    using s(1) by (simp add: g1_def)
  note a1 = gadget_dir_agree[OF ag1]
  have ag2: "agree_off ([''config''] @ [''usb_gadget'', ''g2'']) w1 w2"
    using ag by (simp add: g g2_def)
  have mp: "findMountPoint w1 ''configfs'' = ''/config''" by (simp add: a1 twin_mounts)
  have T: "to_path w1 ''/config'' = [''config'']" by (simp add: a1 twin_path)
  have d: "dirExists w1 ([''config''] @ [''usb_gadget''])"
    unfolding a1(3) by (rule twin_dir)
  have rd: "os_ReadDir w1 ([''config''] @ [''usb_gadget'']) = Inr [''g1'', ''g2'']"
    unfolding a1(4) by (rule twin_entries)
  show "findGadgetRoot w2 = Inl (Msg ''no active gadget found'')"
    using findGadgetRoot_after[OF ag2 mp _ T d rd] e1 e2 by simp
qed

section \<open>Mount, status and unmount\<close>

text \<open>
  C2.  Status after a successful mount does not report the mounted path in every case.  The
  mount state is the trimmed content of the LUN file, so a mount of the empty path succeeds
  on every backend and leaves nothing mounted, and the Sysfs backend, which does not read the
  LUN file back, accepts a path with a trailing space that status then reports without it.
  The ConfigFS backend drops the error of its deferred write of the controller name: where
  the kernel refuses that name, \<open>Mount\<close> returns success with the gadget unbound, and
  \<open>Status\<close>, which looks for a bound gadget, reports nothing mounted.
\<close>

theorem Status_reports_mounted_path_counterexample:
  "fst (Mount SysfsBackend phone ''/sdcard/x.iso '' cdrom_ro) = None
   \<and> File (Status SysfsBackend (snd (Mount SysfsBackend phone ''/sdcard/x.iso '' cdrom_ro)))
        \<noteq> ''/sdcard/x.iso ''
   \<and> fst (Mount ConfigFSBackend phone [] cdrom_ro) = None
   \<and> \<not> Mounted (Status ConfigFSBackend (snd (Mount ConfigFSBackend phone [] cdrom_ro)))
   \<and> fst (Mount UDCBackend phone [] cdrom_ro) = None
   \<and> \<not> Mounted (Status UDCBackend (snd (Mount UDCBackend phone [] cdrom_ro)))
   \<and> fst (Mount ConfigFSBackend phone_busy ''/sdcard/x.iso'' cdrom_ro) = None
   \<and> \<not> Mounted (Status ConfigFSBackend
            (snd (Mount ConfigFSBackend phone_busy ''/sdcard/x.iso'' cdrom_ro)))"
proof -
  have e: "TrimSpace ([] @ nl) = []" by (simp add: trim_nl)
  have s: "Sysfs_Mount phone ''/sdcard/x.iso '' cdrom_ro
             = (None, snd (Sysfs_Mount phone ''/sdcard/x.iso '' cdrom_ro))"
    by (rule fst_None[OF phone_Sysfs_Mount])
  have c: "ConfigFS_Mount phone [] cdrom_ro = (None, snd (ConfigFS_Mount phone [] cdrom_ro))"
    by (rule fst_None[OF phone_ConfigFS_Mount[OF e]])
  have u: "UDC_Mount phone [] cdrom_ro = (None, snd (UDC_Mount phone [] cdrom_ro))"
    by (rule fst_None[OF phone_UDC_Mount[OF e]])
  have b: "\<not> Mounted (ConfigFS_Status (snd (ConfigFS_Mount phone_busy ''/sdcard/x.iso'' cdrom_ro)))"
    by (simp add: ConfigFS_Status_def busy_unbound not_mounted_def)
  show ?thesis
    using phone_Sysfs_Mount[of "''/sdcard/x.iso ''" cdrom_ro] phone_ConfigFS_Mount[OF e, of cdrom_ro]
      phone_UDC_Mount[OF e, of cdrom_ro]
      Sysfs_Status_after_Mount(2)[OF s, unfolded x_iso_space]
      ConfigFS_Status_after_Mount(1)[OF c phone_rebind] UDC_Status_after_Mount(1)[OF u]
      busy_Mount[of cdrom_ro] b
    by simp
qed

text \<open>
  C2, amended.  For each backend and every non-empty image path, for Sysfs every such path
  without leading or trailing white space, and for ConfigFS where the kernel takes the
  controller name that the deferred write gives back to the \<open>UDC\<close> attribute: when \<open>Mount\<close>
  returns success, \<open>Status\<close> on the resulting state reports mounted and that path.
\<close>

theorem Status_reports_mounted_path:
  assumes "Mount b w p opts = (None, w')" and "p \<noteq> []"
    and "b = SysfsBackend \<longrightarrow> TrimSpace p = p"
    and "b = ConfigFSBackend \<longrightarrow> rebind_accepted w"
  shows "Mounted (Status b w') \<and> File (Status b w') = p"
proof (cases b)
  case ConfigFSBackend
  with assms(1,4) have "ConfigFS_Mount w p opts = (None, w')" and "rebind_accepted w"
    by simp_all
  from ConfigFS_Status_after_Mount[OF this] assms(2) show ?thesis
    by (simp add: ConfigFSBackend)
next
  case UDCBackend
  with assms(1) have "UDC_Mount w p opts = (None, w')" by simp
  from UDC_Status_after_Mount[OF this] assms(2) show ?thesis
    by (simp add: UDCBackend)
next
  case SysfsBackend
  with assms(1) have m: "Sysfs_Mount w p opts = (None, w')" by simp
  from SysfsBackend assms(3) have "TrimSpace (p @ nl) = p"
    by (simp add: TrimSpace_append_nl TrimSpace_fix_trimmed)
  with Sysfs_Status_after_Mount[OF m] assms(2) show ?thesis
    by (simp add: SysfsBackend)
qed

theorem Status_reports_mounted_path_witness:
  "\<forall>b. fst (Mount b phone ''/sdcard/x.iso'' cdrom_ro) = None
     \<and> Mounted (Status b (snd (Mount b phone ''/sdcard/x.iso'' cdrom_ro)))
     \<and> File (Status b (snd (Mount b phone ''/sdcard/x.iso'' cdrom_ro))) = ''/sdcard/x.iso''"
proof
  fix b
  have m0: "fst (Mount b phone ''/sdcard/x.iso'' cdrom_ro) = None"
    using phone_ConfigFS_Mount[OF x_iso_trimmed] phone_UDC_Mount[OF x_iso_trimmed]
      phone_Sysfs_Mount
    by (cases b) simp_all
  have t: "TrimSpace ''/sdcard/x.iso'' = ''/sdcard/x.iso''"
    by (simp add: TrimSpace_def space_width_def space_width_rev_def space_runes_def)
  from Status_reports_mounted_path[OF fst_None[OF m0]] t phone_rebind m0
  show "fst (Mount b phone ''/sdcard/x.iso'' cdrom_ro) = None
     \<and> Mounted (Status b (snd (Mount b phone ''/sdcard/x.iso'' cdrom_ro)))
     \<and> File (Status b (snd (Mount b phone ''/sdcard/x.iso'' cdrom_ro))) = ''/sdcard/x.iso''"
    by simp
qed

text \<open>
  C3.  On the ConfigFS backend an unmount after a mount need not clear the LUN file, nor
  succeed twice.  The error of the deferred write of the controller name is dropped, so
  where the kernel refuses the name the gadget stays unbound, and the next operation takes
  the next bound gadget for the active one.  On a phone with two bound gadgets and
  controllers that cannot be bound again, \<open>Mount\<close> writes the image path into the first
  gadget and returns success; \<open>Unmount\<close> then clears the LUN file of the second gadget and
  returns success, the LUN file that \<open>Mount\<close> wrote still names the image, and a second
  \<open>Unmount\<close> fails because no gadget is bound any more.
\<close>

theorem Unmount_clears_and_repeats_counterexample:
  "lun_file ConfigFSBackend twin
     = Inr (g1 @ [''functions'', ''mass_storage.0'', ''lun.0'', ''file''])
   \<and> fst (Mount ConfigFSBackend twin ''/sdcard/x.iso'' cdrom_ro) = None
   \<and> fst (Unmount ConfigFSBackend (snd (Mount ConfigFSBackend twin ''/sdcard/x.iso'' cdrom_ro)))
        = None
   \<and> readFile
        (snd (Unmount ConfigFSBackend (snd (Mount ConfigFSBackend twin ''/sdcard/x.iso'' cdrom_ro))))
        (g1 @ [''functions'', ''mass_storage.0'', ''lun.0'', ''file'']) = Inr ''/sdcard/x.iso''
   \<and> \<not> lun_empty ConfigFSBackend
        (snd (Unmount ConfigFSBackend (snd (Mount ConfigFSBackend twin ''/sdcard/x.iso'' cdrom_ro))))
   \<and> fst (Unmount ConfigFSBackend
        (snd (Unmount ConfigFSBackend (snd (Mount ConfigFSBackend twin ''/sdcard/x.iso'' cdrom_ro)))))
        = Some (Wrap ''find gadget'' (Msg ''no active gadget found''))"
  using twin_Mount[of cdrom_ro] twin_Unmount[of cdrom_ro] twin_unmounted[of cdrom_ro]
  by (simp add: twin_gadget lun_empty_def ConfigFS_Unmount_def)

text \<open>
  C3, amended.  For each backend, and for ConfigFS where the kernel takes the controller
  name that the deferred write gives back to the \<open>UDC\<close> attribute: after a successful
  \<open>Mount\<close>, a successful \<open>Unmount\<close> leaves the LUN file that \<open>Mount\<close> worked on reading as the
  empty string, and \<open>Unmount\<close> in that state succeeds again and leaves it so.  (The file
  then holds the newline that \<open>writeFile\<close> appends; its content as \<open>readFile\<close> sees it is
  empty.)  Moreover \<open>Unmount\<close> after the successful \<open>Mount\<close> does succeed, for Sysfs where the
  kernel takes the two values that only its \<open>Unmount\<close> writes.
\<close>

theorem Unmount_clears_and_repeats:
  assumes m: "Mount b w p opts = (None, w1)"
    and acc: "b = ConfigFSBackend \<longrightarrow> rebind_accepted w"
  shows "(\<forall>w2. Unmount b w1 = (None, w2) \<longrightarrow>
            lun_file b w2 = lun_file b w \<and> lun_empty b w2
            \<and> (\<exists>w3. Unmount b w2 = (None, w3) \<and> lun_empty b w3))
       \<and> ((b = SysfsBackend \<longrightarrow> clear_accepted w) \<longrightarrow> (\<exists>w2. Unmount b w1 = (None, w2)))"
proof (cases b)
  case ConfigFSBackend
  with m acc have cm: "ConfigFS_Mount w p opts = (None, w1)" and a: "rebind_accepted w"
    by simp_all
  note am = ConfigFS_Unmount_after_Mount[OF cm a]
  have "lun_file b w2 = lun_file b w \<and> lun_empty b w2
            \<and> (\<exists>w3. Unmount b w2 = (None, w3) \<and> lun_empty b w3)"
    if "Unmount b w1 = (None, w2)" for w2
  proof -
    from that have u: "ConfigFS_Unmount w1 = (None, w2)" by (simp add: ConfigFSBackend)
    note ua = ConfigFS_Unmount_again[OF u am(3)]
    note u2 = fst_None[OF ua(2)]
    from ConfigFS_Unmount_again(1)[OF u2 ua(4)] u2 ua(1,3) am(2)
    show ?thesis by (auto simp add: ConfigFSBackend)
  qed
  moreover have "\<exists>w2. Unmount b w1 = (None, w2)"
    using fst_None[OF am(1)] by (auto simp add: ConfigFSBackend)
  ultimately show ?thesis by blast
next
  case UDCBackend
  with m have um: "UDC_Mount w p opts = (None, w1)" by simp
  note am = UDC_Unmount_after_Mount[OF um]
  have "lun_file b w2 = lun_file b w \<and> lun_empty b w2
            \<and> (\<exists>w3. Unmount b w2 = (None, w3) \<and> lun_empty b w3)"
    if "Unmount b w1 = (None, w2)" for w2
  proof -
    from that have u: "UDC_Unmount w1 = (None, w2)" by (simp add: UDCBackend)
    note ua = UDC_Unmount_again[OF u]
    note u2 = fst_None[OF ua(2)]
    from UDC_Unmount_again(1)[OF u2] u2 ua(1,3) am(2)
    show ?thesis by (auto simp add: UDCBackend)
  qed
  moreover have "\<exists>w2. Unmount b w1 = (None, w2)"
    using fst_None[OF am(1)] by (auto simp add: UDCBackend)
  ultimately show ?thesis by blast
next
  case SysfsBackend
  with m have sm: "Sysfs_Mount w p opts = (None, w1)" by simp
  have "lun_file b w2 = lun_file b w \<and> lun_empty b w2
            \<and> (\<exists>w3. Unmount b w2 = (None, w3) \<and> lun_empty b w3)"
    if "Unmount b w1 = (None, w2)" for w2
  proof -
    from that have u: "Sysfs_Unmount w1 = (None, w2)" by (simp add: SysfsBackend)
    note ua = Sysfs_Unmount_again[OF u]
    note u2 = fst_None[OF ua(2)]
    from Sysfs_Unmount_again(1)[OF u2] u2 ua(1)
    show ?thesis by (auto simp add: SysfsBackend)
  qed
  moreover have "\<exists>w2. Unmount b w1 = (None, w2)" if "clear_accepted w"
    using fst_None[OF Sysfs_Unmount_after_Mount[OF sm that]] by (auto simp add: SysfsBackend)
  ultimately show ?thesis by (simp add: SysfsBackend)
qed

theorem Unmount_clears_and_repeats_witness:
  "\<forall>b. fst (Mount b phone ''/sdcard/x.iso'' cdrom_ro) = None
     \<and> fst (Unmount b (snd (Mount b phone ''/sdcard/x.iso'' cdrom_ro))) = None
     \<and> lun_empty b (snd (Unmount b (snd (Mount b phone ''/sdcard/x.iso'' cdrom_ro))))
     \<and> fst (Unmount b (snd (Unmount b (snd (Mount b phone ''/sdcard/x.iso'' cdrom_ro))))) = None
     \<and> lun_empty b
         (snd (Unmount b (snd (Unmount b (snd (Mount b phone ''/sdcard/x.iso'' cdrom_ro))))))"
proof
  fix b
  let ?w1 = "snd (Mount b phone ''/sdcard/x.iso'' cdrom_ro)"
  have m0: "fst (Mount b phone ''/sdcard/x.iso'' cdrom_ro) = None"
    using phone_ConfigFS_Mount[OF x_iso_trimmed] phone_UDC_Mount[OF x_iso_trimmed]
      phone_Sysfs_Mount
    by (cases b) simp_all
  from Unmount_clears_and_repeats[OF fst_None[OF m0]] phone_rebind phone_clear
  have 1: "\<forall>w2. Unmount b ?w1 = (None, w2) \<longrightarrow>
            lun_file b w2 = lun_file b phone \<and> lun_empty b w2
            \<and> (\<exists>w3. Unmount b w2 = (None, w3) \<and> lun_empty b w3)"
    and 2: "\<exists>w2. Unmount b ?w1 = (None, w2)"
    by simp_all
  from 2 obtain w2 where u: "Unmount b ?w1 = (None, w2)" by blast
  with 1 obtain w3 where e2: "lun_empty b w2" and u2: "Unmount b w2 = (None, w3)"
    and e3: "lun_empty b w3"
    by blast
  from m0 u e2 u2 e3
  show "fst (Mount b phone ''/sdcard/x.iso'' cdrom_ro) = None
     \<and> fst (Unmount b ?w1) = None
     \<and> lun_empty b (snd (Unmount b ?w1))
     \<and> fst (Unmount b (snd (Unmount b ?w1))) = None
     \<and> lun_empty b (snd (Unmount b (snd (Unmount b ?w1))))"
    by simp
qed

section \<open>No active gadget\<close>

lemma unbound_mounts: "findMountPoint unbound_world ''configfs'' = ''/sys/kernel/config''"
  by (simp add: findMountPoint_def kind_def unbound_world_def nl_def scan_lines_def
      split_on_def drop_cr_def Fields_def space_width_def space_runes_def)

lemma unbound_path:
  "to_path unbound_world ''/sys/kernel/config'' = [''sys'', ''kernel'', ''config'']"
  by (simp add: to_path_def IsAbs_def split_on_def)

lemma unbound_entries:
  "os_ReadDir unbound_world [''sys'', ''kernel'', ''config'', ''usb_gadget''] = Inr [''g0'']"
  by (simp add: os_ReadDir_def child_names_def kind_def unbound_world_def udcDir_def
      valid_name_def)

lemma unbound_udc:
  "read_or_empty unbound_world [''sys'', ''kernel'', ''config'', ''usb_gadget'', ''g0'', ''UDC''] = []"
  using trim_nl
  by (simp add: read_or_empty_def readFile_def os_ReadFile_def kind_def unbound_world_def)

lemma unbound_dir: "dirExists unbound_world [''sys'', ''kernel'', ''config'', ''usb_gadget'']"
  by (simp add: dirExists_def kind_def unbound_world_def)

lemma unbound_controllers: "os_ReadDir unbound_world udcDir = Inr [''a600000.dwc3'']"
  by (simp add: os_ReadDir_def child_names_def kind_def unbound_world_def udcDir_def
      valid_name_def)

text \<open>
  \<open>findGadgetRoot\<close> of the copy under \<open>src/\<close>: when configfs is mounted, its \<open>usb_gadget\<close>
  directory can be listed, and no entry outside the dot files has a non-empty \<open>UDC\<close>
  attribute, \<open>Mount\<close> returns the error \<open>find gadget: no active gadget found\<close> and leaves
  every file as it was.
\<close>

lemma no_active_gadget_fails:
  assumes "findMountPoint w ''configfs'' \<noteq> []"
    and "dirExists w (to_path w (findMountPoint w ''configfs'') @ [''usb_gadget''])"
    and "os_ReadDir w (to_path w (findMountPoint w ''configfs'') @ [''usb_gadget'']) = Inr es"
    and "\<forall>n \<in> set es. n ! 0 = CHR ''.''
           \<or> read_or_empty w (to_path w (findMountPoint w ''configfs'')
                 @ [''usb_gadget'', n, ''UDC'']) = []"
  shows "ConfigFS_Mount w p opts = (Some (Wrap ''find gadget'' (Msg ''no active gadget found'')), w)"
proof -
  have "find (\<lambda>name. name ! 0 \<noteq> CHR ''.''
            \<and> read_or_empty w (to_path w (findMountPoint w ''configfs'')
                  @ [''usb_gadget''] @ [name, ''UDC'']) \<noteq> []) es = None"
    using assms(4) by (auto simp add: find_None_iff)
  with assms(1,2,3) have "findGadgetRoot w = Inl (Msg ''no active gadget found'')"
    by (simp add: findGadgetRoot_def Let_def)
  then show ?thesis by (simp add: ConfigFS_Mount_def)
qed

text \<open>The second copy on the same system: it runs the block that creates \<open>g1\<close>.\<close>

lemma unbound_create:
  "findGadgetRoot_part003 unbound_world
     = create_gadget unbound_world ''/sys/kernel/config'' new_gadget"
proof -
  have "\<not> dirExists unbound_world new_gadget"
    by (simp add: dirExists_def kind_def unbound_world_def udcDir_def new_gadget_def)
  then show ?thesis
    using unbound_dir unbound_entries unbound_udc
    by (simp add: findGadgetRoot_part003_def Let_def unbound_mounts unbound_path try_step_def
        new_gadget_def[symmetric])
qed

lemmas create_defs = create_gadget_def Let_def try_step_def kind_def unbound_world_def
  udcDir_def os_MkdirAll.simps writeFile_def os_WriteFile_def os_ReadDir_def to_path_def
  IsAbs_def split_on_def new_gadget_def nl_def

lemma unbound_created:
  "fst (create_gadget unbound_world ''/sys/kernel/config'' new_gadget) = Inr new_gadget"
  "kind (snd (create_gadget unbound_world ''/sys/kernel/config'' new_gadget)) new_gadget
     = Some DirNode"
  "kind (snd (create_gadget unbound_world ''/sys/kernel/config'' new_gadget))
        (new_gadget @ [''idVendor'']) = Some (FileNode (''0x18d1'' @ nl))"
  "kind (snd (create_gadget unbound_world ''/sys/kernel/config'' new_gadget))
        (new_gadget @ [''idProduct'']) = Some (FileNode (''0x4e26'' @ nl))"
  "kind (snd (create_gadget unbound_world ''/sys/kernel/config'' new_gadget))
        (new_gadget @ [''strings'', ''0x409'', ''serialnumber'']) = Some (FileNode (''123456'' @ nl))"
  "kind (snd (create_gadget unbound_world ''/sys/kernel/config'' new_gadget))
        (new_gadget @ [''strings'', ''0x409'', ''manufacturer'']) = Some (FileNode (''Android'' @ nl))"
  "kind (snd (create_gadget unbound_world ''/sys/kernel/config'' new_gadget))
        (new_gadget @ [''strings'', ''0x409'', ''product'']) = Some (FileNode (''USB Drive'' @ nl))"
  "kind (snd (create_gadget unbound_world ''/sys/kernel/config'' new_gadget))
        (new_gadget @ [''configs'', ''c.1'']) = Some DirNode"
  "kind (snd (create_gadget unbound_world ''/sys/kernel/config'' new_gadget))
        (new_gadget @ [''configs'', ''c.1'', ''strings'', ''0x409'', ''configuration''])
     = Some (FileNode (''Config 1'' @ nl))"
  "new_gadget @ [''UDC'']
     \<notin> fst ` set (writes (snd (create_gadget unbound_world ''/sys/kernel/config'' new_gadget)))"
  by (simp_all add: create_defs)

text \<open>
  C6.  Where no gadget is bound, no copy of the backend does what the claim says.  On a
  system with configfs mounted, a controller \<open>a600000.dwc3\<close> in \<open>/sys/class/udc\<close>, and one
  gadget \<open>g0\<close> with an empty \<open>UDC\<close> attribute, \<open>Mount\<close> of the copy under \<open>src/\<close> returns the
  error \<open>find gadget: no active gadget found\<close> and creates nothing, no \<open>g1\<close> either.
  \<open>findGadgetRoot\<close> of the other copy creates \<open>g1\<close> there, with its vendor and product IDs,
  its strings and its configuration \<open>c.1\<close>, and returns it; it looks for controllers in the
  directory \<open>devices\<close> beside the configfs mount point, which this system does not have, and
  writes nothing to the \<open>UDC\<close> attribute of \<open>g1\<close>.
\<close>

theorem no_active_gadget_not_synthesized:
  "os_ReadDir unbound_world [''sys'', ''kernel'', ''config'', ''usb_gadget''] = Inr [''g0'']
   \<and> read_or_empty unbound_world
         [''sys'', ''kernel'', ''config'', ''usb_gadget'', ''g0'', ''UDC''] = []
   \<and> os_ReadDir unbound_world udcDir = Inr [''a600000.dwc3'']
   \<and> ConfigFS_Mount unbound_world ''/sdcard/x.iso'' cdrom_ro
        = (Some (Wrap ''find gadget'' (Msg ''no active gadget found'')), unbound_world)
   \<and> kind unbound_world new_gadget = None
   \<and> fst (findGadgetRoot_part003 unbound_world) = Inr new_gadget
   \<and> kind (snd (findGadgetRoot_part003 unbound_world)) new_gadget = Some DirNode
   \<and> kind (snd (findGadgetRoot_part003 unbound_world)) (new_gadget @ [''idVendor''])
        = Some (FileNode (''0x18d1'' @ nl))
   \<and> kind (snd (findGadgetRoot_part003 unbound_world)) (new_gadget @ [''idProduct''])
        = Some (FileNode (''0x4e26'' @ nl))
   \<and> kind (snd (findGadgetRoot_part003 unbound_world))
        (new_gadget @ [''strings'', ''0x409'', ''serialnumber'']) = Some (FileNode (''123456'' @ nl))
   \<and> kind (snd (findGadgetRoot_part003 unbound_world))
        (new_gadget @ [''strings'', ''0x409'', ''manufacturer'']) = Some (FileNode (''Android'' @ nl))
   \<and> kind (snd (findGadgetRoot_part003 unbound_world))
        (new_gadget @ [''strings'', ''0x409'', ''product'']) = Some (FileNode (''USB Drive'' @ nl))
   \<and> kind (snd (findGadgetRoot_part003 unbound_world)) (new_gadget @ [''configs'', ''c.1''])
        = Some DirNode
   \<and> kind (snd (findGadgetRoot_part003 unbound_world))
        (new_gadget @ [''configs'', ''c.1'', ''strings'', ''0x409'', ''configuration''])
        = Some (FileNode (''Config 1'' @ nl))
   \<and> new_gadget @ [''UDC''] \<notin> fst ` set (writes (snd (findGadgetRoot_part003 unbound_world)))"
proof -
  have "ConfigFS_Mount unbound_world ''/sdcard/x.iso'' cdrom_ro
        = (Some (Wrap ''find gadget'' (Msg ''no active gadget found'')), unbound_world)"
    by (rule no_active_gadget_fails[where es = "[''g0'']"])
       (use unbound_dir unbound_entries unbound_udc in
         \<open>simp_all add: unbound_mounts unbound_path\<close>)
  moreover have "kind unbound_world new_gadget = None"
    by (simp add: kind_def unbound_world_def udcDir_def new_gadget_def)
  ultimately show ?thesis
    using unbound_entries unbound_udc unbound_controllers unbound_created
    by (simp add: unbound_create)
qed

end
